(* ===== verification/Prelude.thy ===== *)
theory Prelude
  imports Complex_Main "HOL-Library.Word"
begin

text \<open>
  Shared vocabulary of the development: the Python exceptions the modelled code can
  raise, the error-propagating sequencing of Python statements (\<open>bind_sum\<close>),
  element-wise mapping that stops at the first exception (\<open>map_sum\<close>), and the
  lemma collections the component theories fill.
\<close>

named_theorems calendar_simps "equations evaluating calendar functions on concrete dates"
named_theorems battery_simps "equations of the battery operations"

text \<open>The Python exceptions raised on the paths of the modelled code.\<close>

datatype py_error = KeyError | IndexError | ValueError | ZeroDivisionError | OverflowError | AttributeError
  | OutOfBoundsDatetime

text \<open>Statement sequencing: an exception raised by the first statement is propagated.\<close>

fun bind_sum :: "'e + 'a \<Rightarrow> ('a \<Rightarrow> 'e + 'b) \<Rightarrow> 'e + 'b" where
  "bind_sum (Inl e) f = Inl e"
| "bind_sum (Inr a) f = f a"

text \<open>
  Applying a fallible function to every element in order, as a Python comprehension or
  \<open>Index.map\<close> does: the first exception aborts the whole map.
\<close>

primrec map_sum :: "('a \<Rightarrow> 'e + 'b) \<Rightarrow> 'a list \<Rightarrow> 'e + 'b list" where
  "map_sum f [] = Inr []"
| "map_sum f (x # xs) = bind_sum (f x) (\<lambda>y. bind_sum (map_sum f xs) (\<lambda>ys. Inr (y # ys)))"

subsection \<open>Generic lemmas\<close>

lemma bind_sum_Inr_iff [simp]:
  "bind_sum m f = Inr b \<longleftrightarrow> (\<exists>a. m = Inr a \<and> f a = Inr b)"
  by (cases m) auto

lemma bind_sum_Inl_iff [simp]:
  "bind_sum m f = Inl e \<longleftrightarrow> m = Inl e \<or> (\<exists>a. m = Inr a \<and> f a = Inl e)"
  by (cases m) auto

lemma bind_sum_right_unit [simp]: "bind_sum m Inr = m"
  by (cases m) simp_all

lemma bind_sum_assoc: "bind_sum (bind_sum m f) g = bind_sum m (\<lambda>a. bind_sum (f a) g)"
  by (cases m) simp_all

lemma bind_sum_eq_Inr [intro]:
  "m = Inr a \<Longrightarrow> f a = Inr b \<Longrightarrow> bind_sum m f = Inr b"
  by simp

lemma map_sum_Inr_iff:
  "map_sum f xs = Inr ys \<longleftrightarrow> list_all2 (\<lambda>x y. f x = Inr y) xs ys"
proof (induction xs arbitrary: ys)
  case Nil
  then show ?case by auto
next
  case (Cons x xs)
  then show ?case by (cases ys) auto
qed

lemma map_sum_map:
  "(\<And>x. x \<in> set xs \<Longrightarrow> f x = Inr (g x)) \<Longrightarrow> map_sum f xs = Inr (map g xs)"
  by (induction xs) auto

lemma map_sum_append:
  "map_sum f (xs @ ys) = bind_sum (map_sum f xs) (\<lambda>a. bind_sum (map_sum f ys) (\<lambda>b. Inr (a @ b)))"
  by (induction xs) (simp_all add: bind_sum_assoc)

lemma map_sum_map_arg:
  "map_sum f (map g xs) = map_sum (f \<circ> g) xs"
  by (induction xs) simp_all

lemma map_sum_length:
  "map_sum f xs = Inr ys \<Longrightarrow> length ys = length xs"
  by (auto simp: map_sum_Inr_iff dest: list_all2_lengthD)

lemma map_sum_Inl:
  assumes "x \<in> set xs" and "f x = Inl e"
  shows "\<exists>e'. map_sum f xs = Inl e'"
  using assms
proof (induction xs)
  case Nil
  then show ?case by simp
next
  case (Cons y xs)
  show ?case
  proof (cases "f y")
    case (Inl e1)
    then show ?thesis by simp
  next
    case (Inr b)
    with Cons have "x \<in> set xs" by auto
    with Cons.IH Cons.prems(2) obtain e' where "map_sum f xs = Inl e'" by blast
    with Inr show ?thesis by simp
  qed
qed

lemma map_sum_Inl_mem:
  "map_sum f xs = Inl e \<Longrightarrow> \<exists>x\<in>set xs. f x = Inl e"
  by (induction xs) auto

lemma concat_eq_blocks:
  "list_all2 (\<lambda>a b. length a = length b) xs ys \<Longrightarrow> concat xs = concat ys \<Longrightarrow> xs = ys"
  by (induction rule: list_all2_induct) simp_all

lemma length_concat_const:
  "(\<And>xs. xs \<in> set xss \<Longrightarrow> length xs = n) \<Longrightarrow> length (concat xss) = n * length xss"
  by (induction xss) auto

lemma map_sum_ex:
  assumes "\<And>x. x \<in> set xs \<Longrightarrow> \<exists>y. f x = Inr y \<and> P x y"
  shows "\<exists>ys. map_sum f xs = Inr ys \<and> list_all2 P xs ys"
  using assms
proof (induction xs)
  case Nil
  then show ?case by simp
next
  case (Cons x xs)
  obtain y where y: "f x = Inr y" "P x y" using Cons.prems by auto
  obtain ys where ys: "map_sum f xs = Inr ys" "list_all2 P xs ys" using Cons by auto
  show ?case using y ys by auto
qed

lemma list_all2_concat_map:
  "(\<And>x. x \<in> set xs \<Longrightarrow> list_all2 P (f x) (g x)) \<Longrightarrow> list_all2 P (concat (map f xs)) (concat (map g xs))"
  by (induction xs) (simp_all add: list_all2_appendI)

lemma list_all2_const_right:
  "list_all2 P xs ys \<Longrightarrow> \<forall>y\<in>set ys. y = c \<Longrightarrow> list_all (\<lambda>x. P x c) xs"
  by (induction rule: list_all2_induct) auto

lemma list_all2_map_eq:
  "list_all2 (\<lambda>x y. g y = h x) xs ys \<Longrightarrow> map g ys = map h xs"
  by (induction rule: list_all2_induct) auto

lemma map_upt_shift:
  "map f [a + k..<b + k] = map (\<lambda>i. f (i + k)) [a..<b]"
  by (rule nth_equalityI) (simp_all add: add.commute add.left_commute)

subsection \<open>Fixed-width integers\<close>

lemma sint_word_of_int_exact:
  assumes "- (2 ^ (LENGTH('a) - 1)) \<le> x" and "x < 2 ^ (LENGTH('a) - 1)"
  shows "sint (word_of_int x :: 'a::len word) = x"
  using assms by (simp add: sint_sbintrunc' signed_take_bit_int_eq_self)

lemma sint_power_exact:
  assumes "0 \<le> x" and "x ^ k < 2 ^ (LENGTH('a) - 1)"
  shows "sint ((word_of_int x :: 'a::len word) ^ k) = x ^ k"
proof -
  have "0 \<le> x ^ k" using assms(1) by simp
  moreover have "- (2 ^ (LENGTH('a) - 1)) \<le> (0::int)" by simp
  ultimately have "- (2 ^ (LENGTH('a) - 1)) \<le> x ^ k" by linarith
  then have "sint (word_of_int (x ^ k) :: 'a::len word) = x ^ k"
    using assms(2) by (rule sint_word_of_int_exact)
  then show ?thesis by (simp only: word_of_int_power_hom)
qed

lemma sint_power_wraps:
  assumes "2 ^ (LENGTH('a) - 1) \<le> x ^ k"
  shows "sint ((word_of_int x :: 'a::len word) ^ k) \<noteq> x ^ k"
  using assms sint_lt [of "(word_of_int x :: 'a::len word) ^ k"] by linarith

subsection \<open>Saturating sums and counting steps\<close>

lemma min_add_step:
  fixes c x r s :: "'a::linordered_field"
  assumes "0 \<le> r" and "0 \<le> s"
  shows "min c (min c (x + r) + s) = min c (x + r + s)"
  using assms by (auto simp: min_def)

lemma max_sub_step:
  fixes x r s :: "'a::linordered_field"
  assumes "0 \<le> r" and "0 \<le> s"
  shows "max 0 (max 0 (x - r) - s) = max 0 (x - r - s)"
  using assms by (auto simp: max_def)

lemma ceiling_steps:
  fixes x r :: "'a::floor_ceiling"
  assumes "0 \<le> x" and "0 < r"
  shows "x \<le> of_nat (nat \<lceil>x / r\<rceil>) * r \<and> (\<forall>k < nat \<lceil>x / r\<rceil>. of_nat k * r < x)"
proof -
  have c: "of_nat (nat \<lceil>x / r\<rceil>) = (of_int \<lceil>x / r\<rceil> :: 'a)"
    using assms by (simp add: zero_le_divide_iff)
  have "x / r \<le> of_int \<lceil>x / r\<rceil>" by (rule le_of_int_ceiling)
  then have up: "x \<le> of_nat (nat \<lceil>x / r\<rceil>) * r" unfolding c pos_divide_le_eq [OF assms(2)] .
  have "of_nat k * r < x" if k: "k < nat \<lceil>x / r\<rceil>" for k
  proof -
    have "int k < \<lceil>x / r\<rceil>" using k by linarith
    then have "of_int (int k) < x / r" by (simp add: less_ceiling_iff)
    then show ?thesis unfolding pos_less_divide_eq [OF assms(2)] by simp
  qed
  then show ?thesis using up by blast
qed

lemma exact_steps:
  fixes d lim :: "'a::floor_ceiling"
  assumes "0 < d" and "0 < lim"
  shows "\<exists>n r. 0 < r \<and> r \<le> lim \<and> of_nat n * r = d"
proof -
  let ?n = "nat \<lceil>d / lim\<rceil>"
  have ge: "d \<le> of_nat ?n * lim" using ceiling_steps [of d lim] assms by simp
  have "?n \<noteq> 0"
  proof
    assume n: "?n = 0"
    from ge have "d \<le> of_nat 0 * lim" unfolding n .
    with assms(1) show False by simp
  qed
  then have pos: "0 < (of_nat ?n :: 'a)" by simp
  show ?thesis
  proof (intro exI conjI)
    show "0 < d / of_nat ?n" using assms pos by simp
    show "d / of_nat ?n \<le> lim" using ge pos by (simp add: divide_le_eq mult.commute)
    have "\<And>N :: 'a. 0 < N \<Longrightarrow> N * (d / N) = d" by simp
    then show "of_nat ?n * (d / of_nat ?n) = d" using pos by blast
  qed
qed

end
