(* ===== verification/Battery.thy ===== *)
theory Battery
  imports Prelude
begin

text \<open>
  The battery of \<open>src/src/battery.py\<close>: class \<open>Battery\<close> with its four attributes as a
  record, the constructor, the read-only properties \<open>SoC\<close>, \<open>max_charge\<close>,
  \<open>max_discharge\<close>, and the mutating methods \<open>charge\<close> and \<open>discharge\<close>, which
  return the updated battery together with the amount the Python method returns.
  Quantities range over any linearly ordered field (the witnesses use \<open>real\<close>);
  floating-point rounding is not modelled.
\<close>

record 'a battery =
  capacity_kWh :: 'a
  charge_kWh :: 'a
  discharge_kWh :: 'a
  current_kWh :: 'a

text \<open>\<open>Battery.__init__\<close>: the attributes are stored as given, without any check.\<close>

definition Battery :: "'a \<Rightarrow> 'a \<Rightarrow> 'a \<Rightarrow> 'a \<Rightarrow> 'a battery" where
  "Battery capacity charge_max discharge_max current =
     \<lparr>capacity_kWh = capacity, charge_kWh = charge_max,
      discharge_kWh = discharge_max, current_kWh = current\<rparr>"

definition default_battery :: "'a::linordered_field battery" where
  "default_battery = Battery 1000 200 200 0"

text \<open>\<open>SoC\<close>: \<open>current_kWh / capacity_kWh\<close>; Python raises ZeroDivisionError on a zero capacity.\<close>

definition SoC :: "'a::field battery \<Rightarrow> py_error + 'a" where
  "SoC b = (if capacity_kWh b = 0 then Inl ZeroDivisionError
            else Inr (current_kWh b / capacity_kWh b))"

definition max_charge :: "'a::linordered_field battery \<Rightarrow> 'a" where
  "max_charge b = min (charge_kWh b) (capacity_kWh b - current_kWh b)"

definition max_discharge :: "'a::linordered_field battery \<Rightarrow> 'a" where
  "max_discharge b = min (discharge_kWh b) (current_kWh b)"

text \<open>\<open>charge\<close> and \<open>discharge\<close>: the new battery and the returned \<open>actual\<close>.\<close>

definition charge :: "'a::linordered_field battery \<Rightarrow> 'a \<Rightarrow> 'a battery \<times> 'a" where
  "charge b amount =
     (let actual = min amount (max_charge b)
      in (b\<lparr>current_kWh := current_kWh b + actual\<rparr>, actual))"

definition discharge :: "'a::linordered_field battery \<Rightarrow> 'a \<Rightarrow> 'a battery \<times> 'a" where
  "discharge b amount =
     (let actual = min amount (max_discharge b)
      in (b\<lparr>current_kWh := current_kWh b - actual\<rparr>, actual))"

declare Battery_def [battery_simps] default_battery_def [battery_simps] SoC_def [battery_simps]
  max_charge_def [battery_simps] max_discharge_def [battery_simps]
  charge_def [battery_simps] discharge_def [battery_simps]

subsection \<open>Sequences of calls\<close>

text \<open>
  A client drives the battery by a sequence of method calls; \<open>run_battery\<close> performs
  them in order and collects the returned amounts.
\<close>

datatype 'a battery_call = Charge 'a | Discharge 'a

fun battery_step :: "'a::linordered_field battery \<Rightarrow> 'a battery_call \<Rightarrow> 'a battery \<times> 'a" where
  "battery_step b (Charge a) = charge b a"
| "battery_step b (Discharge a) = discharge b a"

fun run_battery :: "'a::linordered_field battery \<Rightarrow> 'a battery_call list \<Rightarrow> 'a battery \<times> 'a list" where
  "run_battery b [] = (b, [])"
| "run_battery b (c # cs) =
     (let (b', x) = battery_step b c; (b'', xs) = run_battery b' cs in (b'', x # xs))"

fun call_amount :: "'a battery_call \<Rightarrow> 'a" where
  "call_amount (Charge a) = a"
| "call_amount (Discharge a) = a"

text \<open>The change of the charge a returned amount stands for: \<open>+x\<close> for a charge, \<open>-x\<close> for a discharge.\<close>

fun signed_amount :: "'a::linordered_field battery_call \<Rightarrow> 'a \<Rightarrow> 'a" where
  "signed_amount (Charge _) x = x"
| "signed_amount (Discharge _) x = - x"

text \<open>
  Undoing a sequence of calls: each realized amount, taken back by the opposite call, in
  the reverse order of the calls.
\<close>

fun undo_call :: "'a battery_call \<Rightarrow> 'a \<Rightarrow> 'a battery_call" where
  "undo_call (Charge _) x = Discharge x"
| "undo_call (Discharge _) x = Charge x"

definition undo_calls :: "'a battery_call list \<Rightarrow> 'a list \<Rightarrow> 'a battery_call list" where
  "undo_calls cs xs = rev (map2 undo_call cs xs)"

text \<open>
  The states a battery can reach from \<open>b0\<close> by calls with non-negative requests (the
  caller contract of the specification), as a step relation.
\<close>

inductive battery_reach :: "'a::linordered_field battery \<Rightarrow> 'a battery \<Rightarrow> bool" where
  refl: "battery_reach b0 b0"
| step: "battery_reach b0 b \<Longrightarrow> 0 \<le> call_amount c \<Longrightarrow> battery_reach b0 (fst (battery_step b c))"

text \<open>The invariant the specification states for every battery in use.\<close>

definition battery_inv :: "'a::linordered_field battery \<Rightarrow> bool" where
  "battery_inv b \<longleftrightarrow>
     0 < capacity_kWh b \<and> 0 \<le> charge_kWh b \<and> 0 \<le> discharge_kWh b \<and>
     0 \<le> current_kWh b \<and> current_kWh b \<le> capacity_kWh b"

subsection \<open>Effect of one call\<close>

lemma charge_fields [simp]:
  "capacity_kWh (fst (charge b a)) = capacity_kWh b"
  "charge_kWh (fst (charge b a)) = charge_kWh b"
  "discharge_kWh (fst (charge b a)) = discharge_kWh b"
  "current_kWh (fst (charge b a)) = current_kWh b + snd (charge b a)"
  "snd (charge b a) = min a (max_charge b)"
  by (simp_all add: charge_def Let_def)

lemma discharge_fields [simp]:
  "capacity_kWh (fst (discharge b a)) = capacity_kWh b"
  "charge_kWh (fst (discharge b a)) = charge_kWh b"
  "discharge_kWh (fst (discharge b a)) = discharge_kWh b"
  "current_kWh (fst (discharge b a)) = current_kWh b - snd (discharge b a)"
  "snd (discharge b a) = min a (max_discharge b)"
  by (simp_all add: discharge_def Let_def)

lemma charge_inv:
  "battery_inv b \<Longrightarrow> 0 \<le> a \<Longrightarrow> battery_inv (fst (charge b a))"
  by (auto simp: battery_inv_def max_charge_def)

lemma discharge_inv:
  "battery_inv b \<Longrightarrow> 0 \<le> a \<Longrightarrow> battery_inv (fst (discharge b a))"
  by (auto simp: battery_inv_def max_discharge_def)

lemma battery_step_inv:
  "battery_inv b \<Longrightarrow> 0 \<le> call_amount c \<Longrightarrow> battery_inv (fst (battery_step b c))"
  by (cases c) (simp_all add: charge_inv discharge_inv)

lemma charge_actual_bounds:
  "battery_inv b \<Longrightarrow> 0 \<le> a \<Longrightarrow> 0 \<le> snd (charge b a) \<and> snd (charge b a) \<le> a"
  by (auto simp: battery_inv_def max_charge_def)

lemma default_battery_inv [simp]: "battery_inv (default_battery :: 'a::linordered_field battery)"
  by (simp add: battery_inv_def default_battery_def Battery_def)

lemma default_battery_fields [simp]:
  "capacity_kWh default_battery = 1000" "charge_kWh default_battery = 200"
  "discharge_kWh default_battery = 200" "current_kWh default_battery = 0"
  by (simp_all add: default_battery_def Battery_def)

lemma run_battery_Cons_fst:
  "fst (run_battery b (c # cs)) = fst (run_battery (fst (battery_step b c)) cs)"
  by (simp add: Let_def prod.case_eq_if)

lemma run_battery_Cons_snd:
  "snd (run_battery b (c # cs)) = snd (battery_step b c) # snd (run_battery (fst (battery_step b c)) cs)"
  by (simp add: Let_def prod.case_eq_if)

lemma run_battery_append:
  "run_battery b (cs @ ds) =
     (let (b', xs) = run_battery b cs; (b'', ys) = run_battery b' ds in (b'', xs @ ys))"
  by (induction cs arbitrary: b) (simp_all add: Let_def split: prod.splits)

lemma run_battery_length: "length (snd (run_battery b cs)) = length cs"
  by (induction cs arbitrary: b) (simp_all add: Let_def prod.case_eq_if)

lemma battery_step_undo:
  assumes "battery_inv b" and "charge_kWh b = discharge_kWh b" and "0 \<le> call_amount c"
  shows "battery_step (fst (battery_step b c)) (undo_call c (snd (battery_step b c))) = (b, snd (battery_step b c))"
proof (cases c)
  case (Charge a)
  have "min a (max_charge b) \<le> current_kWh b + min a (max_charge b)"
    and "min a (max_charge b) \<le> discharge_kWh b"
    using assms Charge by (auto simp: battery_inv_def max_charge_def)
  then show ?thesis using Charge
    by (simp add: discharge_def charge_def max_discharge_def Let_def min_absorb1)
next
  case (Discharge a)
  have "min a (max_discharge b) \<le> capacity_kWh b - (current_kWh b - min a (max_discharge b))"
    and "min a (max_discharge b) \<le> charge_kWh b"
    using assms Discharge by (auto simp: battery_inv_def max_discharge_def)
  then show ?thesis using Discharge
    by (simp add: discharge_def charge_def max_charge_def Let_def min_absorb1)
qed

lemma run_charge_list:
  assumes "battery_inv b" and "\<forall>a\<in>set as. 0 \<le> a"
  shows "battery_inv (fst (run_battery b (map Charge as))) \<and>
         current_kWh (fst (run_battery b (map Charge as))) =
           min (capacity_kWh b) (current_kWh b + sum_list (map (\<lambda>a. min a (charge_kWh b)) as)) \<and>
         sum_list (snd (run_battery b (map Charge as))) =
           current_kWh (fst (run_battery b (map Charge as))) - current_kWh b"
  using assms
proof (induction as arbitrary: b)
  case Nil
  then show ?case by (simp add: battery_inv_def)
next
  case (Cons a as)
  let ?b = "fst (charge b a)"
  have a: "0 \<le> a" and as: "\<forall>a\<in>set as. 0 \<le> a" using Cons.prems(2) by simp_all
  have i: "battery_inv ?b" by (rule charge_inv [OF Cons.prems(1) a])
  have c: "current_kWh b + min a (max_charge b) = min (capacity_kWh b) (current_kWh b + min a (charge_kWh b))"
    using Cons.prems(1) by (auto simp: battery_inv_def max_charge_def min_def)
  have r: "0 \<le> min a (charge_kWh b)" using a Cons.prems(1) by (simp add: battery_inv_def)
  have s: "0 \<le> sum_list (map (\<lambda>a. min a (charge_kWh b)) as)"
    using as Cons.prems(1) by (intro sum_list_nonneg) (auto simp: battery_inv_def)
  have "min (capacity_kWh b) (current_kWh ?b + sum_list (map (\<lambda>a. min a (charge_kWh b)) as)) =
          min (capacity_kWh b) (current_kWh b + sum_list (map (\<lambda>a. min a (charge_kWh b)) (a # as)))"
    using c min_add_step [OF r s] by (simp add: algebra_simps)
  then show ?case
    using Cons.IH [OF i as] c
    by (simp only: list.map run_battery_Cons_fst run_battery_Cons_snd battery_step.simps) simp
qed

lemma run_discharge_list:
  assumes "battery_inv b" and "\<forall>a\<in>set as. 0 \<le> a"
  shows "battery_inv (fst (run_battery b (map Discharge as))) \<and>
         current_kWh (fst (run_battery b (map Discharge as))) =
           max 0 (current_kWh b - sum_list (map (\<lambda>a. min a (discharge_kWh b)) as)) \<and>
         sum_list (snd (run_battery b (map Discharge as))) =
           current_kWh b - current_kWh (fst (run_battery b (map Discharge as)))"
  using assms
proof (induction as arbitrary: b)
  case Nil
  then show ?case by (simp add: battery_inv_def)
next
  case (Cons a as)
  let ?b = "fst (discharge b a)"
  have a: "0 \<le> a" and as: "\<forall>a\<in>set as. 0 \<le> a" using Cons.prems(2) by simp_all
  have i: "battery_inv ?b" by (rule discharge_inv [OF Cons.prems(1) a])
  have c: "current_kWh b - min a (max_discharge b) = max 0 (current_kWh b - min a (discharge_kWh b))"
    using Cons.prems(1) by (auto simp: battery_inv_def max_discharge_def min_def max_def)
  have r: "0 \<le> min a (discharge_kWh b)" using a Cons.prems(1) by (simp add: battery_inv_def)
  have s: "0 \<le> sum_list (map (\<lambda>a. min a (discharge_kWh b)) as)"
    using as Cons.prems(1) by (intro sum_list_nonneg) (auto simp: battery_inv_def)
  have "max 0 (current_kWh b - min a (max_discharge b) - sum_list (map (\<lambda>a. min a (discharge_kWh b)) as)) =
          max 0 (current_kWh b - min a (discharge_kWh b) - sum_list (map (\<lambda>a. min a (discharge_kWh b)) as))"
    by (simp only: c max_sub_step [OF r s])
  then have e: "max 0 (current_kWh b - min a (max_discharge b) - sum_list (map (\<lambda>a. min a (discharge_kWh b)) as)) =
          max 0 (current_kWh b - sum_list (map (\<lambda>a. min a (discharge_kWh b)) (a # as)))"
    by (simp add: algebra_simps)
  then show ?case
    using Cons.IH [OF i as] e
    by (simp only: list.map run_battery_Cons_fst run_battery_Cons_snd battery_step.simps) (simp add: algebra_simps)
qed

lemma run_charges:
  assumes "battery_inv b" and "0 \<le> a"
  shows "battery_inv (fst (run_battery b (replicate k (Charge a)))) \<and>
         current_kWh (fst (run_battery b (replicate k (Charge a)))) =
           min (capacity_kWh b) (current_kWh b + of_nat k * min a (charge_kWh b))"
  using run_charge_list [OF assms(1), of "replicate k a"] assms(2) by (simp add: sum_list_replicate)

lemma run_discharges:
  assumes "battery_inv b" and "0 \<le> a"
  shows "battery_inv (fst (run_battery b (replicate k (Discharge a)))) \<and>
         current_kWh (fst (run_battery b (replicate k (Discharge a)))) =
           max 0 (current_kWh b - of_nat k * min a (discharge_kWh b))"
  using run_discharge_list [OF assms(1), of "replicate k a"] assms(2) by (simp add: sum_list_replicate)

lemma battery_step_only_current:
  "fst (battery_step b c) = b\<lparr>current_kWh := current_kWh (fst (battery_step b c))\<rparr>"
  by (cases c) (simp_all add: charge_def discharge_def Let_def)

lemma run_battery_only_current:
  "fst (run_battery b cs) = b\<lparr>current_kWh := current_kWh (fst (run_battery b cs))\<rparr>"
proof (induction cs arbitrary: b)
  case Nil
  then show ?case by simp
next
  case (Cons c cs)
  have "fst (run_battery b (c # cs)) = fst (run_battery (fst (battery_step b c)) cs)" by (rule run_battery_Cons_fst)
  also have "\<dots> = (fst (battery_step b c))\<lparr>current_kWh := current_kWh \<dots>\<rparr>" by (rule Cons.IH)
  also have "\<dots> = b\<lparr>current_kWh := current_kWh (fst (run_battery (fst (battery_step b c)) cs))\<rparr>"
    by (subst battery_step_only_current) simp
  finally show ?case by (simp add: run_battery_Cons_fst)
qed

lemma battery_reach_run:
  "battery_reach b0 b \<Longrightarrow> \<forall>c \<in> set cs. 0 \<le> call_amount c \<Longrightarrow> battery_reach b0 (fst (run_battery b cs))"
proof (induction cs arbitrary: b)
  case Nil
  then show ?case by simp
next
  case (Cons c cs)
  have "battery_reach b0 (fst (battery_step b c))" using Cons.prems by (simp add: battery_reach.step)
  then show ?case unfolding run_battery_Cons_fst using Cons.IH Cons.prems(2) by simp
qed

lemma battery_reach_shape:
  "battery_reach b0 b \<Longrightarrow> battery_inv b0 \<Longrightarrow> b = b0\<lparr>current_kWh := current_kWh b\<rparr> \<and> battery_inv b"
proof (induction rule: battery_reach.induct)
  case (refl b0)
  then show ?case by simp
next
  case (step b0 b c)
  then have b: "b = b0\<lparr>current_kWh := current_kWh b\<rparr>" and i: "battery_inv b" by simp_all
  have "fst (battery_step b c) = b\<lparr>current_kWh := current_kWh (fst (battery_step b c))\<rparr>"
    by (rule battery_step_only_current)
  also have "\<dots> = b0\<lparr>current_kWh := current_kWh (fst (battery_step b c))\<rparr>"
    by (subst b) simp
  finally show ?case using battery_step_inv [OF i step.hyps(2)] by simp
qed

subsection \<open>The battery invariant\<close>

text \<open>C2 Every battery reached from a well-formed battery by charge and discharge calls
  with non-negative requests keeps its charge within \<open>[0, capacity]\<close> (and its
  capacity positive and its limits non-negative).\<close>

theorem battery_reach_inv:
  assumes "battery_reach b0 b" and "battery_inv b0"
  shows "battery_inv b"
  using assms by (induction rule: battery_reach.induct) (auto intro: battery_step_inv)

theorem battery_reach_inv_witness:
  "battery_inv (fst (battery_step (default_battery :: real battery) (Charge 500)))"
proof -
  have r: "battery_reach (default_battery :: real battery)
             (fst (battery_step default_battery (Charge 500)))"
    by (rule battery_reach.step [OF battery_reach.refl]) simp
  show ?thesis by (rule battery_reach_inv [OF r default_battery_inv])
qed

text \<open>C25 \<open>charge\<close> on a well-formed battery with a non-negative request returns an
  amount between 0 and the request and at most the charge limit, adds exactly that
  amount to the charge, never overfills, and saturates: either the request is granted
  in full, or the charge limit is used up, or the battery is full.\<close>

theorem charge_saturates:
  assumes "battery_inv b" and "0 \<le> a"
  shows "case charge b a of (b', x) \<Rightarrow>
           0 \<le> x \<and> x \<le> a \<and> x \<le> charge_kWh b \<and> current_kWh b' = current_kWh b + x \<and>
           current_kWh b' \<le> capacity_kWh b \<and>
           (x = a \<or> x = charge_kWh b \<or> current_kWh b' = capacity_kWh b)"
  using assms by (auto simp: prod.case_eq_if battery_inv_def max_charge_def min_def)

theorem charge_saturates_witness:
  "battery_inv (default_battery :: real battery) \<and> (0::real) \<le> 500 \<and>
   (case charge (default_battery :: real battery) 500 of (b', x) \<Rightarrow>
      0 \<le> x \<and> x \<le> 500 \<and> x \<le> 200 \<and> current_kWh b' = 0 + x \<and> current_kWh b' \<le> 1000 \<and>
      (x = 500 \<or> x = 200 \<or> current_kWh b' = 1000))"
  using charge_saturates [OF default_battery_inv, of "500 :: real"] by simp

text \<open>C26 \<open>discharge\<close> on a well-formed battery with a non-negative request returns an
  amount between 0 and the request and at most the discharge limit, removes exactly that
  amount, never drives the charge below zero, and saturates: the request is granted in
  full, or the discharge limit is used up, or the battery is empty.\<close>

theorem discharge_saturates:
  assumes "battery_inv b" and "0 \<le> a"
  shows "case discharge b a of (b', x) \<Rightarrow>
           0 \<le> x \<and> x \<le> a \<and> x \<le> discharge_kWh b \<and> current_kWh b' = current_kWh b - x \<and>
           0 \<le> current_kWh b' \<and> (x = a \<or> x = discharge_kWh b \<or> current_kWh b' = 0)"
  using assms by (auto simp: prod.case_eq_if battery_inv_def max_discharge_def min_def)

theorem discharge_saturates_witness:
  "battery_inv ((default_battery :: real battery)\<lparr>current_kWh := 150\<rparr>) \<and> (0::real) \<le> 500 \<and>
   (case discharge ((default_battery :: real battery)\<lparr>current_kWh := 150\<rparr>) 500 of (b', x) \<Rightarrow>
      0 \<le> x \<and> x \<le> 500 \<and> x \<le> 200 \<and> current_kWh b' = 150 - x \<and> 0 \<le> current_kWh b' \<and>
      (x = 500 \<or> x = 200 \<or> current_kWh b' = 0))"
proof -
  have i: "battery_inv ((default_battery :: real battery)\<lparr>current_kWh := 150\<rparr>)"
    by (simp add: battery_inv_def)
  show ?thesis using discharge_saturates [OF i, of 500] i by simp
qed

text \<open>C27 On a well-formed battery \<open>SoC\<close> raises no exception and returns a value in
  \<open>[0, 1]\<close>, equal to 1 exactly when the battery is full and to 0 exactly when it
  is empty.\<close>

theorem SoC_bounds:
  assumes "battery_inv b"
  shows "\<exists>s. SoC b = Inr s \<and> 0 \<le> s \<and> s \<le> 1 \<and>
           (s = 1 \<longleftrightarrow> current_kWh b = capacity_kWh b) \<and> (s = 0 \<longleftrightarrow> current_kWh b = 0)"
  using assms by (auto simp: SoC_def battery_inv_def divide_le_eq_1)

theorem SoC_bounds_witness:
  "battery_inv (default_battery :: real battery) \<and>
   (\<exists>s. SoC (default_battery :: real battery) = Inr s \<and> 0 \<le> s \<and> s \<le> 1 \<and>
      (s = 1 \<longleftrightarrow> (0::real) = 1000) \<and> (s = 0 \<longleftrightarrow> (0::real) = 0))"
  using SoC_bounds [OF default_battery_inv] by simp

text \<open>C28 Charging and then discharging the amount actually charged restores the previous
  charge exactly when that amount is within the discharge limit; when the charge limit
  exceeds the discharge limit the round trip can leave charge behind.\<close>

theorem charge_discharge_roundtrip:
  assumes "battery_inv b" and "0 \<le> a"
  shows "case charge b a of (b', x) \<Rightarrow>
           (current_kWh (fst (discharge b' x)) = current_kWh b \<longleftrightarrow> x \<le> discharge_kWh b)"
proof -
  have x: "0 \<le> snd (charge b a)" using charge_actual_bounds [OF assms] by simp
  show ?thesis
    using assms(1) x by (auto simp: prod.case_eq_if max_discharge_def battery_inv_def min_def)
qed

theorem charge_discharge_roundtrip_witness:
  "battery_inv (Battery 1000 200 100 (0::real)) \<and> (0::real) \<le> 200 \<and>
   (case charge (Battery 1000 200 100 (0::real)) 200 of (b', x) \<Rightarrow>
      (current_kWh (fst (discharge b' x)) = 0 \<longleftrightarrow> x \<le> 100)) \<and>
   current_kWh (fst (discharge (fst (charge (Battery 1000 200 100 (0::real)) 200)) 200)) = 100"
proof -
  have i: "battery_inv (Battery 1000 200 100 (0::real))" by (simp add: battery_inv_def Battery_def)
  show ?thesis using charge_discharge_roundtrip [OF i, of 200] i by (simp add: battery_simps)
qed

text \<open>C29 Negative requests are not rejected (the specification requires \<open>amount \<ge> 0\<close>):
  on a well-formed battery a negative request is carried out in full, so \<open>charge(a)\<close>
  lowers the charge by \<open>|a|\<close> and \<open>discharge(a)\<close> raises it by \<open>|a|\<close>; the battery stays
  well-formed exactly when the charge does not fall below 0, respectively rise above the
  capacity.\<close>

theorem negative_requests:
  fixes b :: "'a::linordered_field battery"
  assumes "battery_inv b" and "a < 0"
  shows "charge b a = (b\<lparr>current_kWh := current_kWh b + a\<rparr>, a) \<and>
         discharge b a = (b\<lparr>current_kWh := current_kWh b - a\<rparr>, a) \<and>
         (battery_inv (fst (charge b a)) \<longleftrightarrow> - a \<le> current_kWh b) \<and>
         (battery_inv (fst (discharge b a)) \<longleftrightarrow> current_kWh b - a \<le> capacity_kWh b)"
proof -
  have "min a (max_charge b) = a" and "min a (max_discharge b) = a"
    using assms by (auto simp: battery_inv_def max_charge_def max_discharge_def)
  then show ?thesis
    using assms by (auto simp: charge_def discharge_def battery_inv_def)
qed

theorem negative_requests_witness:
  "battery_inv (default_battery :: real battery) \<and> (-5::real) < 0 \<and>
   snd (charge (default_battery :: real battery) (-5)) = -5 \<and>
   \<not> battery_inv (fst (charge (default_battery :: real battery) (-5)))"
proof -
  have h: "battery_inv (default_battery :: real battery)" "(-5::real) < 0" by simp_all
  show ?thesis using negative_requests [OF h] h by (simp add: battery_inv_def)
qed

text \<open>C30 A full battery accepts no charge and an empty battery delivers none.\<close>

theorem headroom_boundaries:
  assumes "battery_inv b"
  shows "(current_kWh b = capacity_kWh b \<longrightarrow> max_charge b = 0) \<and>
         (current_kWh b = 0 \<longrightarrow> max_discharge b = 0)"
  using assms by (simp add: battery_inv_def max_charge_def max_discharge_def)

theorem headroom_boundaries_witness:
  "battery_inv (Battery 1000 200 200 (1000::real)) \<and> max_charge (Battery 1000 200 200 (1000::real)) = 0 \<and>
   battery_inv (Battery 1000 200 200 (0::real)) \<and> max_discharge (Battery 1000 200 200 (0::real)) = 0"
proof -
  have f: "battery_inv (Battery 1000 200 200 (1000::real))" and e: "battery_inv (Battery 1000 200 200 (0::real))"
    by (simp_all add: battery_inv_def Battery_def)
  show ?thesis using headroom_boundaries [OF f] headroom_boundaries [OF e] f e by (simp add: Battery_def)
qed

subsection \<open>Progress of repeated calls\<close>

text \<open>C7 Repeating \<open>charge(a)\<close> with a positive request on a well-formed battery with a
  positive charge limit fills it: after \<open>\<lceil>(capacity - current) / min(a, charge_kWh)\<rceil>\<close>
  calls the charge equals the capacity, and after any smaller number of calls it is still
  below the capacity.\<close>

theorem charge_reaches_full:
  fixes b :: "'a::floor_ceiling battery"
  assumes "battery_inv b" and "0 < a" and "0 < charge_kWh b"
  shows "current_kWh (fst (run_battery b (replicate (nat \<lceil>(capacity_kWh b - current_kWh b) / min a (charge_kWh b)\<rceil>) (Charge a)))) =
           capacity_kWh b \<and>
         (\<forall>k < nat \<lceil>(capacity_kWh b - current_kWh b) / min a (charge_kWh b)\<rceil>.
            current_kWh (fst (run_battery b (replicate k (Charge a)))) < capacity_kWh b)"
proof -
  have x: "0 \<le> capacity_kWh b - current_kWh b" and r: "0 < min a (charge_kWh b)"
    using assms by (simp_all add: battery_inv_def)
  show ?thesis
    using ceiling_steps [OF x r] run_charges [OF assms(1) less_imp_le [OF assms(2)]]
    by (auto simp: min_def algebra_simps)
qed

theorem charge_reaches_full_witness:
  "battery_inv (default_battery :: real battery) \<and> (0::real) < 500 \<and> (0::real) < 200 \<and>
   current_kWh (fst (run_battery (default_battery :: real battery) (replicate 5 (Charge 500)))) = 1000 \<and>
   current_kWh (fst (run_battery (default_battery :: real battery) (replicate 4 (Charge 500)))) < 1000"
proof -
  have n: "nat \<lceil>((1000::real) - 0) / min 500 200\<rceil> = 5" by simp
  show ?thesis using charge_reaches_full [OF default_battery_inv, of "500 :: real"] n by simp
qed

text \<open>C8 Repeating \<open>discharge(a)\<close> with a positive request on a well-formed battery
  with a positive discharge limit empties it: after \<open>\<lceil>current / min(a, discharge_kWh)\<rceil>\<close>
  calls the charge is 0, and after any smaller number of calls it is still positive.\<close>

theorem discharge_reaches_empty:
  fixes b :: "'a::floor_ceiling battery"
  assumes "battery_inv b" and "0 < a" and "0 < discharge_kWh b"
  shows "current_kWh (fst (run_battery b (replicate (nat \<lceil>current_kWh b / min a (discharge_kWh b)\<rceil>) (Discharge a)))) = 0 \<and>
         (\<forall>k < nat \<lceil>current_kWh b / min a (discharge_kWh b)\<rceil>.
            0 < current_kWh (fst (run_battery b (replicate k (Discharge a)))))"
proof -
  have x: "0 \<le> current_kWh b" and r: "0 < min a (discharge_kWh b)"
    using assms by (simp_all add: battery_inv_def)
  show ?thesis
    using ceiling_steps [OF x r] run_discharges [OF assms(1) less_imp_le [OF assms(2)]]
    by (auto simp: max_def algebra_simps)
qed

theorem discharge_reaches_empty_witness:
  "battery_inv (Battery 1000 200 200 (450::real)) \<and> (0::real) < 100 \<and> (0::real) < 200 \<and>
   current_kWh (fst (run_battery (Battery 1000 200 200 (450::real)) (replicate 5 (Discharge 100)))) = 0 \<and>
   0 < current_kWh (fst (run_battery (Battery 1000 200 200 (450::real)) (replicate 4 (Discharge 100))))"
proof -
  have i: "battery_inv (Battery 1000 200 200 (450::real))" by (simp add: battery_inv_def Battery_def)
  have n: "nat \<lceil>(450::real) / min 100 200\<rceil> = 5" by simp
  show ?thesis using discharge_reaches_empty [OF i, of "100 :: real"] n i by (simp add: Battery_def)
qed

subsection \<open>Accounting over interleaved calls\<close>

text \<open>C11 For any battery and any interleaving of charge and discharge calls, one amount is
  returned per call and the charge changes by exactly the sum of the returned amounts,
  counted positive for charges and negative for discharges: the returned values account
  for every change of the state.\<close>

theorem run_battery_accounting:
  "current_kWh (fst (run_battery b cs)) =
     current_kWh b + sum_list (map2 signed_amount cs (snd (run_battery b cs))) \<and>
   length (snd (run_battery b cs)) = length cs"
proof (induction cs arbitrary: b)
  case Nil
  then show ?case by simp
next
  case (Cons c cs)
  have "current_kWh (fst (battery_step b c)) = current_kWh b + signed_amount c (snd (battery_step b c))"
    by (cases c) simp_all
  then show ?case using Cons.IH [of "fst (battery_step b c)"]
    by (simp add: Let_def prod.case_eq_if)
qed

subsection \<open>The reachable states\<close>

text \<open>C15 The invariant is exact: from a well-formed battery with positive charge and discharge
  limits, calls with non-negative requests reach exactly the batteries that differ from it
  only in their charge, with every charge in \<open>[0, capacity]\<close> reachable and no other.\<close>

theorem battery_reach_exact:
  fixes b0 :: "'a::floor_ceiling battery"
  assumes "battery_inv b0" and "0 < charge_kWh b0" and "0 < discharge_kWh b0"
  shows "battery_reach b0 b \<longleftrightarrow>
           b = b0\<lparr>current_kWh := current_kWh b\<rparr> \<and> 0 \<le> current_kWh b \<and> current_kWh b \<le> capacity_kWh b0"
proof
  assume "battery_reach b0 b"
  then have s: "b = b0\<lparr>current_kWh := current_kWh b\<rparr>" and i: "battery_inv b"
    using battery_reach_shape assms(1) by blast+
  have "capacity_kWh b = capacity_kWh (b0\<lparr>current_kWh := current_kWh b\<rparr>)"
    using s by (rule arg_cong)
  then have "capacity_kWh b = capacity_kWh b0" by simp
  then show "b = b0\<lparr>current_kWh := current_kWh b\<rparr> \<and> 0 \<le> current_kWh b \<and> current_kWh b \<le> capacity_kWh b0"
    using s i by (simp add: battery_inv_def)
next
  assume b: "b = b0\<lparr>current_kWh := current_kWh b\<rparr> \<and> 0 \<le> current_kWh b \<and> current_kWh b \<le> capacity_kWh b0"
  let ?new = "current_kWh b" and ?old = "current_kWh b0"
  have inv0: "0 \<le> ?old" "?old \<le> capacity_kWh b0" "0 \<le> charge_kWh b0" "0 \<le> discharge_kWh b0"
    using assms(1) by (simp_all add: battery_inv_def)
  consider (same) "?new = ?old" | (up) "?old < ?new" | (down) "?new < ?old" by linarith
  then show "battery_reach b0 b"
  proof cases
    case same
    have "b = b0\<lparr>current_kWh := current_kWh b\<rparr>" using b by (rule conjunct1)
    also have "\<dots> = b0\<lparr>current_kWh := current_kWh b0\<rparr>"
      using same by (rule arg_cong [where f = "\<lambda>x. b0\<lparr>current_kWh := x\<rparr>"])
    also have "\<dots> = b0" by (cases b0) simp
    finally have "b = b0" .
    then show ?thesis by (simp add: battery_reach.refl)
  next
    case up
    obtain n r where r: "0 < r" "r \<le> charge_kWh b0" "of_nat n * r = ?new - ?old"
      using exact_steps [of "?new - ?old" "charge_kWh b0"] up assms(2) by auto
    let ?b = "fst (run_battery b0 (replicate n (Charge r)))"
    have "current_kWh ?b = min (capacity_kWh b0) (?old + of_nat n * min r (charge_kWh b0))"
      using run_charges [OF assms(1), of r n] r(1) by simp
    then have "current_kWh ?b = ?new" using r b by (simp add: min_def)
    then have "?b = b" using run_battery_only_current [of b0 "replicate n (Charge r)"] b by simp
    moreover have "battery_reach b0 ?b"
      by (rule battery_reach_run [OF battery_reach.refl]) (use r(1) in simp)
    ultimately show ?thesis by simp
  next
    case down
    obtain n r where r: "0 < r" "r \<le> discharge_kWh b0" "of_nat n * r = ?old - ?new"
      using exact_steps [of "?old - ?new" "discharge_kWh b0"] down assms(3) by auto
    let ?b = "fst (run_battery b0 (replicate n (Discharge r)))"
    have "current_kWh ?b = max 0 (?old - of_nat n * min r (discharge_kWh b0))"
      using run_discharges [OF assms(1), of r n] r(1) by simp
    then have "current_kWh ?b = ?new" using r b by (simp add: max_def min_def)
    then have "?b = b" using run_battery_only_current [of b0 "replicate n (Discharge r)"] b by simp
    moreover have "battery_reach b0 ?b"
      by (rule battery_reach_run [OF battery_reach.refl]) (use r(1) in simp)
    ultimately show ?thesis by simp
  qed
qed

theorem battery_reach_exact_witness:
  "battery_inv (default_battery :: real battery) \<and> 0 < charge_kWh (default_battery :: real battery) \<and>
   0 < discharge_kWh (default_battery :: real battery) \<and>
   battery_reach (default_battery :: real battery) (default_battery\<lparr>current_kWh := 350\<rparr>) \<and>
   \<not> battery_reach (default_battery :: real battery) (default_battery\<lparr>current_kWh := 1001\<rparr>)"
  using battery_reach_exact [OF default_battery_inv, of "default_battery\<lparr>current_kWh := 350\<rparr>"]
    battery_reach_exact [OF default_battery_inv, of "default_battery\<lparr>current_kWh := 1001\<rparr>"]
  by simp

text \<open>C12 A sequence of non-negative requests to a well-formed battery: the charge it accepts
  in total is the sum of the requests, each clipped to the charging power, capped by the
  free capacity; the energy a sequence of discharges delivers is the sum of the requests,
  each clipped to the discharging power, capped by the stored charge.\<close>

theorem run_battery_request_sequence:
  fixes b :: "'a::linordered_field battery"
  assumes "battery_inv b" and "\<forall>a\<in>set as. 0 \<le> a"
  shows "sum_list (snd (run_battery b (map Charge as))) =
           min (capacity_kWh b - current_kWh b) (sum_list (map (\<lambda>a. min a (charge_kWh b)) as)) \<and>
         sum_list (snd (run_battery b (map Discharge as))) =
           min (current_kWh b) (sum_list (map (\<lambda>a. min a (discharge_kWh b)) as))"
proof -
  have "min (capacity_kWh b) (current_kWh b + x) - current_kWh b = min (capacity_kWh b - current_kWh b) x"
    and "current_kWh b - max 0 (current_kWh b - x) = min (current_kWh b) x" for x :: 'a
    by (auto simp: min_def max_def)
  then show ?thesis
    using run_charge_list [OF assms] run_discharge_list [OF assms] by simp
qed

theorem run_battery_request_sequence_witness:
  "sum_list (snd (run_battery (Battery 1000 200 200 500) (map Charge [300, 100]))) = (300::real) \<and>
   sum_list (snd (run_battery (Battery 1000 200 200 500) (map Discharge [300, 100]))) = (300::real) \<and>
   sum_list (snd (run_battery (Battery 1000 200 200 900) (map Charge [300, 100]))) = (100::real)"
proof -
  have i5: "battery_inv (Battery 1000 200 200 (500::real))" and i9: "battery_inv (Battery 1000 200 200 (900::real))"
    by (simp_all add: battery_inv_def Battery_def)
  have p: "\<forall>a\<in>set [300, 100::real]. 0 \<le> a" by simp
  note t5 = run_battery_request_sequence [OF i5 p] and t9 = run_battery_request_sequence [OF i9 p]
  have e: "min (capacity_kWh (Battery 1000 200 200 (500::real)) - current_kWh (Battery 1000 200 200 (500::real)))
             (sum_list (map (\<lambda>a. min a (charge_kWh (Battery 1000 200 200 (500::real)))) [300, 100])) = 300"
    "min (current_kWh (Battery 1000 200 200 (500::real)))
             (sum_list (map (\<lambda>a. min a (discharge_kWh (Battery 1000 200 200 (500::real)))) [300, 100])) = 300"
    "min (capacity_kWh (Battery 1000 200 200 (900::real)) - current_kWh (Battery 1000 200 200 (900::real)))
             (sum_list (map (\<lambda>a. min a (charge_kWh (Battery 1000 200 200 (900::real)))) [300, 100])) = 100"
    by (simp_all add: Battery_def)
  show ?thesis by (simp only: conjunct1 [OF t5] conjunct2 [OF t5] conjunct1 [OF t9] e simp_thms)
qed

text \<open>C13 Round trip over any sequence: on a well-formed battery whose charging and discharging
  powers are equal, taking back every realized amount by the opposite call, in reverse order,
  restores the battery exactly, and each undo call realizes the full amount it takes back.\<close>

theorem run_battery_undo:
  assumes "battery_inv b" and "charge_kWh b = discharge_kWh b" and "\<forall>c\<in>set cs. 0 \<le> call_amount c"
  shows "run_battery (fst (run_battery b cs)) (undo_calls cs (snd (run_battery b cs))) =
           (b, rev (snd (run_battery b cs)))"
  using assms
proof (induction cs arbitrary: b)
  case Nil
  then show ?case by (simp add: undo_calls_def)
next
  case (Cons c cs)
  define b' where "b' = fst (battery_step b c)"
  define x where "x = snd (battery_step b c)"
  have s: "battery_step b c = (b', x)" by (simp add: b'_def x_def)
  obtain b'' xs where r: "run_battery b' cs = (b'', xs)" by fastforce
  have i: "battery_inv b'" unfolding b'_def using Cons.prems(1,3) by (simp add: battery_step_inv)
  have e: "charge_kWh b' = discharge_kWh b'" unfolding b'_def using Cons.prems(2) by (cases c) simp_all
  have ih: "run_battery b'' (undo_calls cs xs) = (b', rev xs)"
    using Cons.IH [OF i e] Cons.prems(3) r by simp
  have u: "battery_step b' (undo_call c x) = (b, x)"
    using battery_step_undo [OF Cons.prems(1,2), of c] Cons.prems(3) unfolding b'_def x_def by simp
  have len: "length xs = length cs" using run_battery_length [of b' cs] r by simp
  have "undo_calls (c # cs) (x # xs) = undo_calls cs xs @ [undo_call c x]"
    by (simp add: undo_calls_def)
  then show ?case using s r ih u by (simp add: run_battery_append)
qed

theorem run_battery_undo_witness:
  "run_battery (fst (run_battery default_battery [Charge 500, Discharge 50, Charge (900::real)]))
     (undo_calls [Charge 500, Discharge 50, Charge 900] (snd (run_battery default_battery [Charge 500, Discharge 50, Charge (900::real)]))) =
   (default_battery, rev (snd (run_battery default_battery [Charge 500, Discharge 50, Charge (900::real)]))) \<and>
   snd (run_battery default_battery [Charge 500, Discharge 50, Charge (900::real)]) = [200, 50, 200]"
proof -
  have h: "battery_inv (default_battery :: real battery)"
    "charge_kWh (default_battery :: real battery) = discharge_kWh default_battery"
    "\<forall>c\<in>set [Charge 500, Discharge 50, Charge (900::real)]. 0 \<le> call_amount c"
    by simp_all
  have "snd (run_battery default_battery [Charge 500, Discharge 50, Charge (900::real)]) = [200, 50, 200]"
    by (simp add: battery_simps)
  with run_battery_undo [OF h] show ?thesis by (intro conjI)
qed

end
