(* ===== verification/Calendar.thy ===== *)
theory Calendar
  imports Prelude
begin

text \<open>
  The parts of Python's \<open>datetime\<close> (and of pandas' date fields) that the profile code
  relies on: proleptic Gregorian dates compared as \<open>(year, month, day)\<close> tuples, the
  ordinal of a date (\<open>date.toordinal\<close>), the ISO weekday, the day of the year, and the
  addition of one day with its \<open>OverflowError\<close> at \<open>date.max\<close>. These are library code,
  modelled from CPython's pure-Python \<open>datetime\<close> implementation.
\<close>

datatype date = Date (year: nat) (month: nat) (day: nat)

text \<open>Python compares dates as \<open>(year, month, day)\<close> tuples.\<close>

instantiation date :: linorder
begin

definition less_eq_date :: "date \<Rightarrow> date \<Rightarrow> bool" where
  "less_eq_date a b \<longleftrightarrow>
     year a < year b \<or> year a = year b \<and>
       (month a < month b \<or> month a = month b \<and> day a \<le> day b)"

definition less_date :: "date \<Rightarrow> date \<Rightarrow> bool" where
  "less_date a b \<longleftrightarrow> a \<le> b \<and> \<not> b \<le> a"

instance
proof
  fix a b c :: date
  show "a < b \<longleftrightarrow> a \<le> b \<and> \<not> b \<le> a" by (simp add: less_date_def)
  show "a \<le> a" by (simp add: less_eq_date_def)
  show "a \<le> b \<Longrightarrow> b \<le> c \<Longrightarrow> a \<le> c" by (auto simp: less_eq_date_def)
  show "a \<le> b \<Longrightarrow> b \<le> a \<Longrightarrow> a = b" by (cases a; cases b) (auto simp: less_eq_date_def)
  show "a \<le> b \<or> b \<le> a" by (auto simp: less_eq_date_def)
qed

end

subsection \<open>Calendar arithmetic of \<open>datetime\<close>\<close>

definition MINYEAR :: nat where "MINYEAR = 1"
definition MAXYEAR :: nat where "MAXYEAR = 9999"

text \<open>\<open>_is_leap\<close>: the Gregorian leap-year rule.\<close>

definition is_leap :: "nat \<Rightarrow> bool" where
  "is_leap y \<longleftrightarrow> y mod 4 = 0 \<and> (y mod 100 \<noteq> 0 \<or> y mod 400 = 0)"

text \<open>\<open>_days_in_month\<close> (the month is asserted to be in \<open>1..12\<close>).\<close>

definition days_in_month :: "nat \<Rightarrow> nat \<Rightarrow> nat" where
  "days_in_month y m =
     (if m = 2 \<and> is_leap y then 29
      else [0, 31, 28, 31, 30, 31, 30, 31, 31, 30, 31, 30, 31] ! m)"

text \<open>\<open>_days_before_month\<close>: days in the year before the first of the month.\<close>

definition days_before_month :: "nat \<Rightarrow> nat \<Rightarrow> nat" where
  "days_before_month y m =
     [0, 0, 31, 59, 90, 120, 151, 181, 212, 243, 273, 304, 334] ! m
     + (if 2 < m \<and> is_leap y then 1 else 0)"

text \<open>\<open>_days_before_year\<close>: days before the first of January of the year.\<close>

definition days_before_year :: "nat \<Rightarrow> int" where
  "days_before_year yr =
     (let y = int yr - 1 in y * 365 + y div 4 - y div 100 + y div 400)"

text \<open>\<open>date.toordinal\<close> (\<open>_ymd2ord\<close>): 1 January of year 1 has ordinal 1.\<close>

definition toordinal :: "date \<Rightarrow> int" where
  "toordinal d = days_before_year (year d) + int (days_before_month (year d) (month d)) + int (day d)"

text \<open>\<open>_check_date_fields\<close>: the dates the constructor accepts (others raise ValueError).\<close>

definition valid_date :: "date \<Rightarrow> bool" where
  "valid_date d \<longleftrightarrow>
     MINYEAR \<le> year d \<and> year d \<le> MAXYEAR \<and> 1 \<le> month d \<and> month d \<le> 12 \<and>
     1 \<le> day d \<and> day d \<le> days_in_month (year d) (month d)"

text \<open>\<open>date.isoweekday\<close>: \<open>self.toordinal() % 7 or 7\<close> (Monday is 1, Sunday 7).\<close>

definition isoweekday :: "date \<Rightarrow> int" where
  "isoweekday d = (let r = toordinal d mod 7 in if r = 0 then 7 else r)"

text \<open>\<open>Timestamp.dayofyear\<close> / \<open>timetuple().tm_yday\<close>.\<close>

definition dayofyear :: "date \<Rightarrow> nat" where
  "dayofyear d = days_before_month (year d) (month d) + day d"

text \<open>
  The calendar successor of a date. Python computes \<open>date + timedelta(days=1)\<close> as
  \<open>fromordinal(toordinal() + 1)\<close>; the lemma \<open>toordinal_succ_date\<close> below shows
  that this is the date whose ordinal is one more.
\<close>

definition succ_date :: "date \<Rightarrow> date" where
  "succ_date d =
     (if day d < days_in_month (year d) (month d) then Date (year d) (month d) (Suc (day d))
      else if month d < 12 then Date (year d) (Suc (month d)) 1
      else Date (Suc (year d)) 1 1)"

definition MAXORDINAL :: int where "MAXORDINAL = 3652059"

declare MINYEAR_def [calendar_simps] MAXYEAR_def [calendar_simps] is_leap_def [calendar_simps]
  days_in_month_def [calendar_simps] days_before_month_def [calendar_simps]
  days_before_year_def [calendar_simps] toordinal_def [calendar_simps]
  valid_date_def [calendar_simps] isoweekday_def [calendar_simps] dayofyear_def [calendar_simps]
  succ_date_def [calendar_simps] MAXORDINAL_def [calendar_simps]

subsection \<open>Arithmetic of the calendar\<close>

lemma Date_le_iff [simp, calendar_simps]:
  "Date y1 m1 d1 \<le> Date y2 m2 d2 \<longleftrightarrow>
     y1 < y2 \<or> y1 = y2 \<and> (m1 < m2 \<or> m1 = m2 \<and> d1 \<le> d2)"
  by (simp add: less_eq_date_def)

lemma Date_less_iff [simp, calendar_simps]:
  "Date y1 m1 d1 < Date y2 m2 d2 \<longleftrightarrow>
     y1 < y2 \<or> y1 = y2 \<and> (m1 < m2 \<or> m1 = m2 \<and> d1 < d2)"
  by (auto simp: less_date_def less_eq_date_def)

lemma mod_400_imp:
  fixes x :: nat
  shows "x mod 400 = 0 \<Longrightarrow> x mod 100 = 0" and "x mod 100 = 0 \<Longrightarrow> x mod 4 = 0"
  by (auto elim!: dvdE simp flip: dvd_eq_mod_eq_0)

lemma days_before_year_Suc:
  assumes "1 \<le> y"
  shows "days_before_year (Suc y) = days_before_year y + 365 + (if is_leap y then 1 else 0)"
proof -
  obtain n where y: "y = Suc n" using assms by (cases y) auto
  have i: "\<And>k. int (Suc n) div int k = int (Suc n div k)" "\<And>k. int n div int k = int (n div k)"
    by (simp_all add: zdiv_int)
  have "days_before_year (Suc y) = int (Suc n) * 365 + int (Suc n) div 4 - int (Suc n) div 100 + int (Suc n) div 400"
    by (simp add: days_before_year_def y Let_def)
  moreover have "days_before_year y = int n * 365 + int n div 4 - int n div 100 + int n div 400"
    by (simp add: days_before_year_def y Let_def)
  ultimately show ?thesis
    using i[of 4] i[of 100] i[of 400] mod_400_imp[of "Suc n"]
    by (simp add: y is_leap_def div_Suc)
qed

lemma month_cases_12:
  fixes m :: nat
  shows "1 \<le> m \<Longrightarrow> m \<le> 12 \<Longrightarrow>
     m = 1 \<or> m = 2 \<or> m = 3 \<or> m = 4 \<or> m = 5 \<or> m = 6 \<or> m = 7 \<or> m = 8 \<or> m = 9 \<or> m = 10 \<or> m = 11 \<or> m = 12"
  by presburger

lemma days_in_month_Jan_Dec [simp]:
  "days_in_month y (Suc 0) = 31" "days_in_month y 12 = 31"
  by (simp_all add: days_in_month_def)

lemma days_before_month_Suc:
  "1 \<le> m \<Longrightarrow> m < 12 \<Longrightarrow>
     days_before_month y (Suc m) = days_before_month y m + days_in_month y m"
  using month_cases_12[of m] by (auto simp: days_before_month_def days_in_month_def)

lemma days_before_month_12: "days_before_month y 12 + 31 = 365 + (if is_leap y then 1 else 0)"
  by (simp add: days_before_month_def)

lemma valid_date_succ:
  assumes "valid_date d" and "d \<noteq> Date MAXYEAR 12 31"
  shows "valid_date (succ_date d)"
proof -
  obtain y m dd where d: "d = Date y m dd" by (cases d)
  have dim: "1 \<le> m \<Longrightarrow> m \<le> 12 \<Longrightarrow> 28 \<le> days_in_month y m" for m
    using month_cases_12[of m] by (auto simp: days_in_month_def)
  show ?thesis
    using assms dim[of m] dim[of "Suc m"] dim[of 1]
    by (auto simp: d valid_date_def succ_date_def MAXYEAR_def)
qed

lemma toordinal_succ_date:
  assumes "valid_date d"
  shows "toordinal (succ_date d) = toordinal d + 1"
proof -
  obtain y m dd where d: "d = Date y m dd" by (cases d)
  from assms have v: "1 \<le> y" "1 \<le> m" "m \<le> 12" "dd \<le> days_in_month y m"
    by (auto simp: d valid_date_def MINYEAR_def)
  show ?thesis
  proof (cases "dd < days_in_month y m")
    case True
    then show ?thesis by (simp add: d succ_date_def toordinal_def)
  next
    case last: False
    show ?thesis
    proof (cases "m < 12")
      case True
      with last v show ?thesis
        by (simp add: d succ_date_def toordinal_def days_before_month_Suc)
    next
      case False
      with v have "m = 12" by simp
      with last v have "dd = 31" by (simp add: days_in_month_def)
      with last v \<open>m = 12\<close> show ?thesis
        using days_before_month_12[of y]
        by (simp add: d succ_date_def toordinal_def days_before_year_Suc days_before_month_def)
    qed
  qed
qed

lemma isoweekday_succ_date:
  assumes "valid_date d"
  shows "isoweekday (succ_date d) = (if isoweekday d = 7 then 1 else isoweekday d + 1)"
proof -
  define r where "r = toordinal d mod 7"
  have r: "0 \<le> r" "r < 7" by (simp_all add: r_def)
  have next_r: "(r + 1) mod 7 = (if r = 6 then 0 else r + 1)"
    using r by (cases "r = 6") simp_all
  have "toordinal (succ_date d) mod 7 = (r + 1) mod 7"
    using toordinal_succ_date[OF assms] by (simp add: r_def mod_add_left_eq)
  with next_r r show ?thesis
    unfolding isoweekday_def Let_def r_def[symmetric] by auto
qed

lemma dayofyear_bounds:
  assumes "valid_date d"
  shows "1 \<le> dayofyear d \<and> dayofyear d \<le> 365 + (if is_leap (year d) then 1 else 0)"
proof -
  obtain y m dd where d: "d = Date y m dd" by (cases d)
  from assms have "1 \<le> m" "m \<le> 12" "1 \<le> dd" "dd \<le> days_in_month y m"
    by (auto simp: d valid_date_def)
  then show ?thesis
    using month_cases_12[of m]
    by (auto simp: d dayofyear_def days_before_month_def days_in_month_def)
qed

lemma days_before_year_mono:
  assumes "1 \<le> y1" and "y1 < y2"
  shows "days_before_year (Suc y1) \<le> days_before_year y2"
  using assms(2)
proof (induction y2)
  case 0
  then show ?case by simp
next
  case (Suc y)
  show ?case
  proof (cases "y1 = y")
    case True
    then show ?thesis by simp
  next
    case False
    with Suc.prems have "y1 < y" by simp
    with Suc.IH have "days_before_year (Suc y1) \<le> days_before_year y" by simp
    moreover have "days_before_year y \<le> days_before_year (Suc y)"
      using assms(1) \<open>y1 < y\<close> by (simp add: days_before_year_Suc)
    ultimately show ?thesis by simp
  qed
qed

lemma days_before_month_mono:
  assumes "1 \<le> m1" and "m1 < m2" and "m2 \<le> 12"
  shows "days_before_month y m1 + days_in_month y m1 \<le> days_before_month y m2"
  using assms(2,3)
proof (induction m2)
  case 0
  then show ?case by simp
next
  case (Suc k)
  have step: "days_before_month y (Suc k) = days_before_month y k + days_in_month y k"
    using assms(1) Suc.prems by (intro days_before_month_Suc) simp_all
  show ?case
  proof (cases "m1 = k")
    case True
    then show ?thesis using step by simp
  next
    case False
    with Suc.prems have "m1 < k" by simp
    with Suc.IH Suc.prems step show ?thesis by simp
  qed
qed

lemma toordinal_year_bounds:
  assumes "valid_date d"
  shows "days_before_year (year d) < toordinal d \<and> toordinal d \<le> days_before_year (Suc (year d))"
proof -
  have "toordinal d = days_before_year (year d) + int (dayofyear d)"
    by (simp add: toordinal_def dayofyear_def)
  moreover have "1 \<le> year d" using assms by (simp add: valid_date_def MINYEAR_def)
  ultimately show ?thesis
    using dayofyear_bounds [OF assms] by (auto simp: days_before_year_Suc)
qed

lemma toordinal_less:
  assumes "valid_date a" and "valid_date b" and "a < b"
  shows "toordinal a < toordinal b"
proof -
  obtain ya ma da where a: "a = Date ya ma da" by (cases a)
  obtain yb mb db where b: "b = Date yb mb db" by (cases b)
  have va: "1 \<le> ya" "1 \<le> ma" "ma \<le> 12" "da \<le> days_in_month ya ma"
    using assms(1) by (auto simp: a valid_date_def MINYEAR_def)
  have vb: "1 \<le> mb" "mb \<le> 12" "1 \<le> db"
    using assms(2) by (auto simp: b valid_date_def)
  consider (year) "ya < yb" | (month) "ya = yb" "ma < mb" | (day) "ya = yb" "ma = mb" "da < db"
    using assms(3) by (auto simp: a b)
  then show ?thesis
  proof cases
    case year
    have "toordinal a \<le> days_before_year (Suc ya)"
      using toordinal_year_bounds [OF assms(1)] by (simp add: a)
    also have "\<dots> \<le> days_before_year yb" using days_before_year_mono [OF va(1) year] .
    also have "\<dots> < toordinal b"
      using toordinal_year_bounds [OF assms(2)] by (simp add: b)
    finally show ?thesis .
  next
    case month
    have "days_before_month ya ma + days_in_month ya ma \<le> days_before_month ya mb"
      using days_before_month_mono [OF va(2) month(2) vb(2)] .
    with va(4) vb(3) month(1) show ?thesis by (simp add: a b toordinal_def)
  next
    case day
    then show ?thesis by (simp add: a b toordinal_def)
  qed
qed

lemma toordinal_less_iff:
  assumes "valid_date a" and "valid_date b"
  shows "a < b \<longleftrightarrow> toordinal a < toordinal b"
proof
  assume "a < b"
  then show "toordinal a < toordinal b" using toordinal_less assms by blast
next
  assume o: "toordinal a < toordinal b"
  show "a < b"
  proof (rule ccontr)
    assume "\<not> a < b"
    then have "b = a \<or> b < a" by auto
    then have "toordinal b \<le> toordinal a" using toordinal_less [OF assms(2,1)] by auto
    with o show False by simp
  qed
qed

lemma toordinal_inj:
  "valid_date a \<Longrightarrow> valid_date b \<Longrightarrow> toordinal a = toordinal b \<Longrightarrow> a = b"
  using toordinal_less_iff [of a b] toordinal_less_iff [of b a] by (metis less_irrefl linorder_neqE)

lemma toordinal_le_max:
  assumes "valid_date d"
  shows "toordinal d \<le> MAXORDINAL \<and> (toordinal d = MAXORDINAL \<longleftrightarrow> d = Date MAXYEAR 12 31)"
proof -
  have vm: "valid_date (Date MAXYEAR 12 31)" by (simp add: valid_date_def MAXYEAR_def MINYEAR_def)
  have om: "toordinal (Date MAXYEAR 12 31) = MAXORDINAL"
    by (simp add: toordinal_def days_before_year_def days_before_month_def MAXYEAR_def MAXORDINAL_def is_leap_def)
  have dim: "1 \<le> m \<Longrightarrow> m \<le> 12 \<Longrightarrow> days_in_month y m \<le> 31" for y m
    using month_cases_12 [of m] by (auto simp: days_in_month_def)
  have "d \<le> Date MAXYEAR 12 31"
    using assms dim[of "month d" "year d"] by (cases d) (auto simp: valid_date_def)
  then have "d = Date MAXYEAR 12 31 \<or> d < Date MAXYEAR 12 31" by auto
  then show ?thesis
    using toordinal_less [OF assms vm] om by auto
qed

lemma less_succ_date: "d < succ_date d"
  by (auto simp: succ_date_def less_date_def less_eq_date_def)

lemma succ_date_greater:
  assumes "valid_date d" and "d \<noteq> Date MAXYEAR 12 31"
  shows "d < succ_date d"
  using toordinal_less_iff [OF assms(1) valid_date_succ [OF assms]] toordinal_succ_date [OF assms(1)]
  by simp

lemma succ_date_le:
  assumes "valid_date s" and "valid_date d" and "s < d"
  shows "succ_date s \<le> d"
proof -
  have ne: "s \<noteq> Date MAXYEAR 12 31"
    using assms toordinal_le_max [of d] toordinal_le_max [of s] toordinal_less [OF assms] by auto
  have "toordinal (succ_date s) \<le> toordinal d"
    using toordinal_succ_date [OF assms(1)] toordinal_less [OF assms] by simp
  then show ?thesis
    using toordinal_less_iff [OF assms(2) valid_date_succ [OF assms(1) ne]] by (simp add: not_less [symmetric])
qed

lemma dayofyear_366:
  assumes "valid_date d"
  shows "1 \<le> int (dayofyear d) \<and> int (dayofyear d) \<le> 366"
  using dayofyear_bounds [OF assms] by (simp split: if_splits)

lemma funpow_succ_date:
  assumes "valid_date s" and "toordinal s + int k \<le> MAXORDINAL"
  shows "valid_date ((succ_date ^^ k) s) \<and> toordinal ((succ_date ^^ k) s) = toordinal s + int k"
  using assms
proof (induction k arbitrary: s)
  case 0
  then show ?case by simp
next
  case (Suc k)
  have ne: "s \<noteq> Date MAXYEAR 12 31"
    using toordinal_le_max [OF Suc.prems(1)] Suc.prems(2) by auto
  have "valid_date (succ_date s)" "toordinal (succ_date s) + int k \<le> MAXORDINAL"
    using valid_date_succ [OF Suc.prems(1) ne] toordinal_succ_date [OF Suc.prems(1)] Suc.prems(2) by simp_all
  then show ?case
    using Suc.IH toordinal_succ_date [OF Suc.prems(1)] by (simp add: funpow_swap1)
qed

end
