(* ===== verification/DayClassifier.thy ===== *)
theory DayClassifier
  imports Calendar
begin

text \<open>
  The classification of a day in \<open>load_profile_for_day\<close> (\<open>src/src/load_profiles.py\<close>,
  lines 65--83): the season by fixed calendar boundaries and the day type by the
  holiday calendar, the weekday and Christmas/New Year's Eve. The holiday calendar
  \<open>AT_HOLIDAYS\<close> is a parameter \<open>is_holiday\<close> (the test \<open>day in AT_HOLIDAYS\<close>).
  The day-type rule compares \<open>day.isoweekday\<close>, the bound method object itself, with an
  integer; Python's \<open>==\<close> between objects of different kinds is modelled by \<open>py_eq\<close>.
\<close>

datatype season = Winter | Sommer | Uebergangszeit

datatype weekday = Samstag | Sonntag | Werktag

text \<open>The two kinds of Python objects the d-type rule compares with \<open>==\<close>.\<close>

datatype pyobj = PyInt int | PyBoundMethod string date

fun py_eq :: "pyobj \<Rightarrow> pyobj \<Rightarrow> bool" where
  "py_eq (PyInt a) (PyInt b) \<longleftrightarrow> a = b"
| "py_eq (PyBoundMethod f x) (PyBoundMethod g y) \<longleftrightarrow> f = g \<and> x = y"
| "py_eq _ _ \<longleftrightarrow> False"

text \<open>Lines 65--74: the season, first matching rule wins.\<close>

definition season_of :: "date \<Rightarrow> season" where
  "season_of d =
     (if d \<le> Date (year d) 3 20 \<or> d \<ge> Date (year d) 11 1 then Winter
      else if d \<ge> Date (year d) 5 15 \<and> d \<le> Date (year d) 9 14 then Sommer
      else Uebergangszeit)"

text \<open>
  Lines 76--83: the day type, parameterised by the object \<open>wd\<close> that is compared
  with 7 and 6 (the source writes \<open>day.isoweekday\<close>, the specification means the
  value \<open>day.isoweekday()\<close>).
\<close>

definition day_type :: "(date \<Rightarrow> bool) \<Rightarrow> pyobj \<Rightarrow> date \<Rightarrow> weekday" where
  "day_type is_holiday wd d =
     (if is_holiday d \<or> py_eq wd (PyInt 7) then Sonntag
      else if py_eq wd (PyInt 6) \<or> d \<in> set [Date (year d) 12 24, Date (year d) 12 31]
      then Samstag
      else Werktag)"

text \<open>The day type as the source computes it: \<open>day.isoweekday == 7\<close>.\<close>

definition weekday_of :: "(date \<Rightarrow> bool) \<Rightarrow> date \<Rightarrow> weekday" where
  "weekday_of is_holiday d = day_type is_holiday (PyBoundMethod ''isoweekday'' d) d"

text \<open>The day type of the specification (section 4.1): the weekday value is compared.\<close>

definition weekday_spec :: "(date \<Rightarrow> bool) \<Rightarrow> date \<Rightarrow> weekday" where
  "weekday_spec is_holiday d = day_type is_holiday (PyInt (isoweekday d)) d"

subsection \<open>The season rule\<close>

text \<open>C4 The season depends only on month and day: Winter up to 20 March and from
  1 November, Sommer from 15 May to 14 September, Uebergangszeit otherwise, with the
  boundary days included as the specification states.\<close>

theorem season_of_calendar:
  assumes "valid_date (Date y m dd)"
  shows "season_of (Date y m dd) =
     (if m < 3 \<or> m = 3 \<and> dd \<le> 20 \<or> 11 \<le> m then Winter
      else if m = 5 \<and> 15 \<le> dd \<or> 6 \<le> m \<and> m \<le> 8 \<or> m = 9 \<and> dd \<le> 14 then Sommer
      else Uebergangszeit)"
  using assms by (auto simp: season_of_def valid_date_def)

theorem season_of_calendar_witness:
  "valid_date (Date 2015 3 20) \<and> season_of (Date 2015 3 20) = Winter \<and>
   valid_date (Date 2015 3 21) \<and> season_of (Date 2015 3 21) = Uebergangszeit \<and>
   valid_date (Date 2015 9 14) \<and> season_of (Date 2015 9 14) = Sommer \<and>
   valid_date (Date 2015 11 1) \<and> season_of (Date 2015 11 1) = Winter"
proof -
  have v: "valid_date (Date 2015 3 20)" "valid_date (Date 2015 3 21)"
    "valid_date (Date 2015 9 14)" "valid_date (Date 2015 11 1)"
    by (simp_all add: calendar_simps)
  show ?thesis
    using v season_of_calendar [OF v(1)] season_of_calendar [OF v(2)]
      season_of_calendar [OF v(3)] season_of_calendar [OF v(4)]
    by simp
qed

subsection \<open>The day-type rule\<close>

lemma py_eq_method_int [simp]: "\<not> py_eq (PyBoundMethod f x) (PyInt n)"
  by simp

text \<open>C3 As written, the day-type rule never recognises a weekday: a day is Sonntag
  exactly when it is a holiday, Samstag exactly when it is a non-holiday 24 or 31
  December, and Werktag otherwise, whatever its weekday.\<close>

theorem weekday_of_code:
  "weekday_of is_holiday d =
     (if is_holiday d then Sonntag
      else if month d = 12 \<and> (day d = 24 \<or> day d = 31) then Samstag
      else Werktag)"
  by (cases d) (auto simp: weekday_of_def day_type_def)

text \<open>C24 The source and the specification disagree exactly on the non-holiday Sundays and
  on the non-holiday Saturdays other than 24 and 31 December.\<close>

theorem weekday_of_vs_spec:
  "weekday_of is_holiday d \<noteq> weekday_spec is_holiday d \<longleftrightarrow>
     \<not> is_holiday d \<and>
     (isoweekday d = 7 \<or> isoweekday d = 6 \<and> \<not> (month d = 12 \<and> (day d = 24 \<or> day d = 31)))"
  by (cases d) (auto simp: weekday_of_def weekday_spec_def day_type_def)

theorem weekday_of_vs_spec_witness:
  "weekday_of (\<lambda>_. False) (Date 2015 1 4) = Werktag \<and> weekday_spec (\<lambda>_. False) (Date 2015 1 4) = Sonntag \<and>
   weekday_of (\<lambda>_. False) (Date 2017 12 24) = Samstag \<and> weekday_spec (\<lambda>_. False) (Date 2017 12 24) = Sonntag"
proof -
  have "weekday_of (\<lambda>_. False) (Date 2015 1 4) \<noteq> weekday_spec (\<lambda>_. False) (Date 2015 1 4)"
    using weekday_of_vs_spec [of "\<lambda>_. False" "Date 2015 1 4"] by (simp add: calendar_simps)
  moreover have "weekday_of (\<lambda>_. False) (Date 2017 12 24) \<noteq> weekday_spec (\<lambda>_. False) (Date 2017 12 24)"
    using weekday_of_vs_spec [of "\<lambda>_. False" "Date 2017 12 24"] by (simp add: calendar_simps)
  ultimately show ?thesis
    by (auto simp: weekday_of_def weekday_spec_def day_type_def calendar_simps)
qed

end
