(* ===== verification/ProfileTable.thy ===== *)
theory ProfileTable
  imports DayClassifier
begin

text \<open>
  The profile workbook of \<open>src/src/load_profiles.py\<close> as it is read: one sheet per
  profile type, parsed by \<open>get_profile_from_file\<close> into a table of columns, one per
  (season, day type). A pandas series is a list of (index, value) pairs; a profile table maps
  each column to the series indexed by time of day. This theory holds the table types, the
  reading of a sheet, the 96 quarter hours of a day and the well-formedness of a table,
  with the lemmas that \<open>get_profile_from_file\<close> keeps 96 rows and that well-formed tables
  supply a value for every quarter hour.
\<close>

datatype time = Time (hour: nat) (minute: nat)

datatype datetime = DateTime (dt_date: date) (dt_time: time)

type_synonym 'i series = "('i \<times> real) list"

text \<open>The sheet of one profile type: the column for each (season, day type).\<close>

type_synonym profile_table = "season \<times> weekday \<Rightarrow> time series option"

text \<open>The workbook: its sheets by name, each already parsed into columns.\<close>

type_synonym workbook = "string \<Rightarrow> profile_table option"

text \<open>
  Lines 21--36: \<open>pd.read_excel(fp, sheet_name=type, ..., nrows=24 * 4)\<close>; a missing
  sheet raises ValueError, and only the first 96 rows of every column are read.
\<close>

definition get_profile_from_file :: "workbook \<Rightarrow> string \<Rightarrow> py_error + profile_table" where
  "get_profile_from_file fp type =
     (case fp type of
        None \<Rightarrow> Inl ValueError
      | Some sheet \<Rightarrow> Inr (\<lambda>col. map_option (take (24 * 4)) (sheet col)))"

subsection \<open>Well-formed profile tables\<close>

text \<open>The time index of a reference curve: 00:15, 00:30, \<dots>, 23:45 and 24:00 read as 00:00.\<close>

definition quarter_hours :: "time list" where
  "quarter_hours = map (\<lambda>i. Time (15 * i div 60 mod 24) (15 * i mod 60)) [1..<97]"

definition all_columns :: "(season \<times> weekday) list" where
  "all_columns = List.product [Winter, Sommer, Uebergangszeit] [Samstag, Sonntag, Werktag]"

definition wf_table :: "profile_table \<Rightarrow> bool" where
  "wf_table t \<longleftrightarrow>
     list_all (\<lambda>c. case t c of None \<Rightarrow> False | Some df \<Rightarrow> map fst df = quarter_hours) all_columns"

text \<open>Workbooks used by the witnesses: a flat profile of 100 W in every column, and the
  same with the Winter/Werktag column missing.\<close>

definition flat_workbook :: workbook where
  "flat_workbook = (\<lambda>name. if name = ''H0'' then Some (\<lambda>_. Some (map (\<lambda>t. (t, 100)) quarter_hours)) else None)"

definition gap_workbook :: workbook where
  "gap_workbook =
     (\<lambda>name. if name = ''H0''
             then Some (\<lambda>c. if c = (Winter, Werktag) then None else Some (map (\<lambda>t. (t, 100)) quarter_hours))
             else None)"

text \<open>A sheet whose columns carry one row more than the 96 quarter hours.\<close>

definition long_workbook :: workbook where
  "long_workbook = (\<lambda>name. if name = ''H0'' then Some (\<lambda>_. Some (map (\<lambda>t. (t, 100)) quarter_hours @ [(Time 0 0, 7)])) else None)"

declare upt_rec_numeral [simp del]

lemma quarter_hours_length [simp]: "length quarter_hours = 96"
  by (simp add: quarter_hours_def)

lemma quarter_hours_first: "quarter_hours ! 0 = Time 0 15"
  by (simp add: quarter_hours_def)

lemma quarter_hours_ne [simp]: "quarter_hours \<noteq> []"
  by (simp add: quarter_hours_def)

lemma quarter_hours_hd_last: "hd quarter_hours = Time 0 15" "last quarter_hours = Time 0 0"
  by (simp_all add: quarter_hours_def hd_map last_map)

lemma wf_table_lookup:
  assumes "wf_table t"
  shows "\<exists>df. t (se, wd) = Some df \<and> map fst df = quarter_hours"
proof -
  have "(se, wd) \<in> set all_columns" by (cases se; cases wd) (simp_all add: all_columns_def)
  with assms show ?thesis by (auto simp: wf_table_def list_all_iff split: option.splits)
qed

lemma flat_table_wf:
  "get_profile_from_file flat_workbook ''H0'' = Inr (\<lambda>_. Some (map (\<lambda>t. (t, 100)) quarter_hours)) \<and>
   wf_table (\<lambda>_. Some (map (\<lambda>t. (t, 100)) quarter_hours))"
  by (simp add: get_profile_from_file_def flat_workbook_def wf_table_def all_columns_def comp_def)

subsection \<open>Timestamps are valid datetimes\<close>

subsection \<open>Reading 96 rows\<close>

text \<open>C14 \<open>nrows=24 * 4\<close> makes extra rows below the day harmless: when every column of the
  sheet starts with the 96 quarter hours 00:15, \<dots>, 24:00, whatever follows them,
  \<open>get_profile_from_file\<close> returns a well-formed table holding exactly those first 96 rows.\<close>

theorem get_profile_from_file_nrows:
  assumes "fp type = Some sheet"
    and "\<forall>c \<in> set all_columns. \<exists>df rest. sheet c = Some (df @ rest) \<and> map fst df = quarter_hours"
  shows "\<exists>t. get_profile_from_file fp type = Inr t \<and> wf_table t \<and>
           (\<forall>c \<in> set all_columns. \<exists>df rest. sheet c = Some (df @ rest) \<and> t c = Some df)"
proof -
  let ?t = "\<lambda>col. map_option (take (24 * 4)) (sheet col)"
  have col: "\<exists>df rest. sheet c = Some (df @ rest) \<and> ?t c = Some df \<and> map fst df = quarter_hours"
    if c: "c \<in> set all_columns" for c
  proof -
    obtain df rest where df: "sheet c = Some (df @ rest)" "map fst df = quarter_hours"
      using assms(2) c by blast
    have "length df = 96" using arg_cong [OF df(2), of length] by simp
    then have "?t c = Some df" using df(1) by simp
    then show ?thesis using df by blast
  qed
  have "wf_table ?t"
    unfolding wf_table_def list_all_iff using col by fastforce
  moreover have "get_profile_from_file fp type = Inr ?t"
    using assms(1) by (simp add: get_profile_from_file_def)
  ultimately show ?thesis using col by blast
qed

theorem get_profile_from_file_nrows_witness:
  "long_workbook ''H0'' = Some (\<lambda>_. Some (map (\<lambda>t. (t, 100)) quarter_hours @ [(Time 0 0, 7)])) \<and>
   (\<exists>t. get_profile_from_file long_workbook ''H0'' = Inr t \<and> wf_table t)"
proof -
  let ?sheet = "\<lambda>_ :: season \<times> weekday. Some (map (\<lambda>t. (t, 100::real)) quarter_hours @ [(Time 0 0, 7)])"
  have h1: "long_workbook ''H0'' = Some ?sheet" by (simp add: long_workbook_def)
  have h2: "\<forall>c \<in> set all_columns. \<exists>df rest. ?sheet c = Some (df @ rest) \<and> map fst df = quarter_hours"
    by (intro ballI exI [of _ "map (\<lambda>t. (t, 100::real)) quarter_hours"] exI [of _ "[(Time 0 0, 7)]"]) (simp add: comp_def)
  have "\<exists>t. get_profile_from_file long_workbook ''H0'' = Inr t \<and> wf_table t"
    using get_profile_from_file_nrows [where fp = long_workbook and type = "''H0''" and sheet = ?sheet, OF h1 h2] by blast
  then show ?thesis using h1 by simp
qed

end
