(* ===== verification/Dynamizer.thy ===== *)
theory Dynamizer
  imports Prelude
begin

text \<open>
  The dynamization of \<open>src/src/load_profiles.py\<close> (lines 13--18 and 39--48): the
  coefficients \<open>A4 \<dots> A0\<close> and \<open>dynamize_day\<close>, which multiplies every value of a
  day's series by a fourth-degree polynomial in the day of the year. The day of the year
  reaches \<open>dynamize_day\<close> as a numpy integer scalar (\<open>df.index.dayofyear[0]\<close>), so
  \<open>np.power\<close> computes at a fixed width and wraps around: the width is the type
  parameter \<open>'w\<close> of the word. With pandas 2 the field is \<open>int32\<close> and under
  numpy 2's promotion rules the power stays \<open>int32\<close>; older versions compute in
  \<open>int64\<close>. Products with the float coefficients are exact real arithmetic here
  (floating-point rounding is not modelled). The lemmas give exactness at 64 bits,
  the wrap-around from day 216 at 32 bits, and the range of the factor over the year,
  proved by interval bounds on boxes of days (\<open>factor_boxes\<close>).
\<close>

definition A4 :: real where "A4 = -392 / 10 ^ 12"
definition A3 :: real where "A3 = 32 / 10 ^ 8"
definition A2 :: real where "A2 = -702 / 10 ^ 7"
definition A1 :: real where "A1 = 21 / 10 ^ 4"
definition A0 :: real where "A0 = 124 / 100"

text \<open>Lines 41--47: \<open>dynamization_value\<close>, the integer powers taken at the width of \<open>dayofyear\<close>.\<close>

definition dynamization_value :: "'w::len word \<Rightarrow> real" where
  "dynamization_value dayofyear =
     of_int (sint (dayofyear ^ 4)) * A4 + of_int (sint (dayofyear ^ 3)) * A3
     + of_int (sint (dayofyear ^ 2)) * A2 + of_int (sint dayofyear) * A1 + A0"

text \<open>Lines 39--48: \<open>ser * dynamization_value\<close> scales every value, keeping the index.\<close>

definition dynamize_day :: "('i \<times> real) list \<Rightarrow> 'w::len word \<Rightarrow> ('i \<times> real) list" where
  "dynamize_day ser dayofyear =
     (let v = dynamization_value dayofyear in map (\<lambda>(t, x). (t, x * v)) ser)"

text \<open>The polynomial of the specification (section 4.2), over unbounded integers.\<close>

definition dynamization_poly :: "int \<Rightarrow> real" where
  "dynamization_poly d = of_int d ^ 4 * A4 + of_int d ^ 3 * A3 + of_int d ^ 2 * A2 + of_int d * A1 + A0"

text \<open>
  Interval bounds on quartic polynomials, for the range of the factor over the year and for
  its change from one day to the next: a box is a centre \<open>c\<close> and a radius \<open>r\<close>; on it
  the polynomial differs from its value at \<open>c\<close> by at most \<open>quartic_err\<close>, the sum of the
  magnitudes of its coefficients shifted to \<open>c\<close> times the powers of \<open>r\<close>.
  \<open>boxes_cover a bs\<close> checks that the boxes leave no day from \<open>a\<close> to 366 out.
\<close>

definition quartic :: "real \<Rightarrow> real \<Rightarrow> real \<Rightarrow> real \<Rightarrow> real \<Rightarrow> real \<Rightarrow> real" where
  "quartic a4 a3 a2 a1 a0 x = x ^ 4 * a4 + x ^ 3 * a3 + x ^ 2 * a2 + x * a1 + a0"

definition quartic_err :: "real \<Rightarrow> real \<Rightarrow> real \<Rightarrow> real \<Rightarrow> real \<Rightarrow> real \<Rightarrow> real" where
  "quartic_err a4 a3 a2 a1 c r =
     \<bar>4 * a4 * c ^ 3 + 3 * a3 * c ^ 2 + 2 * a2 * c + a1\<bar> * r + \<bar>6 * a4 * c ^ 2 + 3 * a3 * c + a2\<bar> * r ^ 2
     + \<bar>4 * a4 * c + a3\<bar> * r ^ 3 + \<bar>a4\<bar> * r ^ 4"

definition box_ok ::
  "real \<Rightarrow> real \<Rightarrow> real \<Rightarrow> real \<Rightarrow> real \<Rightarrow> real \<Rightarrow> real \<Rightarrow> int \<times> int \<Rightarrow> bool" where
  "box_ok a4 a3 a2 a1 a0 lo hi cr = (case cr of (c, r) \<Rightarrow>
     lo \<le> quartic a4 a3 a2 a1 a0 (of_int c) - quartic_err a4 a3 a2 a1 (of_int c) (of_int r) \<and>
     quartic a4 a3 a2 a1 a0 (of_int c) + quartic_err a4 a3 a2 a1 (of_int c) (of_int r) \<le> hi)"

fun boxes_cover :: "int \<Rightarrow> (int \<times> int) list \<Rightarrow> bool" where
  "boxes_cover a [] = (366 < a)"
| "boxes_cover a ((c, r) # bs) = (c - r \<le> a \<and> boxes_cover (c + r + 1) bs)"

text \<open>Boxes for the factor itself and for its change from day \<open>n\<close> to day \<open>n + 1\<close>.\<close>

definition factor_boxes :: "(int \<times> int) list" where
  "factor_boxes = [(6, 5), (18, 6), (33, 8), (70, 28), (132, 33), (178, 12), (203, 12), (229, 13),
                   (279, 36), (337, 21), (362, 3), (366, 0)]"

definition step_boxes :: "(int \<times> int) list" where
  "step_boxes = [(29, 28), (81, 23), (134, 29), (219, 55), (295, 20), (333, 17), (378, 27)]"

subsection \<open>Exactness and wrap-around of the integer powers\<close>

lemma dynamization_value_split:
  assumes "1 \<le> n" and "n ^ 3 < 2 ^ (LENGTH('w) - 1)"
  shows "dynamization_value (word_of_int n :: 'w::len word) =
           dynamization_poly n + (of_int (sint ((word_of_int n :: 'w word) ^ 4)) - of_int n ^ 4) * A4"
proof -
  have le3: "n ^ k \<le> n ^ 3" if "k \<le> 3" for k
    using assms(1) that by (simp add: power_increasing)
  have ex: "sint ((word_of_int n :: 'w word) ^ k) = n ^ k" if "k \<le> 3" for k
    using assms(1) le3 [OF that] assms(2) by (intro sint_power_exact) simp_all
  have "sint (word_of_int n :: 'w word) = n"
    using ex [of 1] by simp
  then show ?thesis
    using ex [of 2] ex [of 3]
    by (simp add: dynamization_value_def dynamization_poly_def algebra_simps)
qed

lemma A4_nonzero: "A4 \<noteq> 0"
  by (simp add: A4_def)

lemma dynamization_value_exact_iff:
  assumes "1 \<le> n" and "n ^ 3 < 2 ^ (LENGTH('w) - 1)"
  shows "dynamization_value (word_of_int n :: 'w::len word) = dynamization_poly n \<longleftrightarrow>
           n ^ 4 < 2 ^ (LENGTH('w) - 1)"
proof
  assume "n ^ 4 < 2 ^ (LENGTH('w) - 1)"
  then have "sint ((word_of_int n :: 'w word) ^ 4) = n ^ 4"
    using assms(1) by (intro sint_power_exact) simp_all
  then show "dynamization_value (word_of_int n :: 'w::len word) = dynamization_poly n"
    using dynamization_value_split [OF assms] by simp
next
  assume eq: "dynamization_value (word_of_int n :: 'w::len word) = dynamization_poly n"
  show "n ^ 4 < 2 ^ (LENGTH('w) - 1)"
  proof (rule ccontr)
    assume "\<not> n ^ 4 < 2 ^ (LENGTH('w) - 1)"
    then have "sint ((word_of_int n :: 'w word) ^ 4) \<noteq> n ^ 4"
      by (intro sint_power_wraps) simp
    then have "(of_int (sint ((word_of_int n :: 'w word) ^ 4)) - of_int n ^ 4) * A4 \<noteq> (0::real)"
      using A4_nonzero by (metis eq_iff_diff_eq_0 mult_eq_0_iff of_int_eq_iff of_int_power)
    with eq show False using dynamization_value_split [OF assms] by simp
  qed
qed

lemma dynamization_value_64:
  assumes "1 \<le> n" and "n \<le> 366"
  shows "dynamization_value (word_of_int n :: 64 word) = dynamization_poly n"
proof -
  have "n ^ 4 \<le> 366 ^ 4" using assms by (intro power_mono) simp_all
  moreover have "n ^ 3 \<le> 366 ^ 3" using assms by (intro power_mono) simp_all
  ultimately show ?thesis
    using dynamization_value_exact_iff [OF assms(1), where 'w = 64] by simp
qed

subsection \<open>Range of the polynomial and of its daily change\<close>

lemma quartic_tail_bound:
  fixes y r p1 p2 p3 p4 :: real
  assumes "\<bar>y\<bar> \<le> r"
  shows "\<bar>p1 * y + p2 * y ^ 2 + p3 * y ^ 3 + p4 * y ^ 4\<bar> \<le> \<bar>p1\<bar> * r + \<bar>p2\<bar> * r ^ 2 + \<bar>p3\<bar> * r ^ 3 + \<bar>p4\<bar> * r ^ 4"
proof -
  have t: "\<bar>p * y ^ k\<bar> \<le> \<bar>p\<bar> * r ^ k" for p :: real and k
    using assms by (simp add: abs_mult power_abs mult_left_mono power_mono)
  have "\<bar>p1 * y + p2 * y ^ 2 + p3 * y ^ 3 + p4 * y ^ 4\<bar>
          \<le> \<bar>p1 * y ^ 1\<bar> + \<bar>p2 * y ^ 2\<bar> + \<bar>p3 * y ^ 3\<bar> + \<bar>p4 * y ^ 4\<bar>"
    by (simp add: abs_triangle_ineq order_trans [OF abs_triangle_ineq] add_mono)
  also have "\<dots> \<le> \<bar>p1\<bar> * r ^ 1 + \<bar>p2\<bar> * r ^ 2 + \<bar>p3\<bar> * r ^ 3 + \<bar>p4\<bar> * r ^ 4"
    by (intro add_mono t)
  finally show ?thesis by simp
qed

lemma quartic_shift:
  "quartic a4 a3 a2 a1 a0 x - quartic a4 a3 a2 a1 a0 c =
     (4 * a4 * c ^ 3 + 3 * a3 * c ^ 2 + 2 * a2 * c + a1) * (x - c)
     + (6 * a4 * c ^ 2 + 3 * a3 * c + a2) * (x - c) ^ 2 + (4 * a4 * c + a3) * (x - c) ^ 3 + a4 * (x - c) ^ 4"
  by (simp add: quartic_def power2_eq_square power3_eq_cube power4_eq_xxxx algebra_simps)

lemma box_ok_bound:
  assumes "box_ok a4 a3 a2 a1 a0 lo hi (c, r)" and "c - r \<le> n" and "n \<le> c + r"
  shows "lo \<le> quartic a4 a3 a2 a1 a0 (of_int n) \<and> quartic a4 a3 a2 a1 a0 (of_int n) \<le> hi"
proof -
  have "\<bar>of_int n - of_int c\<bar> \<le> (of_int r :: real)"
    using assms(2,3) by (simp add: abs_le_iff)
  then have "\<bar>quartic a4 a3 a2 a1 a0 (of_int n) - quartic a4 a3 a2 a1 a0 (of_int c)\<bar>
               \<le> quartic_err a4 a3 a2 a1 (of_int c) (of_int r)"
    unfolding quartic_shift quartic_err_def by (rule quartic_tail_bound)
  with assms(1) show ?thesis by (simp add: box_ok_def) linarith
qed

lemma boxes_cover_mem:
  assumes "boxes_cover a bs" and "a \<le> n" and "n \<le> 366"
  shows "\<exists>(c, r) \<in> set bs. c - r \<le> n \<and> n \<le> c + r"
  using assms
proof (induction a bs rule: boxes_cover.induct)
  case (1 a)
  then show ?case by simp
next
  case (2 a c r bs)
  then show ?case by (cases "n \<le> c + r") auto
qed

lemma boxes_bound:
  assumes "list_all (box_ok a4 a3 a2 a1 a0 lo hi) bs" and "boxes_cover 1 bs" and "1 \<le> n" and "n \<le> 366"
  shows "lo \<le> quartic a4 a3 a2 a1 a0 (of_int n) \<and> quartic a4 a3 a2 a1 a0 (of_int n) \<le> hi"
proof -
  obtain c r where "(c, r) \<in> set bs" "c - r \<le> n" "n \<le> c + r"
    using boxes_cover_mem [OF assms(2-4)] by blast
  with assms(1) show ?thesis using box_ok_bound [of a4 a3 a2 a1 a0 lo hi c r n] by (simp add: list_all_iff)
qed

lemma dynamization_poly_quartic: "dynamization_poly n = quartic A4 A3 A2 A1 A0 (of_int n)"
  by (simp add: dynamization_poly_def quartic_def)

lemma dynamization_poly_step:
  "dynamization_poly (n + 1) - dynamization_poly n =
     quartic 0 (4 * A4) (6 * A4 + 3 * A3) (4 * A4 + 3 * A3 + 2 * A2) (A4 + A3 + A2 + A1) (of_int n)"
  by (simp add: dynamization_poly_def quartic_def power2_eq_square power3_eq_cube power4_eq_xxxx algebra_simps)

lemma dynamization_poly_range:
  assumes "1 \<le> n" and "n \<le> 366"
  shows "39 / 50 \<le> dynamization_poly n \<and> dynamization_poly n \<le> 63 / 50"
proof -
  have "list_all (box_ok A4 A3 A2 A1 A0 (39 / 50) (63 / 50)) factor_boxes" "boxes_cover 1 factor_boxes"
    by (simp_all add: factor_boxes_def box_ok_def quartic_def quartic_err_def A4_def A3_def A2_def A1_def A0_def)
  from boxes_bound [OF this assms] show ?thesis by (simp add: dynamization_poly_quartic)
qed

lemma dynamization_poly_step_bound:
  assumes "1 \<le> n" and "n \<le> 365"
  shows "\<bar>dynamization_poly (n + 1) - dynamization_poly n\<bar> \<le> 9 / 2000"
proof -
  have b: "list_all (box_ok 0 (4 * A4) (6 * A4 + 3 * A3) (4 * A4 + 3 * A3 + 2 * A2) (A4 + A3 + A2 + A1)
                      (- 9 / 2000) (9 / 2000)) step_boxes"
    and c: "boxes_cover 1 step_boxes"
    by (simp_all add: step_boxes_def box_ok_def quartic_def quartic_err_def A4_def A3_def A2_def A1_def A0_def)
  have n: "n \<le> 366" using assms(2) by simp
  note bb = boxes_bound [OF b c assms(1) n]
  show ?thesis unfolding dynamization_poly_step abs_le_iff using bb by linarith
qed

subsection \<open>The two integer widths\<close>

text \<open>C21 With 64-bit day-of-year integers (pandas before 2.0, or numpy before 2.0) the
  dynamization factor of every day of the year is the exact polynomial of the
  specification: no power overflows.\<close>

theorem dynamization_int64_exact:
  assumes "1 \<le> n" and "n \<le> 366"
  shows "dynamization_value (word_of_int n :: 64 word) = dynamization_poly n"
  by (rule dynamization_value_64 [OF assms])

theorem dynamization_int64_exact_witness:
  "1 \<le> (366::int) \<and> (366::int) \<le> 366 \<and>
   dynamization_value (word_of_int 366 :: 64 word) = dynamization_poly 366"
  using dynamization_int64_exact [of 366] by simp

text \<open>C20 With 32-bit day-of-year integers (pandas 2 with numpy 2) \<open>np.power(dayofyear, 4)\<close>
  wraps around: the factor equals the polynomial of the specification exactly for the
  days 1 to 215 and differs from it on every day from 216 on.\<close>

theorem dynamization_int32_wraps:
  assumes "1 \<le> n" and "n \<le> 366"
  shows "dynamization_value (word_of_int n :: 32 word) = dynamization_poly n \<longleftrightarrow> n \<le> 215"
proof -
  have "n ^ 3 \<le> 366 ^ 3" using assms by (intro power_mono) simp_all
  then have e: "dynamization_value (word_of_int n :: 32 word) = dynamization_poly n \<longleftrightarrow>
                n ^ 4 < 2 ^ 31"
    using dynamization_value_exact_iff [OF assms(1), where 'w = 32] by simp
  have "n ^ 4 < 2 ^ 31 \<longleftrightarrow> n \<le> 215"
  proof
    assume "n ^ 4 < 2 ^ 31"
    show "n \<le> 215"
    proof (rule ccontr)
      assume "\<not> n \<le> 215"
      then have "216 ^ 4 \<le> n ^ 4" by (intro power_mono) simp_all
      with \<open>n ^ 4 < 2 ^ 31\<close> show False by simp
    qed
  next
    assume "n \<le> 215"
    then have "n ^ 4 \<le> 215 ^ 4" using assms(1) by (intro power_mono) simp_all
    then show "n ^ 4 < 2 ^ 31" by simp
  qed
  with e show ?thesis by simp
qed

theorem dynamization_int32_wraps_witness:
  "1 \<le> (216::int) \<and> (216::int) \<le> 366 \<and>
   dynamization_value (word_of_int 216 :: 32 word) \<noteq> dynamization_poly 216 \<and>
   1 \<le> (215::int) \<and> (215::int) \<le> 366 \<and>
   dynamization_value (word_of_int 215 :: 32 word) = dynamization_poly 215"
  using dynamization_int32_wraps [of 216] dynamization_int32_wraps [of 215] by simp

text \<open>C22 With 64-bit day-of-year integers the factor of every day of the year, 1 to 366, lies
  in \<open>[0.78, 1.26]\<close>: dynamization scales a reference curve by at most 26 percent up and
  22 percent down.\<close>

theorem dynamization_int64_range:
  assumes "1 \<le> n" and "n \<le> 366"
  shows "39 / 50 \<le> dynamization_value (word_of_int n :: 64 word) \<and>
         dynamization_value (word_of_int n :: 64 word) \<le> 63 / 50"
  using dynamization_value_64 [OF assms] dynamization_poly_range [OF assms] by simp

theorem dynamization_int64_range_witness:
  "1 \<le> (202::int) \<and> (202::int) \<le> 366 \<and>
   39 / 50 \<le> dynamization_value (word_of_int 202 :: 64 word) \<and>
   dynamization_value (word_of_int 366 :: 64 word) \<le> 63 / 50"
  using dynamization_int64_range [of 202] dynamization_int64_range [of 366] by simp

text \<open>C23 Continuity of the factor (specification, section 8): with 64-bit day-of-year integers
  the factor changes by at most 0.0045 from any day of the year to the next, so a
  dynamized series has no jump between days. (With 32-bit integers it jumps at day 216,
  where the polynomial stops being exact: \<open>dynamization_int32_wraps\<close>.)\<close>

theorem dynamization_int64_continuity:
  assumes "1 \<le> n" and "n \<le> 365"
  shows "\<bar>dynamization_value (word_of_int (n + 1) :: 64 word) - dynamization_value (word_of_int n :: 64 word)\<bar>
           \<le> 9 / 2000"
  using dynamization_value_64 [of n] dynamization_value_64 [of "n + 1"] dynamization_poly_step_bound [OF assms] assms
  by simp

theorem dynamization_int64_continuity_witness:
  "1 \<le> (215::int) \<and> (215::int) \<le> 365 \<and>
   \<bar>dynamization_value (word_of_int 216 :: 64 word) - dynamization_value (word_of_int 215 :: 64 word)\<bar> \<le> 9 / 2000"
  using dynamization_int64_continuity [of 215] by simp

end
