(* ===== verification/Ordinal.thy ===== *)
theory Ordinal
  imports Calendar
begin

text \<open>
  Proleptic ordinals back to dates, as CPython's pure-Python \<open>datetime\<close> computes them:
  \<open>_ord2ymd\<close> splits an ordinal into cycles of 400, 100, 4 and 1 years, estimates the
  month as \<open>(n + 50) >> 5\<close> and corrects the estimate by one month when it is too
  large; \<open>date.fromordinal\<close> builds the date from it. Adding one day
  (\<open>date.__add__\<close> and \<open>datetime.__add__\<close> with \<open>timedelta(days=1)\<close>) is
  \<open>fromordinal(toordinal() + 1)\<close> with an OverflowError outside \<open>1 .. MAXORDINAL\<close>.
  The lemmas prove the two round trips between dates and ordinals, and hence that adding one
  day is the calendar successor \<open>succ_date\<close> below \<open>date.max\<close>.
\<close>

text \<open>\<open>_DI400Y\<close>, \<open>_DI100Y\<close>, \<open>_DI4Y\<close>: the days in 400, 100 and 4 years.\<close>

definition DI400Y :: int where "DI400Y = days_before_year 401"
definition DI100Y :: int where "DI100Y = days_before_year 101"
definition DI4Y :: int where "DI4Y = days_before_year 5"

text \<open>\<open>_DAYS_BEFORE_MONTH\<close> and \<open>_DAYS_IN_MONTH\<close>, with the placeholder \<open>-1\<close> at index 0.\<close>

definition DAYS_BEFORE_MONTH :: "int list" where
  "DAYS_BEFORE_MONTH = [-1, 0, 31, 59, 90, 120, 151, 181, 212, 243, 273, 304, 334]"

definition DAYS_IN_MONTH :: "int list" where
  "DAYS_IN_MONTH = [-1, 31, 28, 31, 30, 31, 30, 31, 31, 30, 31, 30, 31]"

text \<open>The month part of \<open>_ord2ymd\<close>: from the day \<open>n\<close> of the year (counted from 0), the
  month estimate \<open>(n + 50) >> 5\<close>, its correction, and the day of the month.\<close>

definition ord2ymd_month :: "int \<Rightarrow> bool \<Rightarrow> int \<Rightarrow> int \<times> int \<times> int" where
  "ord2ymd_month yr leapyear n =
     (let mon = drop_bit 5 (n + 50);
          preceding = DAYS_BEFORE_MONTH ! nat mon + (if mon > 2 \<and> leapyear then 1 else 0);
          (mon, preceding) =
            (if preceding > n
             then (mon - 1, preceding - (DAYS_IN_MONTH ! nat (mon - 1) + (if mon - 1 = 2 \<and> leapyear then 1 else 0)))
             else (mon, preceding));
          n = n - preceding
      in (yr, mon, n + 1))"

text \<open>\<open>_ord2ymd\<close>: the year from the 400-, 100-, 4- and 1-year cycles; the last day of a
  4-year or 400-year cycle is 31 December of the year before.\<close>

definition ord2ymd :: "int \<Rightarrow> int \<times> int \<times> int" where
  "ord2ymd n =
     (let n = n - 1;
          (n400, n) = (n div DI400Y, n mod DI400Y);
          yr = n400 * 400 + 1;
          (n100, n) = (n div DI100Y, n mod DI100Y);
          (n4, n) = (n div DI4Y, n mod DI4Y);
          (n1, n) = (n div 365, n mod 365);
          yr = yr + n100 * 100 + n4 * 4 + n1
      in if n1 = 4 \<or> n100 = 4 then (yr - 1, 12, 31)
         else ord2ymd_month yr (n1 = 3 \<and> (n4 \<noteq> 24 \<or> n100 = 3)) n)"

text \<open>\<open>date.fromordinal\<close>.\<close>

definition fromordinal :: "int \<Rightarrow> date" where
  "fromordinal n = (case ord2ymd n of (y, m, d) \<Rightarrow> Date (nat y) (nat m) (nat d))"

text \<open>\<open>date + timedelta(days=1)\<close> (and the date part of \<open>datetime + timedelta(days=1)\<close>):
  \<open>o = self.toordinal() + 1; if 0 < o <= _MAXORDINAL: return fromordinal(o)\<close>, else
  OverflowError.\<close>

definition add_one_day :: "date \<Rightarrow> py_error + date" where
  "add_one_day d =
     (let o' = toordinal d + 1 in if 0 < o' \<and> o' \<le> MAXORDINAL then Inr (fromordinal o') else Inl OverflowError)"

subsection \<open>The month part\<close>

lemma DI_values: "DI400Y = 146097" "DI100Y = 36524" "DI4Y = 1461"
  by (simp_all add: DI400Y_def DI100Y_def DI4Y_def days_before_year_def)

lemma DAYS_BEFORE_MONTH_nth:
  "1 \<le> m \<Longrightarrow> m \<le> 12 \<Longrightarrow>
     DAYS_BEFORE_MONTH ! m + (if 2 < int m \<and> is_leap y then 1 else 0) = int (days_before_month y m)"
  using month_cases_12 [of m] by (auto simp: DAYS_BEFORE_MONTH_def days_before_month_def)

lemma DAYS_IN_MONTH_nth:
  "1 \<le> m \<Longrightarrow> m \<le> 12 \<Longrightarrow>
     DAYS_IN_MONTH ! m + (if int m = 2 \<and> is_leap y then 1 else 0) = int (days_in_month y m)"
  using month_cases_12 [of m] by (auto simp: DAYS_IN_MONTH_def days_in_month_def)

lemma month_estimate_bounds:
  "1 \<le> m \<Longrightarrow> m \<le> 12 \<Longrightarrow>
     32 * int m \<le> int (days_before_month y m) + 50 \<and>
     int (days_before_month y m) + int (days_in_month y m) + 49 < 32 * int m + (if m < 12 then 64 else 32)"
  using month_cases_12 [of m] by (auto simp: days_before_month_def days_in_month_def)

lemma div_32_cases:
  fixes x :: int
  shows "32 * m \<le> x \<Longrightarrow> x < 32 * m + 64 \<Longrightarrow> x div 32 = m \<or> x div 32 = m + 1"
  by presburger

lemma month_part:
  assumes "1 \<le> m" "m \<le> 12" "1 \<le> dd" "dd \<le> days_in_month y m"
  shows "ord2ymd_month yr (is_leap y) (int (days_before_month y m) + int dd - 1) = (yr, int m, int dd)"
proof -
  let ?k = "int (days_before_month y m) + int dd - 1"
  have b: "32 * int m \<le> ?k + 50" "?k + 50 < 32 * int m + (if m < 12 then 64 else 32)"
    using month_estimate_bounds [OF assms(1,2), of y] assms(3,4) by linarith+
  then have est: "(?k + 50) div 32 = int m \<or> (m < 12 \<and> (?k + 50) div 32 = int m + 1)"
    using div_32_cases [of "int m" "?k + 50"] by (cases "m < 12") (auto simp: zdiv_eq_0_iff)
  show ?thesis
  proof (cases "(?k + 50) div 32 = int m")
    case True
    have p: "DAYS_BEFORE_MONTH ! m + (if 2 < int m \<and> is_leap y then 1 else 0) = int (days_before_month y m)"
      by (rule DAYS_BEFORE_MONTH_nth [OF assms(1,2)])
    show ?thesis using True p assms(3)
      by (simp add: ord2ymd_month_def Let_def drop_bit_eq_div)
  next
    case False
    with est have m12: "m < 12" and e: "(?k + 50) div 32 = int m + 1" by auto
    have p: "DAYS_BEFORE_MONTH ! Suc m + (if 2 < int (Suc m) \<and> is_leap y then 1 else 0) =
               int (days_before_month y m) + int (days_in_month y m)"
      using DAYS_BEFORE_MONTH_nth [of "Suc m" y] days_before_month_Suc [OF assms(1) m12, of y] m12 by simp
    have q: "DAYS_IN_MONTH ! m + (if int m = 2 \<and> is_leap y then 1 else 0) = int (days_in_month y m)"
      by (rule DAYS_IN_MONTH_nth [OF assms(1,2)])
    have n1: "nat (int m + 1) = Suc m" by simp
    show ?thesis using e p q assms(3,4) n1
      by (cases "Suc 0 < m \<and> is_leap y") (simp_all add: ord2ymd_month_def Let_def drop_bit_eq_div)
  qed
qed


subsection \<open>The year part\<close>

lemma lin_divmod:
  fixes q r k :: int
  assumes "0 \<le> r" and "r < k"
  shows "(k * q + r) div k = q \<and> (k * q + r) mod k = r"
proof -
  have "0 < k" using assms by simp
  then show ?thesis using assms by (simp add: div_pos_pos_trivial mod_pos_pos_trivial add.commute [of "k * q"])
qed

lemma ord2ymd_chain:
  fixes N a b c e k r1 r2 r3 :: int
  assumes "(N - 1) div 146097 = a" "(N - 1) mod 146097 = r1" "r1 div 36524 = b" "r1 mod 36524 = r2"
    "r2 div 1461 = c" "r2 mod 1461 = r3" "r3 div 365 = e" "r3 mod 365 = k"
  shows "ord2ymd N =
           (if e = 4 \<or> b = 4 then (a * 400 + 1 + b * 100 + c * 4 + e - 1, 12, 31)
            else ord2ymd_month (a * 400 + 1 + b * 100 + c * 4 + e) (e = 3 \<and> (c \<noteq> 24 \<or> b = 3)) k)"
  unfolding ord2ymd_def Let_def DI_values case_prod_conv assms by simp

lemma ord2ymd_cycles:
  fixes a b c e k :: int
  assumes "0 \<le> a" "0 \<le> b" "b < 4" "0 \<le> c" "c < 25" "0 \<le> e" "e < 4" "0 \<le> k"
    and "k < 365 \<or> (k = 365 \<and> e = 3 \<and> (c \<noteq> 24 \<or> b = 3))"
  shows "ord2ymd (146097 * a + 36524 * b + 1461 * c + 365 * e + k + 1) =
           (if k = 365 then (400 * a + 100 * b + 4 * c + e + 1, 12, 31)
            else ord2ymd_month (400 * a + 100 * b + 4 * c + e + 1) (e = 3 \<and> (c \<noteq> 24 \<or> b = 3)) k)"
proof -
  define r3 where "r3 = 365 * e + k"
  define r2 where "r2 = 1461 * c + r3"
  define r1 where "r1 = 36524 * b + r2"
  define N where "N = 146097 * a + 36524 * b + 1461 * c + 365 * e + k + 1"
  have N: "N - 1 = 146097 * a + r1" by (simp add: N_def r1_def r2_def r3_def)
  have r1: "0 \<le> r1" "r1 < 146097" using assms by (auto simp: r1_def r2_def r3_def)
  have s400: "(N - 1) div 146097 = a" "(N - 1) mod 146097 = r1"
    using lin_divmod [OF r1, of a] N by simp_all
  show ?thesis
  proof (cases "k = 365 \<and> c = 24 \<and> b = 3")
    case True
    then have e: "e = 3" using assms(9) by simp
    have "r1 = 36524 * 4 + 0" using True e by (simp add: r1_def r2_def r3_def)
    then have s100: "r1 div 36524 = 4" "r1 mod 36524 = 0" by simp_all
    have "ord2ymd N = (400 * a + 100 * b + 4 * c + e + 1, 12, 31)"
      using ord2ymd_chain [OF s400 s100, of 0 0 0 0] e True by simp
    then show ?thesis using True by (simp add: N_def)
  next
    case notA: False
    have r2: "0 \<le> r2" "r2 < 36524"
      using assms notA by (auto simp: r2_def r3_def)
    have s100: "r1 div 36524 = b" "r1 mod 36524 = r2"
      using lin_divmod [OF r2, of b] by (simp_all add: r1_def)
    have r3: "0 \<le> r3" "r3 < 1461" using assms by (auto simp: r3_def)
    have s4: "r2 div 1461 = c" "r2 mod 1461 = r3"
      using lin_divmod [OF r3, of c] by (simp_all add: r2_def)
    show ?thesis
    proof (cases "k = 365")
      case True
      have "r3 = 365 * 4 + 0" using True assms(9) by (simp add: r3_def)
      then have s1: "r3 div 365 = 4" "r3 mod 365 = 0" by simp_all
      have e: "e = 3" using True assms(9) by simp
      have "ord2ymd N = (400 * a + 100 * b + 4 * c + e + 1, 12, 31)"
        using ord2ymd_chain [OF s400 s100 s4 s1] e by simp
      then show ?thesis using True by (simp add: N_def)
    next
      case False
      then have k: "0 \<le> k" "k < 365" using assms(8,9) by auto
      have s1: "r3 div 365 = e" "r3 mod 365 = k"
        using lin_divmod [OF k, of e] by (simp_all add: r3_def)
      have "b \<noteq> 4" using assms(3) by simp
      moreover have "e \<noteq> 4" using assms(7) by simp
      ultimately have "ord2ymd N = ord2ymd_month (a * 400 + 1 + b * 100 + c * 4 + e) (e = 3 \<and> (c \<noteq> 24 \<or> b = 3)) k"
        using ord2ymd_chain [OF s400 s100 s4 s1] by simp
      moreover have "a * 400 + 1 + b * 100 + c * 4 + e = 400 * a + 100 * b + 4 * c + e + 1" by simp
      ultimately show ?thesis using False by (simp add: N_def)
    qed
  qed
qed


lemma nat_lin_div:
  fixes q r k :: nat
  assumes "r < k"
  shows "(k * q + r) div k = q"
  using assms by simp

lemma year_cycles:
  fixes Y :: nat
  defines "a \<equiv> Y div 400" and "b \<equiv> Y mod 400 div 100" and "c \<equiv> Y mod 100 div 4" and "e \<equiv> Y mod 4"
  shows "Y = 400 * a + 100 * b + 4 * c + e"
    and "Y div 4 = 100 * a + 25 * b + c"
    and "Y div 100 = 4 * a + b"
    and "b < 4" "c < 25" "e < 4"
    and "Y mod 100 = 4 * c + e" "Y mod 400 = 100 * b + 4 * c + e"
proof -
  have m100: "Y mod 400 mod 100 = Y mod 100" by (simp add: mod_mod_cancel)
  have m4: "Y mod 100 mod 4 = Y mod 4" by (simp add: mod_mod_cancel)
  show y100: "Y mod 100 = 4 * c + e"
    using div_mult_mod_eq [of "Y mod 100" 4] m4 by (simp add: c_def e_def)
  show y400: "Y mod 400 = 100 * b + 4 * c + e"
    using div_mult_mod_eq [of "Y mod 400" 100] m100 y100 by (simp add: b_def)
  show y: "Y = 400 * a + 100 * b + 4 * c + e"
    using div_mult_mod_eq [of Y 400] y400 by (simp add: a_def)
  show b4: "b < 4" unfolding b_def by (simp add: less_mult_imp_div_less)
  show c25: "c < 25" unfolding c_def by (simp add: less_mult_imp_div_less)
  show e4: "e < 4" by (simp add: e_def)
  have "Y = 4 * (100 * a + 25 * b + c) + e" using y by simp
  then show "Y div 4 = 100 * a + 25 * b + c" using nat_lin_div [OF e4] by metis
  have "4 * c + e < 100" using c25 e4 by simp
  moreover have "Y = 100 * (4 * a + b) + (4 * c + e)" using y by simp
  ultimately show "Y div 100 = 4 * a + b" using nat_lin_div by metis
qed

lemma leap_cycles:
  fixes Y :: nat
  shows "is_leap (Suc Y) \<longleftrightarrow> Y mod 4 = 3 \<and> (Y mod 100 div 4 \<noteq> 24 \<or> Y mod 400 div 100 = 3)"
proof -
  let ?b = "Y mod 400 div 100" and ?c = "Y mod 100 div 4" and ?e = "Y mod 4"
  have f: "Y mod 100 = 4 * ?c + ?e" "Y mod 400 = 100 * ?b + 4 * ?c + ?e" "?b < 4" "?c < 25" "?e < 4"
    using year_cycles(4-8) [of Y] by simp_all
  have "Suc Y mod 4 = 0 \<longleftrightarrow> ?e = 3" by (simp add: mod_Suc)
  moreover have "Suc Y mod 100 = 0 \<longleftrightarrow> Y mod 100 = 99" by (simp add: mod_Suc)
  moreover have "Suc Y mod 400 = 0 \<longleftrightarrow> Y mod 400 = 399" by (simp add: mod_Suc)
  ultimately show ?thesis using f unfolding is_leap_def by auto
qed

lemma days_before_year_cycles:
  fixes Y :: nat
  shows "days_before_year (Suc Y) =
           146097 * int (Y div 400) + 36524 * int (Y mod 400 div 100) + 1461 * int (Y mod 100 div 4) + 365 * int (Y mod 4)"
proof -
  have d: "int Y div 4 = int (Y div 4)" "int Y div 100 = int (Y div 100)" "int Y div 400 = int (Y div 400)"
    by (simp_all add: zdiv_int)
  have y: "int Y = 400 * int (Y div 400) + 100 * int (Y mod 400 div 100) + 4 * int (Y mod 100 div 4) + int (Y mod 4)"
    using arg_cong [OF year_cycles(1) [of Y], of int] by simp
  have y4: "int (Y div 4) = 100 * int (Y div 400) + 25 * int (Y mod 400 div 100) + int (Y mod 100 div 4)"
    using arg_cong [OF year_cycles(2) [of Y], of int] by simp
  have y100: "int (Y div 100) = 4 * int (Y div 400) + int (Y mod 400 div 100)"
    using arg_cong [OF year_cycles(3) [of Y], of int] by simp
  have e: "days_before_year (Suc Y) = int Y * 365 + int (Y div 4) - int (Y div 100) + int (Y div 400)"
    by (simp add: days_before_year_def Let_def d)
  show ?thesis using e y y4 y100 by linarith
qed

lemma last_day_of_leap_year:
  assumes "1 \<le> m" "m \<le> 12" "dd \<le> days_in_month y m" "days_before_month y m + dd = 366"
  shows "m = 12 \<and> dd = 31"
  using month_cases_12 [OF assms(1,2)] assms(3,4)
  by (auto simp: days_before_month_def days_in_month_def split: if_splits)

subsection \<open>Round trips\<close>

theorem fromordinal_toordinal:
  assumes "valid_date d"
  shows "fromordinal (toordinal d) = d"
proof -
  obtain y m dd where d: "d = Date y m dd" by (cases d)
  from assms have v: "1 \<le> y" "1 \<le> m" "m \<le> 12" "1 \<le> dd" "dd \<le> days_in_month y m"
    by (auto simp: d valid_date_def MINYEAR_def)
  define Y where "Y = y - 1"
  have y: "y = Suc Y" using v(1) by (simp add: Y_def)
  define k where "k = int (days_before_month y m) + int dd - 1"
  have doy: "1 \<le> dayofyear d" "dayofyear d \<le> 365 + (if is_leap y then 1 else 0)"
    using dayofyear_bounds [OF assms] by (simp_all add: d)
  have "k = int (dayofyear d) - 1" by (simp add: k_def d dayofyear_def)
  then have k: "0 \<le> k" "k \<le> 364 + (if is_leap y then 1 else 0)"
    using doy by (auto split: if_splits)
  have o: "toordinal d = 146097 * int (Y div 400) + 36524 * int (Y mod 400 div 100) + 1461 * int (Y mod 100 div 4)
                         + 365 * int (Y mod 4) + k + 1"
    by (simp add: d toordinal_def k_def y days_before_year_cycles)
  have r: "int (Y mod 400 div 100) < 4" "int (Y mod 100 div 4) < 25" "int (Y mod 4) < 4"
    using year_cycles(4-6) [of Y] by simp_all
  have lp: "is_leap y \<longleftrightarrow> int (Y mod 4) = 3 \<and> (int (Y mod 100 div 4) \<noteq> 24 \<or> int (Y mod 400 div 100) = 3)"
    unfolding y leap_cycles by linarith
  have kc: "k < 365 \<or> (k = 365 \<and> int (Y mod 4) = 3 \<and> (int (Y mod 100 div 4) \<noteq> 24 \<or> int (Y mod 400 div 100) = 3))"
    using k lp by (auto split: if_splits)
  have yr: "400 * int (Y div 400) + 100 * int (Y mod 400 div 100) + 4 * int (Y mod 100 div 4) + int (Y mod 4) + 1 = int y"
    using arg_cong [OF year_cycles(1) [of Y], of int] y by simp
  have cyc: "ord2ymd (toordinal d) =
      (if k = 365 then (int y, 12, 31)
       else ord2ymd_month (int y) (is_leap y) k)"
    using ord2ymd_cycles [of "int (Y div 400)" "int (Y mod 400 div 100)" "int (Y mod 100 div 4)" "int (Y mod 4)" k,
        OF of_nat_0_le_iff of_nat_0_le_iff r(1) of_nat_0_le_iff r(2) of_nat_0_le_iff r(3) k(1) kc]
    unfolding o yr lp [symmetric] .
  show ?thesis
  proof (cases "k = 365")
    case True
    then have "m = 12 \<and> dd = 31"
      using last_day_of_leap_year [OF v(2,3,5)] by (simp add: k_def)
    then show ?thesis using cyc True by (simp add: fromordinal_def d)
  next
    case False
    have "ord2ymd_month (int y) (is_leap y) k = (int y, int m, int dd)"
      unfolding k_def by (rule month_part [OF v(2-5)])
    then show ?thesis using cyc False by (simp add: fromordinal_def d)
  qed
qed

lemma toordinal_fromordinal:
  assumes "1 \<le> n" and "n \<le> MAXORDINAL"
  shows "valid_date (fromordinal n) \<and> toordinal (fromordinal n) = n"
proof -
  have v1: "valid_date (Date 1 1 1)" and o1: "toordinal (Date 1 1 1) = 1"
    by (simp_all add: calendar_simps)
  let ?d = "(succ_date ^^ nat (n - 1)) (Date 1 1 1)"
  have "toordinal (Date 1 1 1) + int (nat (n - 1)) \<le> MAXORDINAL" using assms o1 by simp
  then have d: "valid_date ?d" "toordinal ?d = n"
    using funpow_succ_date [OF v1] o1 assms(1) by simp_all
  then have "fromordinal n = ?d" using fromordinal_toordinal [OF d(1)] by simp
  then show ?thesis using d by simp
qed

subsection \<open>Adding one day\<close>

lemma toordinal_pos:
  assumes "valid_date d"
  shows "0 < toordinal d"
proof -
  obtain Y where y: "year d = Suc Y" using assms by (cases "year d") (auto simp: valid_date_def MINYEAR_def)
  have "0 \<le> days_before_year (year d)" unfolding y days_before_year_cycles by simp
  moreover have "1 \<le> day d" using assms by (simp add: valid_date_def)
  ultimately show ?thesis by (simp add: toordinal_def)
qed

lemma add_one_day_valid:
  assumes "valid_date d" and "d \<noteq> Date MAXYEAR 12 31"
  shows "add_one_day d = Inr (succ_date d)"
proof -
  have v: "valid_date (succ_date d)" by (rule valid_date_succ [OF assms])
  have o: "toordinal (succ_date d) = toordinal d + 1" by (rule toordinal_succ_date [OF assms(1)])
  have "toordinal d + 1 \<le> MAXORDINAL" using toordinal_le_max [OF assms(1)] assms(2) by auto
  then show ?thesis
    using toordinal_pos [OF assms(1)] fromordinal_toordinal [OF v] o by (simp add: add_one_day_def Let_def)
qed

lemma add_one_day_max: "add_one_day (Date MAXYEAR 12 31) = Inl OverflowError"
  by (simp add: add_one_day_def Let_def calendar_simps)

text \<open>Adding one day to a valid date raises OverflowError exactly at \<open>date.max\<close>
  (9999-12-31); otherwise it yields the unique valid date whose ordinal is one more, which
  is what CPython's \<open>fromordinal(toordinal() + 1)\<close> computes, and that date is later.\<close>

theorem add_one_day_correct:
  assumes "valid_date d"
  shows "(d = Date MAXYEAR 12 31 \<longrightarrow> add_one_day d = Inl OverflowError) \<and>
         (d \<noteq> Date MAXYEAR 12 31 \<longrightarrow>
            (\<exists>d'. add_one_day d = Inr d' \<and> valid_date d' \<and> toordinal d' = toordinal d + 1 \<and> d < d' \<and>
                  (\<forall>e. valid_date e \<longrightarrow> toordinal e = toordinal d + 1 \<longrightarrow> e = d')))"
proof (intro conjI impI)
  assume "d = Date MAXYEAR 12 31"
  then show "add_one_day d = Inl OverflowError"
    using add_one_day_max by simp
next
  assume ne: "d \<noteq> Date MAXYEAR 12 31"
  have v: "valid_date (succ_date d)" using valid_date_succ [OF assms ne] .
  have o: "toordinal (succ_date d) = toordinal d + 1" using toordinal_succ_date [OF assms] .
  show "\<exists>d'. add_one_day d = Inr d' \<and> valid_date d' \<and> toordinal d' = toordinal d + 1 \<and> d < d' \<and>
          (\<forall>e. valid_date e \<longrightarrow> toordinal e = toordinal d + 1 \<longrightarrow> e = d')"
  proof (intro exI conjI allI impI)
    show "add_one_day d = Inr (succ_date d)" by (rule add_one_day_valid [OF assms ne])
    show "valid_date (succ_date d)" by (rule v)
    show "toordinal (succ_date d) = toordinal d + 1" by (rule o)
    show "d < succ_date d" by (rule succ_date_greater [OF assms ne])
  next
    fix e
    assume "valid_date e" and "toordinal e = toordinal d + 1"
    then show "e = succ_date d" using toordinal_inj [OF _ v] o by simp
  qed
qed

theorem add_one_day_correct_witness:
  "valid_date (Date 2015 12 31) \<and> add_one_day (Date 2015 12 31) = Inr (Date 2016 1 1) \<and>
   valid_date (Date 9999 12 31) \<and> add_one_day (Date 9999 12 31) = Inl OverflowError"
proof -
  have v1: "valid_date (Date 2015 12 31)" and v2: "valid_date (Date 9999 12 31)"
    by (simp_all add: valid_date_def calendar_simps)
  have "add_one_day (Date 9999 12 31) = Inl OverflowError"
    using add_one_day_correct [OF v2] by (simp add: MAXYEAR_def)
  moreover obtain d' where a: "add_one_day (Date 2015 12 31) = Inr d'"
    and u: "\<forall>e. valid_date e \<longrightarrow> toordinal e = toordinal (Date 2015 12 31) + 1 \<longrightarrow> e = d'"
    using add_one_day_correct [OF v1] by (auto simp: MAXYEAR_def)
  moreover have "Date 2016 1 1 = d'" using u by (simp add: calendar_simps)
  ultimately show ?thesis using v1 v2 by simp
qed

end
