(* ===== verification/DayProfile.thy ===== *)
theory DayProfile
  imports ProfileTable Dynamizer Ordinal
begin

text \<open>
  The series of one day in \<open>src/src/load_profiles.py\<close>: \<open>load_profile_for_day\<close>
  with its helper \<open>combine_day_time\<close>, which stamps each time of day of the selected
  column with the date (the row 24:00 read as 00:00 of the next day, through the literal
  ordinal arithmetic \<open>add_one_day\<close> of theory Ordinal), and the dynamization of
  each value, which needs the mapped index to be a DatetimeIndex, that is every timestamp
  inside pandas' Timestamp range. The lemmas give the timestamps and their order, the 96
  values, the error paths (unknown column, empty or out-of-range index, overflow past the
  last day of the calendar) and the series expected by the specification. The integer width of pandas' \<open>dayofyear\<close>
  field is the type argument \<open>'w\<close>, passed as \<open>TYPE('w)\<close>.
\<close>

text \<open>
  Lines 87--92: \<open>combine_day_time\<close>; the time 00:00 (the row 24:00 of the table) is
  moved to the next day, which raises OverflowError past \<open>date.max\<close>.
\<close>

definition combine_day_time :: "date \<Rightarrow> time \<Rightarrow> py_error + datetime" where
  "combine_day_time d t =
     (let dt = DateTime d t
      in if t = Time 0 0 then bind_sum (add_one_day d) (\<lambda>d'. Inr (DateTime d' t)) else Inr dt)"

text \<open>Line 94: \<open>df.index = df.index.map(combine_day_time)\<close>.\<close>

definition map_index :: "date \<Rightarrow> time series \<Rightarrow> py_error + datetime series" where
  "map_index d df = map_sum (\<lambda>(t, x). bind_sum (combine_day_time d t) (\<lambda>dt. Inr (dt, x))) df"

text \<open>Minutes since the proleptic epoch: the position of a timestamp on the time axis.\<close>

definition dt_minutes :: "datetime \<Rightarrow> int" where
  "dt_minutes dt = toordinal (dt_date dt) * 1440 + int (hour (dt_time dt) * 60 + minute (dt_time dt))"

text \<open>
  pandas' Timestamp range (nanoseconds since 1970 in an int64): from 1677-09-21 00:12:43.145224193
  to 2262-04-11 23:47:16.854775807. \<open>Index.map\<close> makes a DatetimeIndex only when every
  value lies in it; otherwise the index keeps dtype object and has no \<open>dayofyear\<close>
  (pandas 1.x and 2.x). A timestamp of this model has whole minutes, so it lies in the range
  when its day is strictly inside the two end days, or it is at or after 00:13 on the first
  one, or at or before 23:47 on the last one.
\<close>

definition pd_timestamp_ok :: "datetime \<Rightarrow> bool" where
  "pd_timestamp_ok dt =
     (let od = toordinal (dt_date dt); m = hour (dt_time dt) * 60 + minute (dt_time dt)
      in (toordinal (Date 1677 9 21) < od \<or> od = toordinal (Date 1677 9 21) \<and> 13 \<le> m) \<and>
         (od < toordinal (Date 2262 4 11) \<or> od = toordinal (Date 2262 4 11) \<and> m \<le> 1427))"

text \<open>
  Lines 51--99: \<open>load_profile_for_day\<close>. The column lookup \<open>profile_df[season][weekday]\<close>
  raises KeyError when the column is missing; \<open>df.index.dayofyear[0]\<close> reads the day
  of the year of the first timestamp. It raises AttributeError when the mapped index is not
  a DatetimeIndex: when a timestamp lies outside pandas' range, or the index is empty
  (dtype object).
\<close>

definition load_profile_for_day ::
  "'w::len itself \<Rightarrow> (date \<Rightarrow> bool) \<Rightarrow> date \<Rightarrow> profile_table \<Rightarrow> bool \<Rightarrow> py_error + datetime series" where
  "load_profile_for_day w is_holiday d profile_df dynamize =
     (case profile_df (season_of d, weekday_of is_holiday d) of
        None \<Rightarrow> Inl KeyError
      | Some df \<Rightarrow>
          bind_sum (map_index d df) (\<lambda>df.
            if dynamize then
              (if list_all (pd_timestamp_ok \<circ> fst) df then
                 (case df of
                    [] \<Rightarrow> Inl AttributeError
                  | (dt, _) # _ \<Rightarrow> Inr (dynamize_day df (word_of_nat (dayofyear (dt_date dt)) :: 'w word)))
               else Inl AttributeError)
            else Inr df))"

text \<open>
  What the specification (section 4.3, steps 1--3) expects as the values of one day:
  the column of the day's (season, day type), scaled by the factor of its day of the year
  when dynamization is on.
\<close>

definition expected_day_values ::
  "'w::len itself \<Rightarrow> (date \<Rightarrow> bool) \<Rightarrow> profile_table \<Rightarrow> bool \<Rightarrow> date \<Rightarrow> real list" where
  "expected_day_values w is_holiday t dynamize d =
     (case t (season_of d, weekday_of is_holiday d) of
        None \<Rightarrow> []
      | Some df \<Rightarrow> if dynamize
                   then map (\<lambda>x. x * dynamization_value (word_of_nat (dayofyear d) :: 'w word)) (map snd df)
                   else map snd df)"

text \<open>
  The same with the exact polynomial of the specification (section 4.2) over unbounded
  integers, for the dynamized type H0.
\<close>

definition spec_day_values :: "(date \<Rightarrow> bool) \<Rightarrow> profile_table \<Rightarrow> date \<Rightarrow> real list" where
  "spec_day_values is_holiday t d =
     (case t (season_of d, weekday_of is_holiday d) of
        None \<Rightarrow> []
      | Some df \<Rightarrow> map (\<lambda>x. x * dynamization_poly (int (dayofyear d))) (map snd df))"

text \<open>Position of a table time within the day, with 00:00 (the row 24:00) at its end.\<close>

definition qmin :: "time \<Rightarrow> nat" where
  "qmin t = (if t = Time 0 0 then 1440 else hour t * 60 + minute t)"

text \<open>
  Days whose timestamps all lie in pandas' range whatever the times of the column: the day
  and the midnight that ends it are strictly inside 1677-09-21 .. 2262-04-11.
\<close>

definition pd_day_ok :: "date \<Rightarrow> bool" where
  "pd_day_ok d = (toordinal (Date 1677 9 21) < toordinal d \<and> toordinal d < toordinal (Date 2262 4 11))"

subsection \<open>Timestamps of one day\<close>

lemma combine_day_time_Inr:
  assumes "valid_date d" and "d \<noteq> Date MAXYEAR 12 31"
  shows "combine_day_time d t = Inr (DateTime (if t = Time 0 0 then succ_date d else d) t)"
  using add_one_day_valid [OF assms] by (simp add: combine_day_time_def)

lemma dt_minutes_stamp:
  assumes "valid_date d"
  shows "dt_minutes (DateTime (if t = Time 0 0 then succ_date d else d) t) = toordinal d * 1440 + int (qmin t)"
  using toordinal_succ_date [OF assms] by (simp add: dt_minutes_def qmin_def algebra_simps)

lemma qmin_quarter:
  assumes "1 \<le> i" and "i \<le> 96"
  shows "qmin (Time (i div 4 mod 24) (15 * i mod 60)) = 15 * i"
proof -
  have m: "15 * i mod 60 = 15 * (i mod 4)"
    using mult_mod_right [of 15 i 4] by simp
  show ?thesis
  proof (cases "i = 96")
    case True
    then show ?thesis by (simp add: qmin_def)
  next
    case False
    with assms have "i div 4 < 24" by simp
    moreover have "\<not> (i div 4 = 0 \<and> i mod 4 = 0)" using assms(1) by auto
    moreover have "i div 4 * 60 + 15 * (i mod 4) = 15 * i"
      using div_mult_mod_eq [of i 4] by linarith
    ultimately show ?thesis by (simp add: qmin_def m)
  qed
qed

lemma map_qmin_quarter_hours: "map qmin quarter_hours = map (\<lambda>i. 15 * i) [1..<97]"
  by (auto simp: quarter_hours_def qmin_quarter)

lemma map_index_Inr:
  assumes "valid_date d" and "d \<noteq> Date MAXYEAR 12 31"
  shows "map_index d df =
           Inr (map (\<lambda>(t, x). (DateTime (if t = Time 0 0 then succ_date d else d) t, x)) df)"
  unfolding map_index_def
  by (rule map_sum_map) (auto simp: combine_day_time_Inr [OF assms])

lemma pd_day_ok_not_max: "pd_day_ok d \<Longrightarrow> d \<noteq> Date MAXYEAR 12 31"
  by (auto simp: pd_day_ok_def toordinal_def days_before_year_def days_before_month_def MAXYEAR_def is_leap_def)

lemma stamp_pd_ok:
  assumes "valid_date d" and "pd_day_ok d"
  shows "pd_timestamp_ok (DateTime (if t = Time 0 0 then succ_date d else d) t)"
  using toordinal_succ_date [OF assms(1)] assms(2) by (auto simp: pd_timestamp_ok_def pd_day_ok_def Let_def)

lemma map_index_pd_ok:
  assumes "valid_date d" and "pd_day_ok d"
  shows "list_all (pd_timestamp_ok \<circ> fst) (map (\<lambda>(t, x). (DateTime (if t = Time 0 0 then succ_date d else d) t, x)) df)"
  using stamp_pd_ok [OF assms] by (simp add: list_all_iff case_prod_beta)

lemma dynamize_day_map [simp]:
  "map fst (dynamize_day ser v) = map fst ser"
  "map snd (dynamize_day ser v) = map (\<lambda>x. x * dynamization_value v) (map snd ser)"
  by (simp_all add: dynamize_day_def Let_def case_prod_beta)

lemma load_profile_for_day_Inr:
  assumes "valid_date d" and "pd_day_ok d"
    and "profile_df (season_of d, weekday_of is_holiday d) = Some df" and "map fst df = quarter_hours"
  shows "\<exists>s. load_profile_for_day (w :: 'w::len itself) is_holiday d profile_df dynamize = Inr s \<and>
           map fst s = map (\<lambda>t. DateTime (if t = Time 0 0 then succ_date d else d) t) quarter_hours \<and>
           map snd s = (if dynamize
                        then map (\<lambda>x. x * dynamization_value (word_of_nat (dayofyear d) :: 'w word)) (map snd df)
                        else map snd df)"
proof -
  define stamp where "stamp = (\<lambda>t. DateTime (if t = Time 0 0 then succ_date d else d) t)"
  let ?s = "map (\<lambda>(t, x). (stamp t, x)) df"
  have "map fst ?s = map stamp (map fst df)" by (induction df) auto
  then have fst_s: "map fst ?s = map stamp quarter_hours" using assms(4) by simp
  have snd_s: "map snd ?s = map snd df" by (simp add: case_prod_beta)
  have "length df = 96" using arg_cong [OF assms(4), of length] by simp
  then obtain p ps where df: "df = p # ps" by (cases df) auto
  have "fst p = Time 0 15"
    using arg_cong [OF assms(4), of "\<lambda>xs. xs ! 0"] quarter_hours_first by (simp add: df)
  then have hd_s: "?s = (DateTime d (Time 0 15), snd p) # map (\<lambda>(t, x). (stamp t, x)) ps"
    by (simp add: df case_prod_beta stamp_def)
  have mi: "map_index d df = Inr ?s"
    unfolding stamp_def by (rule map_index_Inr [OF assms(1) pd_day_ok_not_max [OF assms(2)]])
  have ok: "list_all (pd_timestamp_ok \<circ> fst) ?s"
    unfolding stamp_def by (rule map_index_pd_ok [OF assms(1,2)])
  show ?thesis
  proof (cases dynamize)
    case True
    have "load_profile_for_day w is_holiday d profile_df dynamize =
            Inr (dynamize_day ?s (word_of_nat (dayofyear d) :: 'w word))"
      using assms(3) mi ok hd_s True by (simp add: load_profile_for_day_def)
    then show ?thesis using True fst_s snd_s by (simp add: stamp_def)
  next
    case False
    have "load_profile_for_day w is_holiday d profile_df dynamize = Inr ?s"
      using assms(3) mi False by (simp add: load_profile_for_day_def)
    then show ?thesis using False fst_s snd_s by (simp add: stamp_def)
  qed
qed

lemma sorted_wrt_quarters: "sorted_wrt (<) (map (\<lambda>k. c + 15 * int k) [a..<b])"
  by (simp add: sorted_wrt_map sorted_wrt_mono_rel [OF _ sorted_wrt_upt])

lemma minutes_of_day:
  assumes "valid_date d"
  shows "map (dt_minutes \<circ> (\<lambda>t. DateTime (if t = Time 0 0 then succ_date d else d) t)) quarter_hours =
           map (\<lambda>i. toordinal d * 1440 + 15 * int i) [1..<97]"
proof -
  have "map (dt_minutes \<circ> (\<lambda>t. DateTime (if t = Time 0 0 then succ_date d else d) t)) quarter_hours =
          map (\<lambda>m. toordinal d * 1440 + int m) (map qmin quarter_hours)"
    by (simp add: dt_minutes_stamp [OF assms] comp_def)
  also have "\<dots> = map (\<lambda>i. toordinal d * 1440 + 15 * int i) [1..<97]"
    by (simp add: map_qmin_quarter_hours)
  finally show ?thesis .
qed

lemma expected_day_values_int64:
  assumes "valid_date d"
  shows "expected_day_values TYPE(64) is_holiday t True d = spec_day_values is_holiday t d"
proof -
  let ?n = "int (dayofyear d)"
  have b: "1 \<le> ?n" "?n \<le> 366" using dayofyear_366 [OF assms] by simp_all
  have "dynamization_value (word_of_int ?n :: 64 word) = dynamization_poly ?n"
    by (rule dynamization_value_64 [OF b])
  then show ?thesis by (simp add: expected_day_values_def spec_day_values_def split: option.splits)
qed

lemma dynamize_values_range:
  assumes "valid_date d" and "t (season_of d, weekday_of is_holiday d) = Some df"
    and "\<forall>x\<in>set df. 0 \<le> snd x"
  shows "list_all2 (\<lambda>x y. 39 / 50 * y \<le> x \<and> x \<le> 63 / 50 * y)
           (expected_day_values TYPE(64) is_holiday t True d) (expected_day_values TYPE(64) is_holiday t False d)"
proof -
  let ?n = "int (dayofyear d)"
  have b: "1 \<le> ?n" "?n \<le> 366" using dayofyear_366 [OF assms(1)] by simp_all
  define v where "v = dynamization_value (word_of_nat (dayofyear d) :: 64 word)"
  have v: "39 / 50 \<le> v" "v \<le> 63 / 50"
    using dynamization_value_64 [OF b] dynamization_poly_range [OF b] by (simp_all add: v_def)
  have "39 / 50 * y \<le> y * v \<and> y * v \<le> 63 / 50 * y" if "0 \<le> y" for y :: real
    using mult_left_mono [OF v(1) that] mult_left_mono [OF v(2) that] by (simp add: mult.commute)
  then show ?thesis using assms(2,3)
    by (simp add: expected_day_values_def list_all2_map1 list_all2_map2 list.rel_refl_strong v_def [symmetric])
qed

lemma day_values_length:
  assumes "wf_table t"
  shows "length (expected_day_values w is_holiday t dyn d) = 96 \<and> length (spec_day_values is_holiday t d) = 96"
proof -
  obtain df where df: "t (season_of d, weekday_of is_holiday d) = Some df" "map fst df = quarter_hours"
    using wf_table_lookup [OF assms] by blast
  have "length df = 96" using arg_cong [OF df(2), of length] by simp
  with df(1) show ?thesis by (simp add: expected_day_values_def spec_day_values_def)
qed

lemma map_index_overflow:
  assumes "Time 0 0 \<in> fst ` set df"
  shows "map_index (Date MAXYEAR 12 31) df = Inl OverflowError"
  using assms
proof (induction df)
  case Nil
  then show ?case by simp
next
  case (Cons p ps)
  have ovf: "add_one_day (Date MAXYEAR 12 31) = Inl OverflowError" by (rule add_one_day_max)
  show ?case
  proof (cases "fst p = Time 0 0")
    case True
    then show ?thesis using ovf by (simp add: map_index_def combine_day_time_def case_prod_beta)
  next
    case False
    with Cons have "map_index (Date MAXYEAR 12 31) ps = Inl OverflowError" by simp
    with False show ?thesis by (simp add: map_index_def combine_day_time_def case_prod_beta)
  qed
qed

text \<open>C19 The error paths of \<open>load_profile_for_day\<close>: a missing column raises KeyError; an
  empty column with dynamization has no \<open>dayofyear\<close> to read; on \<open>date.max\<close> the
  24:00 row cannot be moved to the next day and raises OverflowError.\<close>

theorem load_profile_for_day_errors:
  "(profile_df (season_of d, weekday_of is_holiday d) = None \<longrightarrow>
      load_profile_for_day w is_holiday d profile_df dynamize = Inl KeyError) \<and>
   (profile_df (season_of d, weekday_of is_holiday d) = Some [] \<longrightarrow>
      load_profile_for_day w is_holiday d profile_df True = Inl AttributeError) \<and>
   (profile_df (season_of d, weekday_of is_holiday d) = Some df \<and> d = Date MAXYEAR 12 31 \<and>
    Time 0 0 \<in> fst ` set df \<longrightarrow>
      load_profile_for_day w is_holiday d profile_df dynamize = Inl OverflowError)"
proof (intro conjI impI)
  assume "profile_df (season_of d, weekday_of is_holiday d) = None"
  then show "load_profile_for_day w is_holiday d profile_df dynamize = Inl KeyError"
    by (simp add: load_profile_for_day_def)
next
  assume "profile_df (season_of d, weekday_of is_holiday d) = Some []"
  then show "load_profile_for_day w is_holiday d profile_df True = Inl AttributeError"
    by (simp add: load_profile_for_day_def map_index_def)
next
  assume a: "profile_df (season_of d, weekday_of is_holiday d) = Some df \<and> d = Date MAXYEAR 12 31 \<and>
    Time 0 0 \<in> fst ` set df"
  from a have lk: "profile_df (season_of d, weekday_of is_holiday d) = Some df" by blast
  from a have dd: "d = Date MAXYEAR 12 31" by blast
  from a have m: "Time 0 0 \<in> fst ` set df" by blast
  have "map_index d df = Inl OverflowError" using map_index_overflow [OF m] dd by simp
  with lk show "load_profile_for_day w is_holiday d profile_df dynamize = Inl OverflowError"
    by (simp add: load_profile_for_day_def)
qed

theorem load_profile_for_day_errors_witness:
  "load_profile_for_day TYPE(64) (\<lambda>_. False) (Date 2015 1 2) (\<lambda>_. None) False = Inl KeyError \<and>
   load_profile_for_day TYPE(64) (\<lambda>_. False) (Date 2015 1 2) (\<lambda>_. Some []) True = Inl AttributeError \<and>
   load_profile_for_day TYPE(64) (\<lambda>_. False) (Date 9999 12 31) (\<lambda>_. Some [(Time 0 0, 1)]) False = Inl OverflowError"
proof -
  note e1 = load_profile_for_day_errors [of "\<lambda>_. None" "Date 2015 1 2" "\<lambda>_. False" "TYPE(64)" False]
  note e2 = load_profile_for_day_errors [of "\<lambda>_. Some []" "Date 2015 1 2" "\<lambda>_. False" "TYPE(64)"]
  note e3 = load_profile_for_day_errors [of "\<lambda>_. Some [(Time 0 0, 1)]" "Date 9999 12 31" "\<lambda>_. False" "TYPE(64)" False]
  show ?thesis using e1 e2 e3 by (simp add: MAXYEAR_def)
qed

text \<open>C18 The rollover rule of \<open>combine_day_time\<close>: every time of day other than 00:00 is
  placed on the given date; 00:00 (the row 24:00) is placed on the next date, and on
  \<open>date.max\<close> the move raises OverflowError.\<close>

theorem combine_day_time_rollover:
  assumes "valid_date d"
  shows "combine_day_time d t =
           (if t \<noteq> Time 0 0 then Inr (DateTime d t)
            else if d = Date MAXYEAR 12 31 then Inl OverflowError
            else Inr (DateTime (succ_date d) t))"
proof (cases "t = Time 0 0 \<and> d = Date MAXYEAR 12 31")
  case True
  then show ?thesis
    using add_one_day_max by (simp add: combine_day_time_def)
next
  case False
  then show ?thesis
    using add_one_day_valid [OF assms] by (auto simp: combine_day_time_def)
qed

theorem combine_day_time_rollover_witness:
  "valid_date (Date 2015 12 31) \<and>
   combine_day_time (Date 2015 12 31) (Time 0 0) = Inr (DateTime (Date 2016 1 1) (Time 0 0)) \<and>
   combine_day_time (Date 2015 12 31) (Time 23 45) = Inr (DateTime (Date 2015 12 31) (Time 23 45))"
proof -
  have v: "valid_date (Date 2015 12 31)" by (simp add: calendar_simps)
  show ?thesis
    using v combine_day_time_rollover [OF v, of "Time 0 0"] combine_day_time_rollover [OF v, of "Time 23 45"]
    by (simp add: calendar_simps)
qed

text \<open>C16 Nothing checks the 96 rows: for a valid day inside pandas' Timestamp range and a
  non-empty column, \<open>load_profile_for_day\<close> returns without an exception exactly as many
  values as the column has rows, so a column shorter than a day yields a shorter day, not
  an error.\<close>

theorem load_profile_for_day_length:
  assumes "valid_date d" and "pd_day_ok d"
    and "profile_df (season_of d, weekday_of is_holiday d) = Some df" and "df \<noteq> []"
  shows "\<exists>s. load_profile_for_day (w :: 'w::len itself) is_holiday d profile_df dynamize = Inr s \<and>
           length s = length df"
proof -
  let ?s = "map (\<lambda>(t, x). (DateTime (if t = Time 0 0 then succ_date d else d) t, x)) df"
  have mi: "map_index d df = Inr ?s" by (rule map_index_Inr [OF assms(1) pd_day_ok_not_max [OF assms(2)]])
  have ok: "list_all (pd_timestamp_ok \<circ> fst) ?s" by (rule map_index_pd_ok [OF assms(1,2)])
  obtain p ps where s: "?s = p # ps" using assms(4) by (cases df) auto
  have "length (dynamize_day ?s v) = length df" for v :: "'w word"
    by (simp add: dynamize_day_def Let_def)
  then show ?thesis
    using assms(3) mi ok s by (cases dynamize) (auto simp: load_profile_for_day_def)
qed

theorem load_profile_for_day_length_witness:
  "valid_date (Date 2015 6 1) \<and> pd_day_ok (Date 2015 6 1) \<and>
   take 95 (map (\<lambda>t. (t, 100::real)) quarter_hours) \<noteq> [] \<and>
   (\<exists>s. load_profile_for_day TYPE(64) (\<lambda>_. False) (Date 2015 6 1)
          (\<lambda>_. Some (take 95 (map (\<lambda>t. (t, 100)) quarter_hours))) True = Inr s \<and> length s = 95)"
proof -
  have h: "valid_date (Date 2015 6 1)" "pd_day_ok (Date 2015 6 1)"
    "take 95 (map (\<lambda>t. (t, 100::real)) quarter_hours) \<noteq> []"
    by (simp_all add: calendar_simps pd_day_ok_def)
  show ?thesis
    using h load_profile_for_day_length [OF h(1,2) _ h(3), of "\<lambda>_. Some (take 95 (map (\<lambda>t. (t, 100)) quarter_hours))"
        "\<lambda>_. False" "TYPE(64)" True] by simp
qed

lemma map_index_Inl:
  "map_index d df = Inl e \<Longrightarrow> e = OverflowError"
  unfolding map_index_def
  by (drule map_sum_Inl_mem)
     (auto simp: combine_day_time_def add_one_day_def Let_def split: if_splits sum.splits)

lemma load_profile_for_day_Inl_iff:
  assumes "valid_date d" and "pd_day_ok d"
  shows "(\<exists>e. load_profile_for_day w is_holiday d t dynamize = Inl e) \<longleftrightarrow>
           (case t (season_of d, weekday_of is_holiday d) of None \<Rightarrow> True | Some df \<Rightarrow> dynamize \<and> df = [])"
proof (cases "t (season_of d, weekday_of is_holiday d)")
  case None
  then show ?thesis by (simp add: load_profile_for_day_def)
next
  case (Some df)
  then show ?thesis
    using map_index_pd_ok [OF assms, of df]
    by (cases df) (auto simp: load_profile_for_day_def map_index_Inr [OF assms(1) pd_day_ok_not_max [OF assms(2)]])
qed

lemma load_profile_for_day_not_ValueError:
  "load_profile_for_day w is_holiday d t dynamize \<noteq> Inl ValueError"
  by (auto simp: load_profile_for_day_def dest: map_index_Inl split: option.splits sum.splits list.splits if_splits)

text \<open>C6 For every valid date inside pandas' Timestamp range and every well-formed table,
  \<open>load_profile_for_day\<close> returns a series of 96 points whose timestamps lie
  15, 30, \<dots>, 1440 minutes after midnight of the day (the last one is 00:00 of the next
  day), strictly increasing, and whose values are the column of the day's season and day
  type, scaled by the factor of the day of the year when dynamization is on.\<close>

theorem load_profile_for_day_spec:
  assumes "valid_date d" and "pd_day_ok d" and "wf_table t"
  shows "\<exists>s. load_profile_for_day (w :: 'w::len itself) is_holiday d t dynamize = Inr s \<and>
           map (dt_minutes \<circ> fst) s = map (\<lambda>i. toordinal d * 1440 + 15 * int i) [1..<97] \<and>
           sorted_wrt (<) (map (dt_minutes \<circ> fst) s) \<and>
           map snd s = expected_day_values w is_holiday t dynamize d"
proof -
  obtain df where df: "t (season_of d, weekday_of is_holiday d) = Some df" "map fst df = quarter_hours"
    using wf_table_lookup [OF assms(3)] by blast
  obtain s where s: "load_profile_for_day w is_holiday d t dynamize = Inr s"
    "map fst s = map (\<lambda>t. DateTime (if t = Time 0 0 then succ_date d else d) t) quarter_hours"
    "map snd s = (if dynamize
                  then map (\<lambda>x. x * dynamization_value (word_of_nat (dayofyear d) :: 'w word)) (map snd df)
                  else map snd df)"
    using load_profile_for_day_Inr [where profile_df = t and is_holiday = is_holiday, OF assms(1,2) df] by blast
  have m: "map (dt_minutes \<circ> fst) s = map (\<lambda>i. toordinal d * 1440 + 15 * int i) [1..<97]"
    using minutes_of_day [OF assms(1)] arg_cong [OF s(2), of "map dt_minutes"] by simp
  show ?thesis
    using s(1,3) m df(1) sorted_wrt_quarters by (intro exI [of _ s]) (simp add: expected_day_values_def)
qed

theorem load_profile_for_day_spec_witness:
  "valid_date (Date 2016 2 29) \<and> pd_day_ok (Date 2016 2 29) \<and>
   wf_table (\<lambda>_. Some (map (\<lambda>t. (t, 100::real)) quarter_hours)) \<and>
   (\<exists>s. load_profile_for_day TYPE(64) (\<lambda>_. False) (Date 2016 2 29) (\<lambda>_. Some (map (\<lambda>t. (t, 100)) quarter_hours)) False = Inr s \<and>
       dt_minutes (fst (last s)) = toordinal (Date 2016 3 1) * 1440 \<and> map snd s = replicate 96 100)"
proof -
  have h: "valid_date (Date 2016 2 29)" "pd_day_ok (Date 2016 2 29)"
    "wf_table (\<lambda>_. Some (map (\<lambda>t. (t, 100::real)) quarter_hours))"
    by (simp_all add: calendar_simps pd_day_ok_def flat_table_wf)
  obtain s where s: "load_profile_for_day TYPE(64) (\<lambda>_. False) (Date 2016 2 29) (\<lambda>_. Some (map (\<lambda>t. (t, 100)) quarter_hours)) False = Inr s"
    "map (dt_minutes \<circ> fst) s = map (\<lambda>i. toordinal (Date 2016 2 29) * 1440 + 15 * int i) [1..<97]"
    "map snd s = expected_day_values TYPE(64) (\<lambda>_. False) (\<lambda>_. Some (map (\<lambda>t. (t, 100)) quarter_hours)) False (Date 2016 2 29)"
    using load_profile_for_day_spec [OF h] by blast
  have "last (map (dt_minutes \<circ> fst) s) = toordinal (Date 2016 3 1) * 1440"
    unfolding s(2) by (simp add: calendar_simps last_map last_upt)
  moreover have "s \<noteq> []" using arg_cong [OF s(2), of length] by auto
  ultimately have "\<exists>s. load_profile_for_day TYPE(64) (\<lambda>_. False) (Date 2016 2 29)
      (\<lambda>_. Some (map (\<lambda>t. (t, 100)) quarter_hours)) False = Inr s \<and>
      dt_minutes (fst (last s)) = toordinal (Date 2016 3 1) * 1440 \<and> map snd s = replicate 96 100"
    using s(1,3) by (intro exI [of _ s]) (simp add: last_map expected_day_values_def comp_def map_replicate_const)
  with h show ?thesis by blast
qed

end
