(* ===== verification/Assembler.thy ===== *)
theory Assembler
  imports DayProfile
begin

text \<open>
  The assembly of a load profile in \<open>src/src/load_profiles.py\<close>:
  \<open>get_load_profile\<close>, its loop over \<open>pd.date_range\<close> (with pandas' Timestamp bound
  on the ends) and \<open>pd.concat\<close>. The lemmas give the assembled year and the order of its
  timestamps, the exact error paths, and how the integer width of the day of the year
  shows in the series.
\<close>

text \<open>
  Line 122: \<open>pd.date_range(start, end, freq="D")\<close>, the days from \<open>start\<close> to \<open>end\<close>
  inclusive (none when \<open>end\<close> precedes \<open>start\<close>), generated by stepping one day at a
  time while the day does not pass \<open>end\<close>. The loop ends on every pair of dates, valid or
  not: each step raises the day within its month, or the month within its year, or the year
  up to that of \<open>end\<close> (the lexicographic measure below).
\<close>

function date_range :: "date \<Rightarrow> date \<Rightarrow> date list" where
  "date_range start stop = (if stop < start then [] else start # date_range (succ_date start) stop)"
  by pat_completeness auto
termination
proof (relation "measures [\<lambda>(s, e). Suc (year e) - year s, \<lambda>(s, e). 12 - month s,
                           \<lambda>(s, e). days_in_month (year s) (month s) - day s]")
  fix s e :: date
  assume "\<not> e < s"
  then have "year s \<le> year e" by (auto simp: less_eq_date_def not_less)
  then show "((succ_date s, e), s, e) \<in> measures [\<lambda>(s, e). Suc (year e) - year s, \<lambda>(s, e). 12 - month s,
                           \<lambda>(s, e). days_in_month (year s) (month s) - day s]"
    by (auto simp: succ_date_def)
qed simp

declare date_range.simps [simp del]

text \<open>
  \<open>pd.date_range(start, end)\<close> converts both ends to Timestamps first, which raises
  OutOfBoundsDatetime for a date whose midnight lies outside pandas' Timestamp range;
  then it enumerates the days.
\<close>

definition pd_date_range :: "date \<Rightarrow> date \<Rightarrow> py_error + date list" where
  "pd_date_range start stop =
     (if pd_timestamp_ok (DateTime start (Time 0 0)) \<and> pd_timestamp_ok (DateTime stop (Time 0 0))
      then Inr (date_range start stop) else Inl OutOfBoundsDatetime)"

text \<open>The reference enumeration: \<open>n\<close> consecutive days from \<open>d\<close>.\<close>

fun days_from :: "date \<Rightarrow> nat \<Rightarrow> date list" where
  "days_from d 0 = []"
| "days_from d (Suc n) = d # days_from (succ_date d) n"

text \<open>
  Lines 121--123: the loop \<open>for day in ...: daily_profiles.append(load_profile_for_day(...))\<close>,
  starting from \<open>daily_profiles = []\<close>; an exception of one day ends the whole loop.
\<close>

fun daily_profiles_loop ::
  "'w::len itself \<Rightarrow> (date \<Rightarrow> bool) \<Rightarrow> profile_table \<Rightarrow> bool \<Rightarrow> datetime series list \<Rightarrow> date list \<Rightarrow>
   py_error + datetime series list" where
  "daily_profiles_loop w is_holiday profile_df dynamize daily_profiles [] = Inr daily_profiles"
| "daily_profiles_loop w is_holiday profile_df dynamize daily_profiles (d # days) =
     bind_sum (load_profile_for_day w is_holiday d profile_df dynamize)
       (\<lambda>s. daily_profiles_loop w is_holiday profile_df dynamize (daily_profiles @ [s]) days)"

text \<open>Line 125: \<open>pd.concat\<close>, which raises ValueError on an empty list.\<close>

definition concat_series :: "'i series list \<Rightarrow> py_error + 'i series" where
  "concat_series xs = (if xs = [] then Inl ValueError else Inr (concat xs))"

text \<open>
  Lines 102--125: \<open>get_load_profile\<close>. The arguments \<open>from_\<close> (here \<open>from'\<close>) and \<open>to\<close> are not
  used: the loop always runs over the days of 2015.
\<close>

definition get_load_profile ::
  "'w::len itself \<Rightarrow> (date \<Rightarrow> bool) \<Rightarrow> workbook \<Rightarrow> date \<Rightarrow> date \<Rightarrow> string \<Rightarrow> py_error + datetime series" where
  "get_load_profile w is_holiday fp from' to type =
     bind_sum (get_profile_from_file fp type) (\<lambda>profile_df.
       let dynamize = (type = ''H0'') in
       bind_sum (pd_date_range (Date 2015 1 1) (Date 2015 12 31)) (\<lambda>days.
         bind_sum (daily_profiles_loop w is_holiday profile_df dynamize [] days) concat_series))"

lemma minutes_append_day:
  "map (\<lambda>i. b * 1440 + 15 * int i) [1..<97] @ map (\<lambda>k. (b + 1) * 1440 + 15 * int k) [1..<96 * n + 1] =
   map (\<lambda>k. b * 1440 + 15 * int k) [1..<96 * Suc n + 1]"
proof -
  have split: "[1..<96 * Suc n + 1] = [1..<97] @ [1 + 96..<(96 * n + 1) + 96]"
    using upt_add_eq_append [of 1 97 "96 * n"] by (simp add: algebra_simps del: upt_Suc)
  have shift: "map (\<lambda>k. b * 1440 + 15 * int k) [1 + 96..<(96 * n + 1) + 96] =
                 map (\<lambda>k. (b + 1) * 1440 + 15 * int k) [1..<96 * n + 1]"
    unfolding map_upt_shift by (simp add: algebra_simps del: upt_Suc)
  show ?thesis unfolding split map_append shift ..
qed

lemma series_of_days:
  assumes "valid_date s" and "toordinal (Date 1677 9 21) < toordinal s"
    and "toordinal s + int n \<le> toordinal (Date 2262 4 11)" and "wf_table t"
  shows "\<exists>ss. map_sum (\<lambda>day. load_profile_for_day (w :: 'w::len itself) is_holiday day t dynamize) (days_from s n) = Inr ss \<and>
          length ss = n \<and>
          map snd (concat ss) = concat (map (expected_day_values w is_holiday t dynamize) (days_from s n)) \<and>
          map (dt_minutes \<circ> fst) (concat ss) = map (\<lambda>k. toordinal s * 1440 + 15 * int k) [1..<96 * n + 1] \<and>
          (0 < n \<longrightarrow> fst (hd (concat ss)) = DateTime s (Time 0 15) \<and>
             (\<exists>e. valid_date e \<and> toordinal e = toordinal s + int n \<and> fst (last (concat ss)) = DateTime e (Time 0 0)))"
  using assms(1-3)
proof (induction n arbitrary: s)
  case 0
  then show ?case by simp
next
  case (Suc n)
  have pd: "pd_day_ok s" using Suc.prems(2,3) by (simp add: pd_day_ok_def)
  have ne: "s \<noteq> Date MAXYEAR 12 31" by (rule pd_day_ok_not_max [OF pd])
  have vs: "valid_date (succ_date s)" and os: "toordinal (succ_date s) = toordinal s + 1"
    using valid_date_succ [OF Suc.prems(1) ne] toordinal_succ_date [OF Suc.prems(1)] by simp_all
  have lo: "toordinal (Date 1677 9 21) < toordinal (succ_date s)" using Suc.prems(2) os by simp
  have room: "toordinal (succ_date s) + int n \<le> toordinal (Date 2262 4 11)" using Suc.prems(3) os by simp
  obtain df where df: "t (season_of s, weekday_of is_holiday s) = Some df" "map fst df = quarter_hours"
    using wf_table_lookup [OF assms(4)] by blast
  obtain x where x: "load_profile_for_day w is_holiday s t dynamize = Inr x"
    and xf: "map fst x = map (\<lambda>t. DateTime (if t = Time 0 0 then succ_date s else s) t) quarter_hours"
    and xv: "map snd x = expected_day_values w is_holiday t dynamize s"
    using load_profile_for_day_Inr [where d = s and profile_df = t and is_holiday = is_holiday and df = df,
        OF Suc.prems(1) pd df] df(1)
    by (auto simp: expected_day_values_def)
  from Suc.IH [OF vs lo room] obtain ss
    where ss: "map_sum (\<lambda>day. load_profile_for_day w is_holiday day t dynamize) (days_from (succ_date s) n) = Inr ss"
    and len: "length ss = n"
    and vals: "map snd (concat ss) = concat (map (expected_day_values w is_holiday t dynamize) (days_from (succ_date s) n))"
    and mins: "map (dt_minutes \<circ> fst) (concat ss) = map (\<lambda>k. toordinal (succ_date s) * 1440 + 15 * int k) [1..<96 * n + 1]"
    and ends: "0 < n \<longrightarrow> (\<exists>e. valid_date e \<and> toordinal e = toordinal (succ_date s) + int n \<and>
                          fst (last (concat ss)) = DateTime e (Time 0 0))"
    by blast
  have xm: "map (dt_minutes \<circ> fst) x = map (\<lambda>i. toordinal s * 1440 + 15 * int i) [1..<97]"
    using minutes_of_day [OF Suc.prems(1)] xf by (simp flip: map_map)
  have xne: "x \<noteq> []" using arg_cong [OF xf, of length] by auto
  have xhd: "fst (hd x) = DateTime s (Time 0 15)"
    using arg_cong [OF xf, of hd] xne quarter_hours_hd_last by (simp add: hd_map)
  have xlast: "fst (last x) = DateTime (succ_date s) (Time 0 0)"
    using arg_cong [OF xf, of last] xne quarter_hours_hd_last by (simp add: last_map)
  have "map (dt_minutes \<circ> fst) (concat (x # ss)) =
          map (\<lambda>i. toordinal s * 1440 + 15 * int i) [1..<97] @
          map (\<lambda>k. (toordinal s + 1) * 1440 + 15 * int k) [1..<96 * n + 1]"
    using xm mins os by (simp del: upt_Suc)
  also have "\<dots> = map (\<lambda>k. toordinal s * 1440 + 15 * int k) [1..<96 * Suc n + 1]"
    by (rule minutes_append_day)
  finally have m: "map (dt_minutes \<circ> fst) (concat (x # ss)) =
                     map (\<lambda>k. toordinal s * 1440 + 15 * int k) [1..<96 * Suc n + 1]" .
  have h: "fst (hd (concat (x # ss))) = DateTime s (Time 0 15)" using xhd xne by simp
  have l: "\<exists>e. valid_date e \<and> toordinal e = toordinal s + int (Suc n) \<and>
             fst (last (concat (x # ss))) = DateTime e (Time 0 0)"
  proof (cases n)
    case 0
    then have "ss = []" using len by simp
    then show ?thesis using xlast vs os 0 by auto
  next
    case (Suc m)
    then have "length (concat ss) = 96 * n"
      using arg_cong [OF mins, of length] by (simp del: upt_Suc)
    then have ne_ss: "concat ss \<noteq> []" using Suc by (metis length_greater_0_conv mult_pos_pos zero_less_Suc zero_less_numeral)
    from ends Suc obtain e where e: "valid_date e" "toordinal e = toordinal (succ_date s) + int n"
      "fst (last (concat ss)) = DateTime e (Time 0 0)" by auto
    have "fst (last (concat (x # ss))) = DateTime e (Time 0 0)" using e(3) ne_ss by simp
    then show ?thesis using e(1,2) os by (intro exI [of _ e]) simp
  qed
  have ms: "map_sum (\<lambda>day. load_profile_for_day w is_holiday day t dynamize) (days_from s (Suc n)) = Inr (x # ss)"
    using x ss by simp
  have len': "length (x # ss) = Suc n" using len by simp
  have v: "map snd (concat (x # ss)) = concat (map (expected_day_values w is_holiday t dynamize) (days_from s (Suc n)))"
    using xv vals by simp
  show ?case using ms len' v m h l by blast
qed

lemma date_range_days_from:
  assumes "valid_date s" and "valid_date e"
  shows "date_range s e = days_from s (nat (toordinal e - toordinal s + 1))"
  using assms
proof (induction s e rule: date_range.induct)
  case (1 s e)
  show ?case
  proof (cases "e < s")
    case True
    then have "toordinal e < toordinal s" using toordinal_less_iff [OF "1.prems"(2,1)] by simp
    then have "nat (toordinal e - toordinal s + 1) = 0" by simp
    then show ?thesis using True by (simp add: date_range.simps)
  next
    case False
    then have le: "toordinal s \<le> toordinal e"
      using toordinal_less_iff [OF "1.prems"(2,1)] by simp
    then obtain n where n: "nat (toordinal e - toordinal s + 1) = Suc n"
      "nat (toordinal e - toordinal (succ_date s) + 1) = n"
      using toordinal_succ_date [OF "1.prems"(1)] by (intro that [of "nat (toordinal e - toordinal s)"]) auto
    show ?thesis
    proof (cases "s = e")
      case True
      then have "e < succ_date s" "n = 0" using n(2) less_succ_date [of s] toordinal_succ_date [OF "1.prems"(1)]
        by simp_all
      then show ?thesis using False n by (simp add: date_range.simps [of s] date_range.simps [of "succ_date s"])
    next
      case ne: False
      then have "s \<noteq> Date MAXYEAR 12 31"
        using False toordinal_le_max [OF "1.prems"(2)] toordinal_less_iff [OF "1.prems"(1,2)] toordinal_le_max [OF "1.prems"(1)]
        by (metis antisym_conv3 linorder_not_le)
      then have "valid_date (succ_date s)" by (rule valid_date_succ [OF "1.prems"(1)])
      then show ?thesis using "1.IH" [OF False _ "1.prems"(2)] False n by (simp add: date_range.simps [of s])
    qed
  qed
qed

lemma date_range_2015: "date_range (Date 2015 1 1) (Date 2015 12 31) = days_from (Date 2015 1 1) 365"
proof -
  have "valid_date (Date 2015 1 1)" "valid_date (Date 2015 12 31)"
    "nat (toordinal (Date 2015 12 31) - toordinal (Date 2015 1 1) + 1) = 365"
    by (simp_all add: calendar_simps)
  then show ?thesis using date_range_days_from by simp
qed

lemma daily_profiles_loop_map_sum:
  "daily_profiles_loop w is_holiday profile_df dynamize acc days =
     bind_sum (map_sum (\<lambda>day. load_profile_for_day w is_holiday day profile_df dynamize) days) (\<lambda>ss. Inr (acc @ ss))"
  by (induction days arbitrary: acc) (simp_all add: bind_sum_assoc)

lemma get_load_profile_map_sum:
  "get_load_profile w is_holiday fp from' to type =
     bind_sum (get_profile_from_file fp type) (\<lambda>profile_df.
       bind_sum (map_sum (\<lambda>day. load_profile_for_day w is_holiday day profile_df (type = ''H0''))
                   (date_range (Date 2015 1 1) (Date 2015 12 31)))
         concat_series)"
proof -
  have "pd_date_range (Date 2015 1 1) (Date 2015 12 31) = Inr (date_range (Date 2015 1 1) (Date 2015 12 31))"
    by (simp add: pd_date_range_def pd_timestamp_ok_def Let_def calendar_simps)
  then show ?thesis by (simp add: get_load_profile_def daily_profiles_loop_map_sum Let_def)
qed

lemma days_from_nth: "i < n \<Longrightarrow> days_from d n ! i = (succ_date ^^ i) d"
proof (induction n arbitrary: d i)
  case 0
  then show ?case by simp
next
  case (Suc n)
  then show ?case by (cases i) (simp_all add: funpow_swap1)
qed

lemma get_load_profile_Inr:
  assumes "get_profile_from_file fp type = Inr t" and "wf_table t"
  shows "\<exists>ss. get_load_profile (w :: 'w::len itself) is_holiday fp from' to type = Inr (concat ss) \<and>
          map snd (concat ss) =
            concat (map (expected_day_values w is_holiday t (type = ''H0'')) (date_range (Date 2015 1 1) (Date 2015 12 31))) \<and>
          map (dt_minutes \<circ> fst) (concat ss) = map (\<lambda>k. toordinal (Date 2015 1 1) * 1440 + 15 * int k) [1..<35041] \<and>
          fst (hd (concat ss)) = DateTime (Date 2015 1 1) (Time 0 15) \<and>
          fst (last (concat ss)) = DateTime (Date 2016 1 1) (Time 0 0)"
proof -
  have v: "valid_date (Date 2015 1 1)" and lo: "toordinal (Date 1677 9 21) < toordinal (Date 2015 1 1)"
    and room: "toordinal (Date 2015 1 1) + int 365 \<le> toordinal (Date 2262 4 11)"
    by (simp_all add: calendar_simps)
  from series_of_days [OF v lo room assms(2), of w is_holiday "type = ''H0''"]
  obtain ss where all: "map_sum (\<lambda>day. load_profile_for_day w is_holiday day t (type = ''H0'')) (days_from (Date 2015 1 1) 365) = Inr ss \<and>
       length ss = 365 \<and>
       map snd (concat ss) = concat (map (expected_day_values w is_holiday t (type = ''H0'')) (days_from (Date 2015 1 1) 365)) \<and>
       map (dt_minutes \<circ> fst) (concat ss) = map (\<lambda>k. toordinal (Date 2015 1 1) * 1440 + 15 * int k) [1..<96 * 365 + 1] \<and>
       (0 < (365::nat) \<longrightarrow> fst (hd (concat ss)) = DateTime (Date 2015 1 1) (Time 0 15) \<and>
       (\<exists>e. valid_date e \<and> toordinal e = toordinal (Date 2015 1 1) + int 365 \<and> fst (last (concat ss)) = DateTime e (Time 0 0)))" ..
  then have ss: "map_sum (\<lambda>day. load_profile_for_day w is_holiday day t (type = ''H0'')) (days_from (Date 2015 1 1) 365) = Inr ss"
    and len: "length ss = 365"
    and vals: "map snd (concat ss) = concat (map (expected_day_values w is_holiday t (type = ''H0'')) (days_from (Date 2015 1 1) 365))"
    and mins: "map (dt_minutes \<circ> fst) (concat ss) = map (\<lambda>k. toordinal (Date 2015 1 1) * 1440 + 15 * int k) [1..<96 * 365 + 1]"
    and hd1: "fst (hd (concat ss)) = DateTime (Date 2015 1 1) (Time 0 15)"
    and ends: "\<exists>e. valid_date e \<and> toordinal e = toordinal (Date 2015 1 1) + int 365 \<and> fst (last (concat ss)) = DateTime e (Time 0 0)"
    by (simp_all only: zero_less_numeral simp_thms)
  obtain e where e: "valid_date e" "toordinal e = toordinal (Date 2015 1 1) + 365"
    and last: "fst (last (concat ss)) = DateTime e (Time 0 0)" using ends by auto
  have "e = Date 2016 1 1"
    using toordinal_inj [OF e(1), of "Date 2016 1 1"] e(2) by (simp add: calendar_simps)
  moreover have "get_load_profile w is_holiday fp from' to type = Inr (concat ss)"
  proof -
    have "ss \<noteq> []" using len by auto
    then show ?thesis unfolding get_load_profile_map_sum date_range_2015 using assms(1) ss
      by (simp add: concat_series_def)
  qed
  ultimately show ?thesis
    unfolding date_range_2015 using vals mins hd1 last by (intro exI [of _ ss]) (simp del: upt_Suc)
qed

subsection \<open>The assembled year\<close>

lemma length_days_from [simp]: "length (days_from d n) = n"
  by (induction n arbitrary: d) simp_all

subsection \<open>Dynamization inside the assembled year\<close>

lemma date_range_mem:
  assumes "valid_date s" and "valid_date d" and "s \<le> d" and "d \<le> e"
  shows "d \<in> set (date_range s e)"
  using assms
proof (induction s e rule: date_range.induct)
  case (1 s e)
  have ne: "\<not> e < s" using "1.prems"(3,4) by simp
  show ?case
  proof (cases "s = d")
    case True
    then show ?thesis using ne by (simp add: date_range.simps [of d])
  next
    case False
    then have lt: "s < d" using "1.prems"(3) by simp
    have ns: "s \<noteq> Date MAXYEAR 12 31"
      using lt toordinal_le_max [OF "1.prems"(2)] toordinal_le_max [OF "1.prems"(1)] toordinal_less [OF "1.prems"(1,2) lt]
      by auto
    have "d \<in> set (date_range (succ_date s) e)"
      by (rule "1.IH" [OF ne valid_date_succ [OF "1.prems"(1) ns] "1.prems"(2) succ_date_le [OF "1.prems"(1,2) lt] "1.prems"(4)])
    then show ?thesis using ne by (simp add: date_range.simps [of s])
  qed
qed

lemma days_from_valid:
  assumes "valid_date s" and "toordinal s + int n \<le> MAXORDINAL" and "d \<in> set (days_from s n)"
  shows "valid_date d \<and> d \<noteq> Date MAXYEAR 12 31"
  using assms
proof (induction n arbitrary: s)
  case 0
  then show ?case by simp
next
  case (Suc n)
  have ne: "s \<noteq> Date MAXYEAR 12 31"
    using toordinal_le_max [OF Suc.prems(1)] Suc.prems(2) by auto
  have "valid_date (succ_date s)" "toordinal (succ_date s) + int n \<le> MAXORDINAL"
    using valid_date_succ [OF Suc.prems(1) ne] toordinal_succ_date [OF Suc.prems(1)] Suc.prems(2) by simp_all
  then show ?case using Suc.IH Suc.prems(1,3) ne by auto
qed

text \<open>C1 With a well-formed sheet, \<open>get_load_profile\<close> returns 35040 values (365 days of
  96 quarter hours) whose timestamps run from 2015-01-01 00:15 to 2016-01-01 00:00 in
  steps of exactly 15 minutes (strictly increasing, no gap, no duplicate at midnight),
  and whose values are, day by day, the column of the day's season and day type scaled
  by its dynamization factor when the type is H0.\<close>

theorem get_load_profile_year:
  assumes "get_profile_from_file fp type = Inr t" and "wf_table t"
  shows "\<exists>s. get_load_profile (w :: 'w::len itself) is_holiday fp from' to type = Inr s \<and> length s = 35040 \<and>
           map (dt_minutes \<circ> fst) s = map (\<lambda>k. toordinal (Date 2015 1 1) * 1440 + 15 * int k) [1..<35041] \<and>
           sorted_wrt (<) (map (dt_minutes \<circ> fst) s) \<and>
           fst (hd s) = DateTime (Date 2015 1 1) (Time 0 15) \<and>
           fst (last s) = DateTime (Date 2016 1 1) (Time 0 0) \<and>
           map snd s =
             concat (map (expected_day_values w is_holiday t (type = ''H0'')) (date_range (Date 2015 1 1) (Date 2015 12 31)))"
proof -
  obtain ss where ss: "get_load_profile w is_holiday fp from' to type = Inr (concat ss)"
    and vals: "map snd (concat ss) =
            concat (map (expected_day_values w is_holiday t (type = ''H0'')) (date_range (Date 2015 1 1) (Date 2015 12 31)))"
    and mins: "map (dt_minutes \<circ> fst) (concat ss) = map (\<lambda>k. toordinal (Date 2015 1 1) * 1440 + 15 * int k) [1..<35041]"
    and ends: "fst (hd (concat ss)) = DateTime (Date 2015 1 1) (Time 0 15)"
      "fst (last (concat ss)) = DateTime (Date 2016 1 1) (Time 0 0)"
    using get_load_profile_Inr [OF assms] by blast
  have "length (concat ss) = 35040" using arg_cong [OF mins, of length] by simp
  then show ?thesis using ss vals mins ends sorted_wrt_quarters by (intro exI [of _ "concat ss"]) simp
qed

theorem get_load_profile_year_witness:
  "get_profile_from_file flat_workbook ''H0'' = Inr (\<lambda>_. Some (map (\<lambda>t. (t, 100)) quarter_hours)) \<and>
   wf_table (\<lambda>_. Some (map (\<lambda>t. (t, 100)) quarter_hours)) \<and>
   (\<exists>s. get_load_profile TYPE(64) (\<lambda>_. False) flat_workbook (Date 2015 1 1) (Date 2015 12 31) ''H0'' = Inr s \<and>
        length s = 35040 \<and> fst (last s) = DateTime (Date 2016 1 1) (Time 0 0))"
  using flat_table_wf get_load_profile_year [OF flat_table_wf [THEN conjunct1] flat_table_wf [THEN conjunct2],
      of "TYPE(64)" "\<lambda>_. False" "Date 2015 1 1" "Date 2015 12 31"]
  by blast

text \<open>C5 The requested range is ignored: for a well-formed sheet the result is one and the
  same 35040-point series for every \<open>from_\<close> and \<open>to\<close>, including a reversed range
  for which the specification requires InvalidRangeError.\<close>

theorem get_load_profile_ignores_range:
  assumes "get_profile_from_file fp type = Inr t" and "wf_table t"
  shows "\<exists>s. length s = 35040 \<and>
           (\<forall>a b. get_load_profile (w :: 'w::len itself) is_holiday fp a b type = Inr s)"
proof -
  obtain ss where ss: "get_load_profile w is_holiday fp (Date 2015 1 1) (Date 2015 1 1) type = Inr (concat ss)"
    and mins: "map (dt_minutes \<circ> fst) (concat ss) = map (\<lambda>k. toordinal (Date 2015 1 1) * 1440 + 15 * int k) [1..<35041]"
    using get_load_profile_Inr [OF assms] by blast
  have indep: "get_load_profile w is_holiday fp a b type = get_load_profile w is_holiday fp a' b' type"
    for a b a' b' by (simp add: get_load_profile_map_sum)
  have "length (concat ss) = 35040" using arg_cong [OF mins, of length] by simp
  then show ?thesis using ss indep by metis
qed

theorem get_load_profile_ignores_range_witness:
  "get_profile_from_file flat_workbook ''H0'' = Inr (\<lambda>_. Some (map (\<lambda>t. (t, 100)) quarter_hours)) \<and>
   wf_table (\<lambda>_. Some (map (\<lambda>t. (t, 100)) quarter_hours)) \<and>
   (\<exists>s. length s = 35040 \<and>
        get_load_profile TYPE(32) (\<lambda>_. False) flat_workbook (Date 2020 1 1) (Date 2019 1 1) ''H0'' = Inr s)"
  using flat_table_wf get_load_profile_ignores_range [OF flat_table_wf [THEN conjunct1] flat_table_wf [THEN conjunct2],
      of "TYPE(32)" "\<lambda>_. False"]
  by blast

subsection \<open>The width of \<open>dayofyear\<close> in the assembled year\<close>

text \<open>C10 With 32-bit day-of-year integers the H0 series departs from the specification's:
  as soon as a day from the 216th of the year on has a non-zero value in its column, the
  values returned differ from the exactly dynamized ones.\<close>

theorem get_load_profile_int32_diverges:
  assumes "get_profile_from_file fp ''H0'' = Inr t" and "wf_table t"
    and "d \<in> set (date_range (Date 2015 1 1) (Date 2015 12 31))" and "216 \<le> dayofyear d"
    and "t (season_of d, weekday_of is_holiday d) = Some df" and "x \<in> set (map snd df)" and "x \<noteq> 0"
  shows "\<exists>s. get_load_profile TYPE(32) is_holiday fp from' to ''H0'' = Inr s \<and>
           map snd s \<noteq> concat (map (spec_day_values is_holiday t) (date_range (Date 2015 1 1) (Date 2015 12 31)))"
proof -
  let ?days = "date_range (Date 2015 1 1) (Date 2015 12 31)"
  let ?n = "int (dayofyear d)"
  have v: "valid_date (Date 2015 1 1)" and room: "toordinal (Date 2015 1 1) + int 365 \<le> MAXORDINAL"
    by (simp_all add: calendar_simps)
  have vd: "valid_date d" using days_from_valid [OF v room] assms(3) unfolding date_range_2015 by blast
  have b: "1 \<le> ?n" "?n \<le> 366" using dayofyear_366 [OF vd] by simp_all
  have "?n ^ 3 \<le> 366 ^ 3" using b by (intro power_mono) simp_all
  moreover have "216 ^ 4 \<le> ?n ^ 4" using assms(4) by (intro power_mono) simp_all
  ultimately have ne: "dynamization_value (word_of_int ?n :: 32 word) \<noteq> dynamization_poly ?n"
    using dynamization_value_exact_iff [OF b(1), where 'w = 32] by simp
  have "expected_day_values TYPE(32) is_holiday t True d \<noteq> spec_day_values is_holiday t d"
  proof
    assume "expected_day_values TYPE(32) is_holiday t True d = spec_day_values is_holiday t d"
    then have "map (\<lambda>x. x * dynamization_value (word_of_int ?n :: 32 word)) (map snd df) =
               map (\<lambda>x. x * dynamization_poly ?n) (map snd df)"
      using assms(5) by (simp add: expected_day_values_def spec_day_values_def)
    then have "(\<forall>p \<in> set df. snd p = 0) \<or> dynamization_value (word_of_int ?n :: 32 word) = dynamization_poly ?n"
      by simp
    then show False using ne assms(6,7) by auto
  qed
  then have blocks: "map (expected_day_values TYPE(32) is_holiday t True) ?days \<noteq> map (spec_day_values is_holiday t) ?days"
    using assms(3) by (auto simp: map_eq_conv)
  have "list_all2 (\<lambda>a b. length a = length b) (map (expected_day_values TYPE(32) is_holiday t True) ?days)
          (map (spec_day_values is_holiday t) ?days)"
    by (simp add: list_all2_conv_all_nth day_values_length [OF assms(2)])
  then have "concat (map (expected_day_values TYPE(32) is_holiday t True) ?days) \<noteq> concat (map (spec_day_values is_holiday t) ?days)"
    using blocks concat_eq_blocks by blast
  then show ?thesis using get_load_profile_Inr [OF assms(1,2), of "TYPE(32)" is_holiday from' to] by auto
qed

theorem get_load_profile_int32_diverges_witness:
  "get_profile_from_file flat_workbook ''H0'' = Inr (\<lambda>_. Some (map (\<lambda>t. (t, 100)) quarter_hours)) \<and>
   wf_table (\<lambda>_. Some (map (\<lambda>t. (t, 100)) quarter_hours)) \<and>
   Date 2015 12 31 \<in> set (date_range (Date 2015 1 1) (Date 2015 12 31)) \<and> 216 \<le> dayofyear (Date 2015 12 31) \<and>
   (100::real) \<in> set (map snd (map (\<lambda>t. (t, 100::real)) quarter_hours)) \<and> (100::real) \<noteq> 0 \<and>
   (\<exists>s. get_load_profile TYPE(32) (\<lambda>_. False) flat_workbook (Date 2015 1 1) (Date 2015 12 31) ''H0'' = Inr s \<and>
        map snd s \<noteq> concat (map (spec_day_values (\<lambda>_. False) (\<lambda>_. Some (map (\<lambda>t. (t, 100)) quarter_hours)))
                                  (date_range (Date 2015 1 1) (Date 2015 12 31))))"
proof -
  have m: "Date 2015 12 31 \<in> set (date_range (Date 2015 1 1) (Date 2015 12 31))"
    by (rule date_range_mem) (simp_all add: calendar_simps)
  have doy: "216 \<le> dayofyear (Date 2015 12 31)" by (simp add: calendar_simps)
  have x: "(100::real) \<in> set (map snd (map (\<lambda>t. (t, 100::real)) quarter_hours))"
  proof -
    have h: "hd quarter_hours \<in> set quarter_hours" by (simp add: hd_in_set)
    have "(100::real) \<in> (\<lambda>_. 100) ` set quarter_hours" by (rule image_eqI [OF refl h])
    then show ?thesis by (simp add: comp_def)
  qed
  show ?thesis
    using flat_table_wf m doy x get_load_profile_int32_diverges [OF flat_table_wf [THEN conjunct1] flat_table_wf [THEN conjunct2] m doy
        _ x, of "\<lambda>_. False" "Date 2015 1 1" "Date 2015 12 31"] by simp
qed

subsection \<open>The days of 2015 and the error paths\<close>

lemma days_from_ordinal:
  assumes "valid_date s" and "toordinal s + int n \<le> MAXORDINAL" and "d \<in> set (days_from s n)"
  shows "toordinal s \<le> toordinal d \<and> toordinal d < toordinal s + int n"
proof -
  obtain i where i: "i < n" "d = days_from s n ! i" using assms(3) by (auto simp: in_set_conv_nth)
  have "toordinal s + int i \<le> MAXORDINAL" using assms(2) i(1) by simp
  then have "toordinal ((succ_date ^^ i) s) = toordinal s + int i" using funpow_succ_date [OF assms(1)] by blast
  then show ?thesis using i by (simp add: days_from_nth)
qed

lemma days_2015_valid:
  assumes "d \<in> set (date_range (Date 2015 1 1) (Date 2015 12 31))"
  shows "valid_date d \<and> pd_day_ok d"
proof -
  have v: "valid_date (Date 2015 1 1)" and room: "toordinal (Date 2015 1 1) + int 365 \<le> MAXORDINAL"
    by (simp_all add: calendar_simps)
  have d: "d \<in> set (days_from (Date 2015 1 1) 365)" using assms unfolding date_range_2015 .
  have "toordinal (Date 1677 9 21) < toordinal (Date 2015 1 1)"
    "toordinal (Date 2015 1 1) + 365 < toordinal (Date 2262 4 11)" by (simp_all add: calendar_simps)
  then show ?thesis
    using days_from_valid [OF v room d] days_from_ordinal [OF v room d] by (simp add: pd_day_ok_def)
qed

text \<open>C17 The error paths of \<open>get_load_profile\<close>, exactly: it raises ValueError exactly when
  the workbook has no sheet of the requested type, and it raises some exception exactly
  when the sheet is missing or some day of 2015 finds no column for its season and day type,
  or, for the dynamized type H0, an empty one.\<close>

theorem get_load_profile_errors:
  "(get_load_profile w is_holiday fp from' to type = Inl ValueError \<longleftrightarrow> fp type = None) \<and>
   ((\<exists>e. get_load_profile w is_holiday fp from' to type = Inl e) \<longleftrightarrow>
      (case fp type of
         None \<Rightarrow> True
       | Some sheet \<Rightarrow> (\<exists>d\<in>set (date_range (Date 2015 1 1) (Date 2015 12 31)).
            case sheet (season_of d, weekday_of is_holiday d) of None \<Rightarrow> True | Some col \<Rightarrow> type = ''H0'' \<and> col = [])))"
proof (cases "fp type")
  case None
  then show ?thesis by (simp add: get_load_profile_map_sum get_profile_from_file_def)
next
  case (Some sheet)
  let ?t = "\<lambda>col. map_option (take (24 * 4)) (sheet col)"
  let ?f = "\<lambda>day. load_profile_for_day w is_holiday day ?t (type = ''H0'')"
  let ?days = "date_range (Date 2015 1 1) (Date 2015 12 31)"
  have g: "get_load_profile w is_holiday fp from' to type = bind_sum (map_sum ?f ?days) concat_series"
    using Some by (simp add: get_load_profile_map_sum get_profile_from_file_def)
  have day: "(\<exists>e. ?f d = Inl e) \<longleftrightarrow>
      (case sheet (season_of d, weekday_of is_holiday d) of None \<Rightarrow> True | Some col \<Rightarrow> type = ''H0'' \<and> col = [])"
    if "d \<in> set ?days" for d
  proof -
    have v: "valid_date d" "pd_day_ok d" using days_2015_valid [OF that] by simp_all
    show ?thesis
      using load_profile_for_day_Inl_iff [OF v, of w is_holiday ?t "type = ''H0''"] by (simp split: option.splits)
  qed
  have "length ?days = 365" unfolding date_range_2015 by simp
  then have ne: "?days \<noteq> []" by auto
  have inl: "(\<exists>e. map_sum ?f ?days = Inl e) \<longleftrightarrow> (\<exists>d\<in>set ?days. \<exists>e. ?f d = Inl e)"
    using map_sum_Inl [of _ ?days ?f] map_sum_Inl_mem [of ?f ?days] by blast
  have nv: "map_sum ?f ?days \<noteq> Inl ValueError"
    using map_sum_Inl_mem [of ?f ?days ValueError] load_profile_for_day_not_ValueError by blast
  have "(\<exists>e. get_load_profile w is_holiday fp from' to type = Inl e) \<longleftrightarrow> (\<exists>e. map_sum ?f ?days = Inl e)"
    unfolding g using ne map_sum_length [of ?f ?days]
    by (cases "map_sum ?f ?days") (auto simp: concat_series_def)
  moreover have "get_load_profile w is_holiday fp from' to type \<noteq> Inl ValueError"
    unfolding g using nv ne map_sum_length [of ?f ?days]
    by (cases "map_sum ?f ?days") (auto simp: concat_series_def)
  ultimately show ?thesis using Some inl day by simp
qed

theorem get_load_profile_errors_witness:
  "get_load_profile TYPE(64) (\<lambda>_. False) gap_workbook (Date 2015 1 1) (Date 2015 12 31) ''G0'' = Inl ValueError \<and>
   (\<exists>e. get_load_profile TYPE(64) (\<lambda>_. False) gap_workbook (Date 2015 1 1) (Date 2015 12 31) ''H0'' = Inl e) \<and>
   get_load_profile TYPE(64) (\<lambda>_. False) gap_workbook (Date 2015 1 1) (Date 2015 12 31) ''H0'' \<noteq> Inl ValueError \<and>
   \<not> (\<exists>e. get_load_profile TYPE(64) (\<lambda>_. False) flat_workbook (Date 2015 1 1) (Date 2015 12 31) ''H0'' = Inl e)"
proof -
  let ?days = "date_range (Date 2015 1 1) (Date 2015 12 31)"
  let ?gap = "\<lambda>c. if c = (Winter, Werktag) then None else Some (map (\<lambda>t. (t, 100::real)) quarter_hours)"
  have mem: "Date 2015 1 2 \<in> set ?days" by (rule date_range_mem) (simp_all add: calendar_simps)
  have col: "season_of (Date 2015 1 2) = Winter" "weekday_of (\<lambda>_. False) (Date 2015 1 2) = Werktag"
    by (simp_all add: season_of_def weekday_of_def day_type_def)
  have sheets: "gap_workbook ''G0'' = None" "gap_workbook ''H0'' = Some ?gap"
    "flat_workbook ''H0'' = Some (\<lambda>_. Some (map (\<lambda>t. (t, 100)) quarter_hours))"
    by (simp_all add: gap_workbook_def flat_workbook_def)
  have gap: "\<exists>d\<in>set ?days. case ?gap (season_of d, weekday_of (\<lambda>_. False) d) of
               None \<Rightarrow> True | Some col \<Rightarrow> ''H0'' = ''H0'' \<and> col = []"
    using mem col by (intro bexI [of _ "Date 2015 1 2"]) simp_all
  show ?thesis
    using get_load_profile_errors [of "TYPE(64)" "\<lambda>_. False" gap_workbook "Date 2015 1 1" "Date 2015 12 31" "''G0''"]
      get_load_profile_errors [of "TYPE(64)" "\<lambda>_. False" gap_workbook "Date 2015 1 1" "Date 2015 12 31" "''H0''"]
      get_load_profile_errors [of "TYPE(64)" "\<lambda>_. False" flat_workbook "Date 2015 1 1" "Date 2015 12 31" "''H0''"]
      sheets gap by simp
qed

text \<open>C9 Composition of the assembly with the dynamizer: with 64-bit day-of-year integers and
  a sheet of non-negative values, every value of the assembled H0 series lies between 0.78
  and 1.26 times the reference value it was scaled from.\<close>

theorem get_load_profile_H0_scaling:
  assumes "get_profile_from_file fp ''H0'' = Inr t" and "wf_table t"
    and "\<forall>c df. t c = Some df \<longrightarrow> (\<forall>x\<in>set df. 0 \<le> snd x)"
  shows "\<exists>s. get_load_profile TYPE(64) is_holiday fp from' to ''H0'' = Inr s \<and>
           list_all2 (\<lambda>x y. 39 / 50 * y \<le> x \<and> x \<le> 63 / 50 * y) (map snd s)
             (concat (map (expected_day_values TYPE(64) is_holiday t False) (date_range (Date 2015 1 1) (Date 2015 12 31))))"
proof -
  obtain ss where gl: "get_load_profile TYPE(64) is_holiday fp from' to ''H0'' = Inr (concat ss)"
    and vals: "map snd (concat ss) =
      concat (map (expected_day_values TYPE(64) is_holiday t True) (date_range (Date 2015 1 1) (Date 2015 12 31)))"
    using get_load_profile_Inr [OF assms(1,2), of "TYPE(64)" is_holiday from' to] by auto
  have "list_all2 (\<lambda>x y. 39 / 50 * y \<le> x \<and> x \<le> 63 / 50 * y)
          (concat (map (expected_day_values TYPE(64) is_holiday t True) (date_range (Date 2015 1 1) (Date 2015 12 31))))
          (concat (map (expected_day_values TYPE(64) is_holiday t False) (date_range (Date 2015 1 1) (Date 2015 12 31))))"
  proof (rule list_all2_concat_map)
    fix d assume d: "d \<in> set (date_range (Date 2015 1 1) (Date 2015 12 31))"
    obtain df where df: "t (season_of d, weekday_of is_holiday d) = Some df" "map fst df = quarter_hours"
      using wf_table_lookup [OF assms(2)] by blast
    show "list_all2 (\<lambda>x y. 39 / 50 * y \<le> x \<and> x \<le> 63 / 50 * y)
            (expected_day_values TYPE(64) is_holiday t True d) (expected_day_values TYPE(64) is_holiday t False d)"
      using dynamize_values_range [where t = t and is_holiday = is_holiday, OF conjunct1 [OF days_2015_valid [OF d]] df(1)]
        assms(3) df(1) by blast
  qed
  with gl vals show ?thesis by auto
qed

theorem get_load_profile_H0_scaling_witness:
  "\<exists>s. get_load_profile TYPE(64) (\<lambda>_. False) flat_workbook (Date 2015 1 1) (Date 2015 12 31) ''H0'' = Inr s \<and>
       list_all (\<lambda>x. 78 \<le> x \<and> x \<le> 126) (map snd s)"
proof -
  have h: "get_profile_from_file flat_workbook ''H0'' = Inr (\<lambda>_. Some (map (\<lambda>t. (t, 100)) quarter_hours))"
    "wf_table (\<lambda>_. Some (map (\<lambda>t. (t, 100::real)) quarter_hours))"
    "\<forall>c df. (\<lambda>_. Some (map (\<lambda>t. (t, 100::real)) quarter_hours)) c = Some df \<longrightarrow> (\<forall>x\<in>set df. 0 \<le> snd x)"
    using flat_table_wf by auto
  obtain s where s: "get_load_profile TYPE(64) (\<lambda>_. False) flat_workbook (Date 2015 1 1) (Date 2015 12 31) ''H0'' = Inr s"
    "list_all2 (\<lambda>x y. 39 / 50 * y \<le> x \<and> x \<le> 63 / 50 * y) (map snd s)
       (concat (map (expected_day_values TYPE(64) (\<lambda>_. False) (\<lambda>_. Some (map (\<lambda>t. (t, 100)) quarter_hours)) False)
          (date_range (Date 2015 1 1) (Date 2015 12 31))))"
    using get_load_profile_H0_scaling [OF h] by blast
  have "\<forall>y\<in>set (concat (map (expected_day_values TYPE(64) (\<lambda>_. False) (\<lambda>_. Some (map (\<lambda>t. (t, 100)) quarter_hours)) False)
          (date_range (Date 2015 1 1) (Date 2015 12 31)))). y = 100"
    by (simp add: expected_day_values_def)
  then have "list_all (\<lambda>x. 39 / 50 * 100 \<le> x \<and> x \<le> 63 / 50 * 100) (map snd s)"
    by (rule list_all2_const_right [OF s(2)])
  then have "list_all (\<lambda>x. 78 \<le> x \<and> x \<le> 126) (map snd s)" by simp
  with s(1) show ?thesis by blast
qed

end
