(* ===== verification/Spec2Isabelle.thy ===== *)
theory Spec2Isabelle
  imports Battery Assembler
begin

text \<open>
  \<^bold>\<open>A verification model of the load-profile synthesis and battery code.\<close>

  The repository has two source files. \<^verbatim>\<open>src/src/load_profiles.py\<close> builds a
  quarter-hourly load series for a date range from standard VDEW load-profile tables:
  \<open>get_load_profile\<close> reads one sheet of the workbook (\<open>get_profile_from_file\<close>)
  and, for every day, calls \<open>load_profile_for_day\<close>. That function classifies the day
  into a season and a day type, takes the column for that pair, gives its 96 quarter-hour
  rows real timestamps (\<open>combine_day_time\<close>, moving the 24:00 row to 00:00 of the next
  day) and, for the household profile H0, scales the column by the dynamization polynomial
  of the day of the year (\<open>dynamize_day\<close>). The days are concatenated. \<^verbatim>\<open>src/src/battery.py\<close>
  is the class \<open>Battery\<close>, whose \<open>charge\<close> and \<open>discharge\<close> clamp a request to the
  power limit and to the remaining capacity or charge. The two files do not call each
  other; a simulation loop (not in the repository) would feed the series to a battery.

  \<^bold>\<open>Theories.\<close>
  \<^item> \<open>Prelude\<close>: Python exceptions (\<open>py_error\<close>), statement sequencing with
    exceptions (\<open>bind_sum\<close>), element-wise mapping that stops at the first exception
    (\<open>map_sum\<close>, as \<open>Index.map\<close> or a loop), and lemmas on lists and fixed-width integers.
  \<^item> \<open>Calendar\<close>: the parts of Python's \<open>datetime\<close> the code relies on, modelled from
    CPython's pure-Python implementation: dates compared as tuples (a \<open>linorder\<close>
    instance), \<open>toordinal\<close>, \<open>isoweekday\<close>, pandas' \<open>dayofyear\<close> and the calendar
    successor \<open>succ_date\<close>. Proved: the order on valid dates is the order of their
    ordinals, and the successor date has the next ordinal.
  \<^item> \<open>Ordinal\<close>: CPython's \<open>_ord2ymd\<close> as written, with its 400-, 100- and 4-year
    cycles, the month estimate \<open>(n + 50) >> 5\<close> and its correction (\<open>ord2ymd\<close>,
    \<open>ord2ymd_month\<close>), \<open>date.fromordinal\<close>, and \<open>date + timedelta(days=1)\<close> as
    \<open>add_one_day\<close>: \<open>fromordinal(toordinal() + 1)\<close>, OverflowError outside
    \<open>[1, 3652059]\<close>. Proved: \<open>fromordinal\<close> and \<open>toordinal\<close> are inverse on valid
    dates and on \<open>[1, MAXORDINAL]\<close>, so adding a day gives the calendar successor and
    overflows exactly on 9999-12-31.
  \<^item> \<open>DayClassifier\<close>: \<open>season_of\<close> and the day-type rule \<open>day_type\<close> of
    \<open>load_profile_for_day\<close> (lines 65--83). The holiday calendar \<open>AT_HOLIDAYS\<close> is a
    parameter \<open>is_holiday\<close>. Line 76 compares the bound method \<open>day.isoweekday\<close>
    itself with 7 (and line 78 with 6); \<open>py_eq\<close> models Python's \<open>==\<close> between a method
    object and an int, which is always false. \<open>weekday_of\<close> is the rule as written,
    \<open>weekday_spec\<close> the rule as the specification states it.
  \<^item> \<open>Dynamizer\<close>: coefficients \<open>A4 \<dots> A0\<close>, \<open>dynamization_value\<close> and
    \<open>dynamize_day\<close> (lines 13--18, 39--48). numpy computes \<open>np.power(dayofyear, k)\<close> at the
    width of the integer it is given, so the day of the year is a \<open>'w word\<close> and the powers
    wrap around. With pandas 2 the field is int32, and numpy 2 keeps the power at int32.
    Older versions compute in int64. Both widths are instances of one definition.
  \<^item> \<open>ProfileTable\<close>: time and datetime values, the profile table (a map from
    (season, day type) to a series indexed by time of day), \<open>get_profile_from_file\<close>
    (a sheet lookup and its \<open>nrows=96\<close>; the Excel parsing itself is not modelled),
    the 96 quarter hours and well-formed tables.
  \<^item> \<open>DayProfile\<close>: \<open>combine_day_time\<close>, \<open>map_index\<close> and
    \<open>load_profile_for_day\<close>, the series of one day. \<open>pd_timestamp_ok\<close> is pandas'
    Timestamp range (1677-09-21 00:12:43 to 2262-04-11 23:47:16): outside it \<open>Index.map\<close>
    keeps an object index and \<open>.dayofyear\<close> raises AttributeError, which
    \<open>load_profile_for_day\<close> models; \<open>pd_day_ok\<close> names the days whose timestamps all
    lie inside it. \<open>expected_day_values\<close> and
    \<open>spec_day_values\<close> are the values the specification expects for a day, with the
    factor computed at the model's width or exactly.
  \<^item> \<open>Assembler\<close>: pandas' \<open>date_range\<close> (\<open>pd_date_range\<close>: OutOfBoundsDatetime for
    an end outside the Timestamp range, then \<open>date_range\<close>, a \<open>function\<close> stepping one
    day at a time while the day does not pass the end), the loop of lines 121--123 that appends one day
    profile per day (\<open>daily_profiles_loop\<close>, stopping at the first exception),
    \<open>concat\<close>, and \<open>get_load_profile\<close>.
  \<^item> \<open>Battery\<close>: the record of the four attributes, \<open>Battery\<close> (the constructor),
    \<open>SoC\<close> (ZeroDivisionError on a zero capacity), \<open>max_charge\<close>, \<open>max_discharge\<close>,
    \<open>charge\<close> and \<open>discharge\<close>. Each mutating method returns the new battery and the
    amount the Python method returns. Quantities range over any linearly ordered field.
    \<open>battery_reach\<close> is the step relation of calls with non-negative requests;
    \<open>run_battery\<close> performs a list of calls in order, as a simulation loop would;
    \<open>undo_calls\<close> is the client that takes back every realized amount in reverse order.

  \<^bold>\<open>What is proved.\<close>
  The assembled 2015 series has 35040 points (\<open>get_load_profile_year\<close>). Its
  timestamps run from 2015-01-01 00:15 to 2016-01-01 00:00 in steps of exactly 15
  minutes, measured on the ordinal time axis \<open>dt_minutes\<close>: strictly increasing, with no
  gap and no duplicate at midnight. Each day carries the column of its season and day type,
  scaled by its factor. The requested range is ignored (\<open>get_load_profile_ignores_range\<close>).
  The assembly raises
  ValueError exactly when the sheet is missing, and raises at all exactly when the sheet is
  missing or a day of 2015 finds no column (or, for H0, an empty one)
  (\<open>get_load_profile_errors\<close>). For every valid date inside pandas' Timestamp range
  and well-formed table, \<open>load_profile_for_day\<close> gives 96 points at 15, 30, \<dots>, 1440 minutes after
  the day's midnight with the day's scaled column (\<open>load_profile_for_day_spec\<close>).
  The error branches of
  \<open>load_profile_for_day\<close> and the rollover rule are characterised. \<open>nrows=24 * 4\<close>
  makes rows below the day harmless (\<open>get_profile_from_file_nrows\<close>), but nothing checks
  that a column has 96 rows: a short column gives a short day, not an error
  (\<open>load_profile_for_day_length\<close>).
  As written, the day-type rule makes a day Sonntag exactly when it is a holiday and
  Samstag exactly on 24 and 31 December (\<open>weekday_of_code\<close>). It therefore disagrees with
  the specification on every non-holiday weekend day other than those two
  (\<open>weekday_of_vs_spec\<close>). The season depends on month and day only, with the
  specification's closed boundaries.
  The factor is the exact polynomial at int64. At int32 it is exact up to day 215 and
  wrong from day 216 on; at day 366 it exceeds 7 where the specification expects at most
  1.3. At int64 the factor changes by at most 0.0045 from one day to the next
  (\<open>dynamization_int64_continuity\<close>, the specification's continuity).
  At int64 the factor of every day lies in \<open>[0.78, 1.26]\<close>
  (\<open>dynamization_int64_range\<close>, by interval bounds on twelve boxes covering the year),
  so with non-negative reference values every value of the assembled H0 series lies
  between 0.78 and 1.26 times its reference value (\<open>get_load_profile_H0_scaling\<close>).
  In the assembled series, with int32 the values depart from the exact polynomial's as soon
  as a late day has a non-zero value (\<open>get_load_profile_int32_diverges\<close>).
  For the battery: every state reachable from a well-formed battery by non-negative requests
  keeps \<open>0 \<le> current \<le> capacity\<close>. \<open>charge\<close> and \<open>discharge\<close> are bounded and
  saturate. \<open>SoC\<close> lies in \<open>[0, 1]\<close>. A charge/discharge round trip is exact exactly
  when the amount is within the discharge limit. A negative request is carried out in full,
  so it breaks the invariant exactly when it takes the charge out of \<open>[0, capacity]\<close>
  (\<open>negative_requests\<close>). Over any interleaving of
  calls the returned amounts account exactly for the change of the charge
  (\<open>run_battery_accounting\<close>). A sequence of charge requests is accepted up to the free
  capacity, each request clipped to the charging power, and a sequence of discharges delivers up to the
  stored charge, each clipped to the discharging power (\<open>run_battery_request_sequence\<close>).
  With equal charging and discharging power, taking back every realized amount of any
  sequence of calls, in reverse order, restores the battery exactly
  (\<open>run_battery_undo\<close>, the specification's round trip for sequences).
  Repeating a positive request fills the battery after
  exactly \<open>\<lceil>(capacity - current) / min(a, charge_kWh)\<rceil>\<close> charges and empties it after
  exactly \<open>\<lceil>current / min(a, discharge_kWh)\<rceil>\<close> discharges, not earlier
  (\<open>charge_reaches_full\<close>, \<open>discharge_reaches_empty\<close>).
  With positive power limits the reachable states are exactly the batteries that differ
  from the initial one in the charge only, with the charge anywhere in
  \<open>[0, capacity]\<close> (\<open>battery_reach_exact\<close>): the invariant is the strongest one.

  \<^bold>\<open>Bounds and evaluation.\<close> No fuel is needed anywhere. \<open>date_range\<close> is a
  \<open>function\<close> whose termination is proved with a lexicographic measure (years to go,
  months left in the year, days left in the month), so it ends on every pair of dates,
  valid or not; for valid dates it equals \<open>days_from\<close>, structural recursion on the
  number of days. The loop over the days is structural recursion on the list of days.
  The year result is proved for all inputs by induction over the days, not by evaluation.
  The liveness bounds of the battery are explicit ceilings over any archimedean field
  (\<open>floor_ceiling\<close>). The range of the factor is proved on twelve boxes of days
  (\<open>factor_boxes\<close>, centre and radius): on each the polynomial stays within its value at
  the centre plus or minus the sum of the shifted coefficients' magnitudes times the powers
  of the radius, and \<open>boxes_cover\<close> checks by evaluation that the boxes leave no day of
  1..366 out; the boxes are narrow near day 202, where the factor is smallest. The change
  from day to day is the cubic \<open>dynamization_poly (n + 1) - dynamization_poly n\<close>,
  bounded the same way on seven boxes (\<open>step_boxes\<close>). Concrete instances (witnesses) use
  a flat 100 W workbook, or one with a 97th row, and are evaluated by \<open>simp\<close>.

  \<^bold>\<open>Not modelled.\<close> Reading and parsing the Excel workbook (only the resulting table is
  modelled), the \<open>holidays\<close> package (a parameter), matplotlib (imported, unused), and
  floating-point rounding (values and factors are real numbers). The pandas Series index
  objects are lists of pairs; pandas' copy and view semantics do not matter here, because
  the code assigns the index of a freshly selected column. The claims about one day hold for
  days inside pandas' Timestamp range (\<open>pd_day_ok\<close>); the code's own range, 2015, lies
  inside it.
\<close>

end
